theory Spec2Isabelle
  imports Main "HOL-Library.Word"
begin

section \<open>Source locations and diagnostics\<close>

text \<open>
  \<^verbatim>\<open>SourceLocation\<close> (Common/SourceLocation.h). Its three counters are \<^verbatim>\<open>uint32_t\<close> in the
  source; like the lexer's own counters they are modelled as natural numbers, which is
  what the source computes as long as no counter reaches \<open>2 ^ 32\<close>, that is, for every
  source buffer shorter than 4 GiB.
\<close>

record SourceLocation =
  filename :: string
  line :: nat
  column :: nat
  offset :: nat

definition SourceLocation_default :: SourceLocation where
  "SourceLocation_default = \<lparr>filename = [], line = 1, column = 1, offset = 0\<rparr>"

datatype DiagnosticSeverity = Note | Warning | Error | Fatal

text \<open>
  A \<^verbatim>\<open>Diagnostic\<close> also has \<^verbatim>\<open>notes\<close> and \<^verbatim>\<open>fixes\<close>; every \<^verbatim>\<open>emitXxx\<close> method passes
  them empty, so they are left out.
\<close>

record Diagnostic =
  severity :: DiagnosticSeverity
  diagLocation :: SourceLocation
  message :: string

text \<open>
  \<^verbatim>\<open>DiagnosticEngine\<close> (Common/Diagnostics.cpp). The two counters are \<^verbatim>\<open>uint32_t\<close> and
  are incremented with \<^verbatim>\<open>++\<close>, hence machine words here. The handler only prints the
  diagnostic; printing is not modelled.
\<close>

record DiagnosticEngine =
  diagnostics :: "Diagnostic list"
  errorCount :: "32 word"
  warningCount :: "32 word"

definition DiagnosticEngine_init :: DiagnosticEngine where
  "DiagnosticEngine_init = \<lparr>diagnostics = [], errorCount = 0, warningCount = 0\<rparr>"

definition emit :: "Diagnostic \<Rightarrow> DiagnosticEngine \<Rightarrow> DiagnosticEngine" where
  "emit d D =
     (let D1 = (case severity d of
                  Error \<Rightarrow> D\<lparr>errorCount := errorCount D + 1\<rparr>
                | Fatal \<Rightarrow> D\<lparr>errorCount := errorCount D + 1\<rparr>
                | Warning \<Rightarrow> D\<lparr>warningCount := warningCount D + 1\<rparr>
                | Note \<Rightarrow> D)
      in D1\<lparr>diagnostics := diagnostics D1 @ [d]\<rparr>)"

definition emitError :: "SourceLocation \<Rightarrow> string \<Rightarrow> DiagnosticEngine \<Rightarrow> DiagnosticEngine" where
  "emitError loc msg D = emit \<lparr>severity = Error, diagLocation = loc, message = msg\<rparr> D"


section \<open>Tokens\<close>

text \<open>
  \<^verbatim>\<open>enum class TokenKind\<close> (Lexer/Token.h) is one flat enumeration whose header groups the
  enumerators under the banners ``Keywords'' and ``Punctuation / Operators''. The two
  groups are datatypes of their own here and \<open>TokenKind\<close> embeds them; the enumerators
  keep their names and their order.
\<close>

datatype (plugins only: code) Keyword =
    KwModule | KwImport | KwFunc | KwLet | KwMut | KwConst | KwStruct | KwClass
  | KwEnum | KwTrait | KwImpl | KwType | KwSelf | KwSelfType
  | KwIf | KwElse | KwMatch | KwFor | KwWhile | KwLoop | KwBreak | KwContinue
  | KwReturn | KwIn
  | KwMove | KwRef | KwDrop
  | KwAsync | KwAwait | KwSpawn
  | KwUnsafe
  | KwPub | KwPublic | KwPrivate
  | KwTrue | KwFalse | KwAnd | KwOr | KwNot
  | KwAs | KwIs | KwWhere | KwUse | KwVoid | KwPanic | KwAssert
  | KwDoc | KwDeprecated | KwTest

datatype (plugins only: code) Punctuation =
    LParen | RParen | LBracket | LBrace | RBrace | RBracket
  | Comma | Semicolon | Colon | ColonColon | Dot | DotDot | DotDotDot
  | Arrow | FatArrow | At | Hash | HashBang
  | Plus | Minus | Star | Slash | Percent
  | Equal | EqualEqual | BangEqual | Less | LessEqual | Greater | GreaterEqual
  | Ampersand | Pipe | Caret | Tilde | ShiftLeft | ShiftRight
  | PlusEqual | MinusEqual | StarEqual | SlashEqual | PercentEqual
  | AmpersandEqual | PipeEqual | CaretEqual
  | Question | Underscore
  | Apostrophe

datatype TokenKind =
    Eof | Invalid | Newline
  | IntLiteral | FloatLiteral | StringLiteral | CharLiteral | BoolLiteral
  | Identifier
  | Kw Keyword
  | Op Punctuation

text \<open>
  The anonymous union \<^verbatim>\<open>{ int64_t intValue; double floatValue; }\<close> of a token. A
  floating-point value is kept as the literal text handed to \<^verbatim>\<open>std::stod\<close>.
\<close>

datatype TokenValue = IntValue "64 word" | FloatValue string

record Token =
  kind :: TokenKind
  tokenText :: string
  location :: SourceLocation
  numValue :: TokenValue

text \<open>A default-constructed token; its union is not initialised in the source.\<close>

definition Token_default :: Token where
  "Token_default =
     \<lparr>kind = Eof, tokenText = [], location = SourceLocation_default, numValue = IntValue 0\<rparr>"

section \<open>Lexer\<close>

subsection \<open>Characters and the C library\<close>

text \<open>
  The classification functions of \<^verbatim>\<open><cctype>\<close> in the C locale, on bytes.
\<close>

definition isdigit :: "char \<Rightarrow> bool" where
  "isdigit c = (let n = of_char c :: nat in 48 \<le> n \<and> n \<le> 57)"

definition isalpha :: "char \<Rightarrow> bool" where
  "isalpha c = (let n = of_char c :: nat in (65 \<le> n \<and> n \<le> 90) \<or> (97 \<le> n \<and> n \<le> 122))"

definition isalnum :: "char \<Rightarrow> bool" where
  "isalnum c = (isalpha c \<or> isdigit c)"

definition isxdigit :: "char \<Rightarrow> bool" where
  "isxdigit c =
     (let n = of_char c :: nat
      in (48 \<le> n \<and> n \<le> 57) \<or> (65 \<le> n \<and> n \<le> 70) \<or> (97 \<le> n \<and> n \<le> 102))"

text \<open>
  Exceptions that escape the lexer: \<^verbatim>\<open>std::invalid_argument\<close> and \<^verbatim>\<open>std::out_of_range\<close>,
  thrown by \<^verbatim>\<open>std::stoll\<close> and \<^verbatim>\<open>std::stod\<close>. Nothing in the lexer catches them.
\<close>

datatype exception = InvalidArgument | OutOfRange

definition digitValue :: "char \<Rightarrow> nat" where
  "digitValue c =
     (let n = of_char c :: nat
      in if 48 \<le> n \<and> n \<le> 57 then n - 48
         else if 97 \<le> n \<and> n \<le> 122 then n - 87
         else if 65 \<le> n \<and> n \<le> 90 then n - 55
         else 36)"

text \<open>
  \<^verbatim>\<open>std::stoll(str, nullptr, base)\<close>: converts the longest prefix of digits of the base,
  throws \<^verbatim>\<open>std::invalid_argument\<close> when there is no digit to convert and
  \<^verbatim>\<open>std::out_of_range\<close> when the value exceeds \<^verbatim>\<open>LLONG_MAX\<close>. The lexer only passes
  strings made of digits, so white space, signs and the \<^verbatim>\<open>0x\<close> prefix that \<^verbatim>\<open>strtoll\<close>
  would also skip do not occur.
\<close>

definition stoll :: "string \<Rightarrow> nat \<Rightarrow> exception + 64 word" where
  "stoll str base =
     (let ds = takeWhile (\<lambda>c. digitValue c < base) str
      in if ds = [] then Inl InvalidArgument
         else let v = foldl (\<lambda>acc c. acc * int base + int (digitValue c)) 0 ds
              in if v > 2 ^ 63 - 1 then Inl OutOfRange else Inr (word_of_int v))"

subsection \<open>State\<close>

text \<open>
  The members of \<^verbatim>\<open>class Lexer\<close> (Lexer/Lexer.h); a member \<^verbatim>\<open>x_\<close> of the source is the field
  \<open>l_x\<close>. The reference member \<^verbatim>\<open>diag_\<close> points
  to an engine owned by the caller; the functions that emit take the engine as an
  argument and return it.
\<close>

record Lexer =
  l_source :: string
  l_filename :: string
  l_current :: nat
  l_tokenStart :: nat
  l_line :: nat
  l_column :: nat
  l_tokenLine :: nat
  l_tokenColumn :: nat
  l_hasPeeked :: bool
  l_peekedToken :: Token

definition Lexer_init :: "string \<Rightarrow> string \<Rightarrow> Lexer" where
  "Lexer_init source fname =
     \<lparr>l_source = source, l_filename = fname, l_current = 0, l_tokenStart = 0,
      l_line = 1, l_column = 1, l_tokenLine = 1, l_tokenColumn = 1,
      l_hasPeeked = False, l_peekedToken = Token_default\<rparr>"

text \<open>\<^verbatim>\<open>struct Lexer::State\<close>, the snapshot taken by \<^verbatim>\<open>saveState\<close>; its field \<^verbatim>\<open>x\<close> is
  \<open>s_x\<close> here.\<close>

record State =
  s_current :: nat
  s_tokenStart :: nat
  s_line :: nat
  s_column :: nat
  s_tokenLine :: nat
  s_tokenColumn :: nat
  s_hasPeeked :: bool
  s_peekedToken :: Token

definition saveState :: "Lexer \<Rightarrow> State" where
  "saveState L =
     \<lparr>s_current = l_current L, s_tokenStart = l_tokenStart L, s_line = l_line L,
      s_column = l_column L, s_tokenLine = l_tokenLine L, s_tokenColumn = l_tokenColumn L,
      s_hasPeeked = l_hasPeeked L, s_peekedToken = l_peekedToken L\<rparr>"

definition restoreState :: "State \<Rightarrow> Lexer \<Rightarrow> Lexer" where
  "restoreState s L =
     L\<lparr>l_current := s_current s, l_tokenStart := s_tokenStart s, l_line := s_line s,
       l_column := s_column s, l_tokenLine := s_tokenLine s, l_tokenColumn := s_tokenColumn s,
       l_hasPeeked := s_hasPeeked s, l_peekedToken := s_peekedToken s\<rparr>"

subsection \<open>Character inspection\<close>

definition isAtEnd :: "Lexer \<Rightarrow> bool" where
  "isAtEnd L = (l_current L \<ge> length (l_source L))"

definition peek :: "Lexer \<Rightarrow> char" where
  "peek L = (if isAtEnd L then CHR 0x00 else l_source L ! l_current L)"

definition peekNext :: "Lexer \<Rightarrow> char" where
  "peekNext L =
     (if l_current L + 1 \<ge> length (l_source L) then CHR 0x00 else l_source L ! (l_current L + 1))"

text \<open>
  \<^verbatim>\<open>advance\<close> returns \<^verbatim>\<open>source_[current_]\<close> and moves on. Only \<^verbatim>\<open>nextToken\<close> uses the
  returned character, so the model splits the two: \<open>advance\<close> is the new state, and
  \<open>nextToken\<close> reads the character itself. No call of the source is made at the end of
  the buffer.
\<close>

definition advance :: "Lexer \<Rightarrow> Lexer" where
  "advance L =
     (let c = l_source L ! l_current L; L1 = L\<lparr>l_current := l_current L + 1\<rparr>
      in if c = CHR 0x0A then L1\<lparr>l_line := l_line L + 1, l_column := 1\<rparr>
         else L1\<lparr>l_column := l_column L + 1\<rparr>)"

definition match :: "char \<Rightarrow> Lexer \<Rightarrow> bool \<times> Lexer" where
  "match expected L =
     (if isAtEnd L \<or> l_source L ! l_current L \<noteq> expected then (False, L)
      else (True, advance L))"

subsection \<open>Loops that only advance\<close>

text \<open>
  Seven loops of the source have the shape
  \<^verbatim>\<open>while (!isAtEnd() && P(peek())) advance();\<close>
  (in \<^verbatim>\<open>skipLineComment\<close>, \<^verbatim>\<open>lexIdentifierOrKeyword\<close>, \<^verbatim>\<open>lexNumber\<close>, \<^verbatim>\<open>lexAnnotation\<close>
  and the lifetime branch of \<^verbatim>\<open>nextToken\<close>); \<open>advanceWhile P\<close> is that loop. It stops at
  the end of the buffer at the latest.
\<close>

function advanceWhile :: "(char \<Rightarrow> bool) \<Rightarrow> Lexer \<Rightarrow> Lexer" where
  "advanceWhile P L = (if \<not> isAtEnd L \<and> P (peek L) then advanceWhile P (advance L) else L)"
  by pat_completeness auto
termination
  by (relation "measure (\<lambda>(P, L). length (l_source L) - l_current L)")
     (auto simp: isAtEnd_def advance_def Let_def)

declare advanceWhile.simps [simp del]

definition skipLineComment :: "Lexer \<Rightarrow> Lexer" where
  "skipLineComment L = advanceWhile (\<lambda>c. c \<noteq> CHR 0x0A) (advance (advance L))"

text \<open>
  The loop of \<^verbatim>\<open>skipBlockComment\<close>, with the nesting depth as its second variable.
\<close>

function skipBlockComment_loop :: "int \<Rightarrow> Lexer \<Rightarrow> int \<times> Lexer" where
  "skipBlockComment_loop depth L =
     (if \<not> isAtEnd L \<and> depth > 0 then
        (if peek L = CHR ''/'' \<and> peekNext L = CHR ''*'' then
           skipBlockComment_loop (depth + 1) (advance (advance L))
         else if peek L = CHR ''*'' \<and> peekNext L = CHR ''/'' then
           skipBlockComment_loop (depth - 1) (advance (advance L))
         else skipBlockComment_loop depth (advance L))
      else (depth, L))"
  by pat_completeness auto
termination
  by (relation "measure (\<lambda>(d, L). length (l_source L) - l_current L)")
     (auto simp: isAtEnd_def advance_def Let_def)

declare skipBlockComment_loop.simps [simp del]

definition skipBlockComment :: "Lexer \<Rightarrow> DiagnosticEngine \<Rightarrow> bool \<times> Lexer \<times> DiagnosticEngine" where
  "skipBlockComment L D =
     (case skipBlockComment_loop 1 (advance (advance L)) of
        (depth, L1) \<Rightarrow>
          if depth > 0 then
            (let loc = SourceLocation_default
                         \<lparr>filename := l_filename L1, line := l_line L1, column := l_column L1\<rparr>
             in (False, L1, emitError loc ''unterminated block comment'' D))
          else (True, L1, D))"

lemma l_source_advance [simp]: "l_source (advance L) = l_source L"
  by (simp add: advance_def Let_def)

lemma l_current_advance [simp]: "l_current (advance L) = l_current L + 1"
  by (simp add: advance_def Let_def)

lemma advanceWhile_stop: "isAtEnd L \<or> \<not> P (peek L) \<Longrightarrow> advanceWhile P L = L"
  by (subst advanceWhile.simps) auto

lemma advanceWhile_step:
  "\<not> isAtEnd L \<Longrightarrow> P (peek L) \<Longrightarrow> advanceWhile P L = advanceWhile P (advance L)"
  by (subst advanceWhile.simps) auto

lemma l_source_advanceWhile [simp]: "l_source (advanceWhile P L) = l_source L"
proof (induction P L rule: advanceWhile.induct)
  case (1 P L)
  show ?case
  proof (cases "\<not> isAtEnd L \<and> P (peek L)")
    case True
    with 1 show ?thesis by (simp add: advanceWhile_step)
  next
    case False
    then show ?thesis by (simp add: advanceWhile_stop)
  qed
qed

lemma l_current_advanceWhile: "l_current L \<le> l_current (advanceWhile P L)"
proof (induction P L rule: advanceWhile.induct)
  case (1 P L)
  show ?case
  proof (cases "\<not> isAtEnd L \<and> P (peek L)")
    case True
    with 1 have "l_current (advance L) \<le> l_current (advanceWhile P (advance L))" by simp
    with True show ?thesis by (simp add: advanceWhile_step)
  next
    case False
    then show ?thesis by (simp add: advanceWhile_stop)
  qed
qed

lemma skipBlockComment_loop_stop:
  "isAtEnd L \<or> \<not> depth > 0 \<Longrightarrow> skipBlockComment_loop depth L = (depth, L)"
  by (subst skipBlockComment_loop.simps) auto

lemma skipBlockComment_loop_open:
  "\<not> isAtEnd L \<Longrightarrow> depth > 0 \<Longrightarrow> peek L = CHR ''/'' \<Longrightarrow> peekNext L = CHR ''*'' \<Longrightarrow>
   skipBlockComment_loop depth L = skipBlockComment_loop (depth + 1) (advance (advance L))"
  by (subst skipBlockComment_loop.simps) auto

lemma skipBlockComment_loop_close:
  "\<not> isAtEnd L \<Longrightarrow> depth > 0 \<Longrightarrow> peek L = CHR ''*'' \<Longrightarrow> peekNext L = CHR ''/'' \<Longrightarrow>
   skipBlockComment_loop depth L = skipBlockComment_loop (depth - 1) (advance (advance L))"
  by (subst skipBlockComment_loop.simps) auto

lemma skipBlockComment_loop_other:
  "\<not> isAtEnd L \<Longrightarrow> depth > 0 \<Longrightarrow> \<not> (peek L = CHR ''/'' \<and> peekNext L = CHR ''*'') \<Longrightarrow>
   \<not> (peek L = CHR ''*'' \<and> peekNext L = CHR ''/'') \<Longrightarrow>
   skipBlockComment_loop depth L = skipBlockComment_loop depth (advance L)"
  by (subst skipBlockComment_loop.simps) auto

lemma skipBlockComment_loop_mono:
  "l_source (snd (skipBlockComment_loop d L)) = l_source L \<and>
   l_current L \<le> l_current (snd (skipBlockComment_loop d L))"
proof (induction d L rule: skipBlockComment_loop.induct)
  case (1 depth L)
  show ?case
  proof (cases "\<not> isAtEnd L \<and> depth > 0")
    case False
    then show ?thesis by (simp add: skipBlockComment_loop_stop)
  next
    case True
    consider (opens) "peek L = CHR ''/'' \<and> peekNext L = CHR ''*''"
      | (closes) "\<not> (peek L = CHR ''/'' \<and> peekNext L = CHR ''*'')"
                 "peek L = CHR ''*'' \<and> peekNext L = CHR ''/''"
      | (other) "\<not> (peek L = CHR ''/'' \<and> peekNext L = CHR ''*'')"
                "\<not> (peek L = CHR ''*'' \<and> peekNext L = CHR ''/'')"
      by blast
    then show ?thesis
    proof cases
      case opens
      with True 1(1) have
        "l_source (snd (skipBlockComment_loop (depth + 1) (advance (advance L)))) = l_source L"
        "l_current (advance (advance L))
           \<le> l_current (snd (skipBlockComment_loop (depth + 1) (advance (advance L))))"
        by simp_all
      with True opens show ?thesis by (simp add: skipBlockComment_loop_open)
    next
      case closes
      with True 1(2) have
        "l_source (snd (skipBlockComment_loop (depth - 1) (advance (advance L)))) = l_source L"
        "l_current (advance (advance L))
           \<le> l_current (snd (skipBlockComment_loop (depth - 1) (advance (advance L))))"
        by simp_all
      with True closes show ?thesis by (simp add: skipBlockComment_loop_close)
    next
      case other
      with True 1(3) have
        "l_source (snd (skipBlockComment_loop depth (advance L))) = l_source L"
        "l_current (advance L) \<le> l_current (snd (skipBlockComment_loop depth (advance L)))"
        by simp_all
      with True other show ?thesis by (simp add: skipBlockComment_loop_other)
    qed
  qed
qed

lemma skipLineComment_progress:
  "l_source (skipLineComment L) = l_source L \<and> l_current L < l_current (skipLineComment L)"
  using l_current_advanceWhile [of "advance (advance L)" "\<lambda>c. c \<noteq> CHR 0x0A"]
  by (simp add: skipLineComment_def)

lemma skipBlockComment_progress:
  assumes "skipBlockComment L D = (ok, L1, D1)"
  shows "l_source L1 = l_source L \<and> l_current L < l_current L1"
proof -
  obtain d L' where loop: "skipBlockComment_loop 1 (advance (advance L)) = (d, L')"
    by (cases "skipBlockComment_loop 1 (advance (advance L))")
  from assms loop have "L1 = L'"
    by (auto simp: skipBlockComment_def Let_def split: if_splits)
  moreover from loop have "l_source L' = l_source L" "l_current L < l_current L'"
    using skipBlockComment_loop_mono [of 1 "advance (advance L)"] by simp_all
  ultimately show ?thesis by simp
qed

text \<open>\<^verbatim>\<open>skipWhitespace\<close>: the \<^verbatim>\<open>while\<close> loop with its \<^verbatim>\<open>switch\<close>; a \<^verbatim>\<open>return\<close> ends the recursion.\<close>

function skipWhitespace :: "Lexer \<Rightarrow> DiagnosticEngine \<Rightarrow> Lexer \<times> DiagnosticEngine" where
  "skipWhitespace L D =
     (if \<not> isAtEnd L then
        (let c = peek L
         in if c = CHR '' '' \<or> c = CHR 0x09 \<or> c = CHR 0x0D \<or> c = CHR 0x0A then
              skipWhitespace (advance L) D
            else if c = CHR ''/'' then
              (if peekNext L = CHR ''/'' then skipWhitespace (skipLineComment L) D
               else if peekNext L = CHR ''*'' then
                 (case skipBlockComment L D of
                    (ok, L1, D1) \<Rightarrow> if \<not> ok then (L1, D1) else skipWhitespace L1 D1)
               else (L, D))
            else (L, D))
      else (L, D))"
  by pat_completeness auto
termination
proof (relation "measure (\<lambda>(L, D). length (l_source L) - l_current L)", goal_cases)
  case 1
  show ?case by simp
next
  case (2 L D c)
  then show ?case by (simp add: isAtEnd_def)
next
  case (3 L D c)
  have "l_source (skipLineComment L) = l_source L" "l_current L < l_current (skipLineComment L)"
    using skipLineComment_progress [of L] by simp_all
  moreover from 3 have "l_current L < length (l_source L)" by (simp add: isAtEnd_def)
  ultimately show ?case by simp
next
  case (4 L D c ok y L1 D1)
  then have "skipBlockComment L D = (ok, L1, D1)" by simp
  from skipBlockComment_progress [OF this]
  have "l_source L1 = l_source L" "l_current L < l_current L1" by simp_all
  moreover from 4 have "l_current L < length (l_source L)" by (simp add: isAtEnd_def)
  ultimately show ?case by simp
qed

declare skipWhitespace.simps [simp del]

subsection \<open>Token producers\<close>

definition substr :: "string \<Rightarrow> nat \<Rightarrow> nat \<Rightarrow> string" where
  "substr s pos n = take n (drop pos s)"

definition makeToken :: "TokenKind \<Rightarrow> Lexer \<Rightarrow> Token" where
  "makeToken k L =
     \<lparr>kind = k,
      tokenText = substr (l_source L) (l_tokenStart L) (l_current L - l_tokenStart L),
      location = \<lparr>filename = l_filename L, line = l_tokenLine L,
                  column = l_tokenColumn L, offset = l_tokenStart L\<rparr>,
      numValue = IntValue 0\<rparr>"

text \<open>The overload \<^verbatim>\<open>makeToken(kind, text)\<close>.\<close>

definition makeToken_text :: "TokenKind \<Rightarrow> string \<Rightarrow> Lexer \<Rightarrow> Token" where
  "makeToken_text k txt L =
     \<lparr>kind = k, tokenText = txt,
      location = \<lparr>filename = l_filename L, line = l_tokenLine L,
                  column = l_tokenColumn L, offset = l_tokenStart L\<rparr>,
      numValue = IntValue 0\<rparr>"

definition errorToken :: "string \<Rightarrow> Lexer \<Rightarrow> DiagnosticEngine \<Rightarrow> Token \<times> DiagnosticEngine" where
  "errorToken msg L D =
     (let loc = \<lparr>filename = l_filename L, line = l_tokenLine L,
                 column = l_tokenColumn L, offset = l_tokenStart L\<rparr>
      in (\<lparr>kind = Invalid,
           tokenText = substr (l_source L) (l_tokenStart L) (l_current L - l_tokenStart L),
           location = loc, numValue = IntValue 0\<rparr>,
          emitError loc msg D))"

text \<open>The static table \<^verbatim>\<open>keywords\<close> of Lexer.cpp.\<close>

definition keywordTable :: "(string \<times> TokenKind) list" where
  "keywordTable =
     [(''module'', Kw KwModule), (''import'', Kw KwImport), (''func'', Kw KwFunc),
      (''let'', Kw KwLet), (''mut'', Kw KwMut), (''const'', Kw KwConst),
      (''struct'', Kw KwStruct), (''class'', Kw KwClass), (''enum'', Kw KwEnum),
      (''trait'', Kw KwTrait), (''impl'', Kw KwImpl), (''type'', Kw KwType),
      (''self'', Kw KwSelf), (''Self'', Kw KwSelfType), (''if'', Kw KwIf),
      (''else'', Kw KwElse), (''match'', Kw KwMatch), (''for'', Kw KwFor),
      (''while'', Kw KwWhile), (''loop'', Kw KwLoop), (''break'', Kw KwBreak),
      (''continue'', Kw KwContinue), (''return'', Kw KwReturn), (''in'', Kw KwIn),
      (''move'', Kw KwMove), (''ref'', Kw KwRef), (''drop'', Kw KwDrop),
      (''async'', Kw KwAsync), (''await'', Kw KwAwait), (''spawn'', Kw KwSpawn),
      (''unsafe'', Kw KwUnsafe), (''pub'', Kw KwPub), (''public'', Kw KwPublic),
      (''private'', Kw KwPrivate), (''true'', Kw KwTrue), (''false'', Kw KwFalse),
      (''and'', Kw KwAnd), (''or'', Kw KwOr), (''not'', Kw KwNot), (''as'', Kw KwAs),
      (''is'', Kw KwIs), (''where'', Kw KwWhere), (''use'', Kw KwUse),
      (''Void'', Kw KwVoid), (''panic'', Kw KwPanic), (''assert'', Kw KwAssert)]"

definition identifierKind :: "string \<Rightarrow> TokenKind" where
  "identifierKind txt = (case map_of keywordTable txt of Some k \<Rightarrow> k | None \<Rightarrow> Identifier)"

definition isIdentChar :: "char \<Rightarrow> bool" where
  "isIdentChar c = (isalnum c \<or> c = CHR ''_'')"

definition lexIdentifierOrKeyword :: "Lexer \<Rightarrow> Token \<times> Lexer" where
  "lexIdentifierOrKeyword L =
     (let L1 = advanceWhile isIdentChar L;
          txt = substr (l_source L1) (l_tokenStart L1) (l_current L1 - l_tokenStart L1)
      in (makeToken_text (identifierKind txt) txt L1, L1))"

text \<open>
  \<open>returnToken k\<close> is \<^verbatim>\<open>return makeToken(k);\<close> and \<open>returnError msg\<close> is
  \<^verbatim>\<open>return errorToken(msg);\<close>, each with the state in which the function returns.
\<close>

definition returnToken :: "TokenKind \<Rightarrow> Lexer \<Rightarrow> DiagnosticEngine \<Rightarrow> Token \<times> Lexer \<times> DiagnosticEngine" where
  "returnToken k L D = (makeToken k L, L, D)"

definition returnError :: "string \<Rightarrow> Lexer \<Rightarrow> DiagnosticEngine \<Rightarrow> Token \<times> Lexer \<times> DiagnosticEngine" where
  "returnError msg L D = (case errorToken msg L D of (t, D1) \<Rightarrow> (t, L, D1))"

subsection \<open>Numbers\<close>

text \<open>
  The copy loops of \<^verbatim>\<open>lexNumber\<close> that build \<^verbatim>\<open>clean\<close>: the token text from index \<open>i\<close> on,
  without underscores.
\<close>

definition cleanText :: "nat \<Rightarrow> string \<Rightarrow> string" where
  "cleanText i txt = filter (\<lambda>c. c \<noteq> CHR ''_'') (drop i txt)"

text \<open>
  The block that ends each integer branch of \<^verbatim>\<open>lexNumber\<close>:
  \<^verbatim>\<open>Token token = makeToken(IntLiteral); ...; token.intValue = std::stoll(clean, nullptr, base);\<close>
  An exception of \<^verbatim>\<open>std::stoll\<close> leaves \<^verbatim>\<open>lexNumber\<close>, and \<^verbatim>\<open>nextToken\<close>, uncaught.
\<close>

definition intLiteral ::
  "nat \<Rightarrow> nat \<Rightarrow> Lexer \<Rightarrow> DiagnosticEngine \<Rightarrow> exception + (Token \<times> Lexer \<times> DiagnosticEngine)" where
  "intLiteral skip base L D =
     (let token = makeToken IntLiteral L
      in case stoll (cleanText skip (tokenText token)) base of
           Inl e \<Rightarrow> Inl e
         | Inr v \<Rightarrow> Inr (token\<lparr>numValue := IntValue v\<rparr>, L, D))"

text \<open>
  \<^verbatim>\<open>std::stod\<close> throws \<^verbatim>\<open>std::out_of_range\<close> when the C library reports a range error for
  the literal. Which literals those are is decided by the C library's \<^verbatim>\<open>strtod\<close>, not by
  this repository, so it is the parameter \<open>stod_range_error\<close> of the lexer. The text
  always starts with a digit, so \<^verbatim>\<open>std::invalid_argument\<close> cannot occur.
\<close>

definition floatLiteral ::
  "(string \<Rightarrow> bool) \<Rightarrow> Lexer \<Rightarrow> DiagnosticEngine \<Rightarrow> exception + (Token \<times> Lexer \<times> DiagnosticEngine)" where
  "floatLiteral stod_range_error L D =
     (let token = makeToken FloatLiteral L; clean = cleanText 0 (tokenText token)
      in if stod_range_error clean then Inl OutOfRange
         else Inr (token\<lparr>numValue := FloatValue clean\<rparr>, L, D))"

text \<open>The conditions of the four digit loops of \<^verbatim>\<open>lexNumber\<close>.\<close>

definition isDecimalChar :: "char \<Rightarrow> bool" where
  "isDecimalChar c = (isdigit c \<or> c = CHR ''_'')"

definition isHexChar :: "char \<Rightarrow> bool" where
  "isHexChar c = (isxdigit c \<or> c = CHR ''_'')"

definition isBinaryChar :: "char \<Rightarrow> bool" where
  "isBinaryChar c = (c = CHR ''0'' \<or> c = CHR ''1'' \<or> c = CHR ''_'')"

definition isOctalChar :: "char \<Rightarrow> bool" where
  "isOctalChar c = ((let n = of_char c :: nat in 48 \<le> n \<and> n \<le> 55) \<or> c = CHR ''_'')"

text \<open>The part of \<^verbatim>\<open>lexNumber\<close> after the prefix test: decimal integer or float.\<close>

definition lexDecimal ::
  "(string \<Rightarrow> bool) \<Rightarrow> Lexer \<Rightarrow> DiagnosticEngine \<Rightarrow> exception + (Token \<times> Lexer \<times> DiagnosticEngine)" where
  "lexDecimal stod_range_error L D =
     (let L1 = advanceWhile isDecimalChar L;
          hasPoint = (peek L1 = CHR ''.'' \<and> peekNext L1 \<noteq> CHR ''.'');
          L2 = (if hasPoint then advanceWhile isDecimalChar (advance L1) else L1)
      in if peek L2 = CHR ''e'' \<or> peek L2 = CHR ''E'' then
           (let L3 = advance L2;
                L4 = (if peek L3 = CHR ''+'' \<or> peek L3 = CHR ''-'' then advance L3 else L3)
            in if \<not> isdigit (peek L4) then Inr (returnError ''expected digit in exponent'' L4 D)
               else floatLiteral stod_range_error (advanceWhile isDecimalChar L4) D)
         else if hasPoint then floatLiteral stod_range_error L2 D
         else intLiteral 0 10 L2 D)"

definition lexNumber ::
  "(string \<Rightarrow> bool) \<Rightarrow> Lexer \<Rightarrow> DiagnosticEngine \<Rightarrow> exception + (Token \<times> Lexer \<times> DiagnosticEngine)" where
  "lexNumber stod_range_error L D =
     (let next = peekNext L
      in if peek L = CHR ''0'' \<and> \<not> isAtEnd L \<and> (next = CHR ''x'' \<or> next = CHR ''X'') then
           (let L1 = advance (advance L)
            in if \<not> isAtEnd L1 \<and> \<not> isxdigit (peek L1) then
                 Inr (returnError (''expected hexadecimal digit after '' @ [CHR 0x27] @ ''0x'' @ [CHR 0x27]) L1 D)
               else intLiteral 2 16 (advanceWhile isHexChar L1) D)
         else if peek L = CHR ''0'' \<and> \<not> isAtEnd L \<and> (next = CHR ''b'' \<or> next = CHR ''B'') then
           (let L1 = advance (advance L)
            in if \<not> isAtEnd L1 \<and> peek L1 \<noteq> CHR ''0'' \<and> peek L1 \<noteq> CHR ''1'' then
                 Inr (returnError (''expected binary digit after '' @ [CHR 0x27] @ ''0b'' @ [CHR 0x27]) L1 D)
               else intLiteral 2 2 (advanceWhile isBinaryChar L1) D)
         else if peek L = CHR ''0'' \<and> \<not> isAtEnd L \<and> (next = CHR ''o'' \<or> next = CHR ''O'') then
           intLiteral 2 8 (advanceWhile isOctalChar (advance (advance L))) D
         else lexDecimal stod_range_error L D)"

subsection \<open>Strings, characters, annotations\<close>

text \<open>
  The loop of \<^verbatim>\<open>lexString\<close>. It leaves either at its condition (\<open>None\<close>) or through one of
  the two \<^verbatim>\<open>return errorToken(...)\<close> inside it (\<open>Some\<close> of the message), in the state
  reached.
\<close>

function lexString_loop :: "Lexer \<Rightarrow> string option \<times> Lexer" where
  "lexString_loop L =
     (if \<not> isAtEnd L \<and> peek L \<noteq> CHR 0x22 then
        (if peek L = CHR 0x5C then
           (let L1 = advance L
            in if isAtEnd L1 then (Some ''unterminated string literal'', L1)
               else lexString_loop (advance L1))
         else if peek L = CHR 0x0A then
           (Some ''unterminated string literal (newline in string)'', L)
         else lexString_loop (advance L))
      else (None, L))"
  by pat_completeness auto
termination
  by (relation "measure (\<lambda>L. length (l_source L) - l_current L)")
     (auto simp: isAtEnd_def)

declare lexString_loop.simps [simp del]

definition lexString :: "Lexer \<Rightarrow> DiagnosticEngine \<Rightarrow> Token \<times> Lexer \<times> DiagnosticEngine" where
  "lexString L D =
     (let L1 = advance L; contentStart = l_current L1
      in case lexString_loop L1 of
           (Some msg, L2) \<Rightarrow> returnError msg L2 D
         | (None, L2) \<Rightarrow>
             if isAtEnd L2 then returnError ''unterminated string literal'' L2 D
             else (let contentEnd = l_current L2; L3 = advance L2;
                       token = makeToken StringLiteral L3
                   in (token\<lparr>tokenText := substr (l_source L3) contentStart (contentEnd - contentStart)\<rparr>,
                       L3, D)))"

definition lexChar :: "Lexer \<Rightarrow> DiagnosticEngine \<Rightarrow> Token \<times> Lexer \<times> DiagnosticEngine" where
  "lexChar L D =
     (let L1 = advance L
      in if isAtEnd L1 then returnError ''unterminated character literal'' L1 D
         else if peek L1 = CHR 0x5C \<and> isAtEnd (advance L1) then
           returnError ''unterminated character literal'' (advance L1) D
         else
           (let L2 = (if peek L1 = CHR 0x5C then advance (advance L1) else advance L1)
            in if isAtEnd L2 \<or> peek L2 \<noteq> CHR 0x27 then
                 returnError (''unterminated character literal (expected closing '' @ [CHR 0x27] @ '')'') L2 D
               else returnToken CharLiteral (advance L2) D))"

definition lexAnnotation :: "Lexer \<Rightarrow> DiagnosticEngine \<Rightarrow> Token \<times> Lexer \<times> DiagnosticEngine" where
  "lexAnnotation L D =
     (let L1 = advance L; nameStart = l_current L1;
          L2 = advanceWhile isIdentChar L1;
          name = substr (l_source L2) nameStart (l_current L2 - nameStart)
      in if name = ''doc'' then returnToken (Kw KwDoc) L2 D
         else if name = ''deprecated'' then returnToken (Kw KwDeprecated) L2 D
         else if name = ''test'' then returnToken (Kw KwTest) L2 D
         else returnToken (Op At)
                (L2\<lparr>l_current := nameStart, l_line := l_tokenLine L2,
                    l_column := l_tokenColumn L2 + 1\<rparr>) D)"

subsection \<open>nextToken\<close>

text \<open>
  The \<^verbatim>\<open>switch (c)\<close> at the end of \<^verbatim>\<open>nextToken\<close> with the \<^verbatim>\<open>errorToken\<close> that follows it;
  \<open>L\<close> is the state after \<open>c\<close> has been consumed.
\<close>

definition lexOperator :: "char \<Rightarrow> Lexer \<Rightarrow> DiagnosticEngine \<Rightarrow> Token \<times> Lexer \<times> DiagnosticEngine" where
  "lexOperator c L D =
     (if c = CHR ''('' then returnToken (Op LParen) L D
      else if c = CHR '')'' then returnToken (Op RParen) L D
      else if c = CHR ''['' then returnToken (Op LBracket) L D
      else if c = CHR '']'' then returnToken (Op RBracket) L D
      else if c = CHR ''{'' then returnToken (Op LBrace) L D
      else if c = CHR ''}'' then returnToken (Op RBrace) L D
      else if c = CHR '','' then returnToken (Op Comma) L D
      else if c = CHR '';'' then returnToken (Op Semicolon) L D
      else if c = CHR ''~'' then returnToken (Op Tilde) L D
      else if c = CHR ''?'' then returnToken (Op Question) L D
      else if c = CHR '':'' then
        (let (m, L1) = match (CHR '':'') L
         in if m then returnToken (Op ColonColon) L1 D else returnToken (Op Colon) L1 D)
      else if c = CHR ''.'' then
        (let (m, L1) = match (CHR ''.'') L
         in if m then
              (let (m2, L2) = match (CHR ''.'') L1
               in if m2 then returnToken (Op DotDotDot) L2 D else returnToken (Op DotDot) L2 D)
            else returnToken (Op Dot) L1 D)
      else if c = CHR ''+'' then
        (let (m, L1) = match (CHR ''='') L
         in if m then returnToken (Op PlusEqual) L1 D else returnToken (Op Plus) L1 D)
      else if c = CHR ''-'' then
        (let (m, L1) = match (CHR ''>'') L
         in if m then returnToken (Op Arrow) L1 D
            else (let (m2, L2) = match (CHR ''='') L1
                  in if m2 then returnToken (Op MinusEqual) L2 D else returnToken (Op Minus) L2 D))
      else if c = CHR ''*'' then
        (let (m, L1) = match (CHR ''='') L
         in if m then returnToken (Op StarEqual) L1 D else returnToken (Op Star) L1 D)
      else if c = CHR ''/'' then
        (let (m, L1) = match (CHR ''='') L
         in if m then returnToken (Op SlashEqual) L1 D else returnToken (Op Slash) L1 D)
      else if c = CHR ''%'' then
        (let (m, L1) = match (CHR ''='') L
         in if m then returnToken (Op PercentEqual) L1 D else returnToken (Op Percent) L1 D)
      else if c = CHR ''='' then
        (let (m, L1) = match (CHR ''='') L
         in if m then returnToken (Op EqualEqual) L1 D
            else (let (m2, L2) = match (CHR ''>'') L1
                  in if m2 then returnToken (Op FatArrow) L2 D else returnToken (Op Equal) L2 D))
      else if c = CHR ''!'' then
        (let (m, L1) = match (CHR ''='') L
         in if m then returnToken (Op BangEqual) L1 D
            else returnError (''unexpected character '' @ [CHR 0x27] @ ''!'' @ [CHR 0x27]) L1 D)
      else if c = CHR ''<'' then
        (let (m, L1) = match (CHR ''='') L
         in if m then returnToken (Op LessEqual) L1 D
            else (let (m2, L2) = match (CHR ''<'') L1
                  in if m2 then returnToken (Op ShiftLeft) L2 D else returnToken (Op Less) L2 D))
      else if c = CHR ''>'' then
        (let (m, L1) = match (CHR ''='') L
         in if m then returnToken (Op GreaterEqual) L1 D
            else (let (m2, L2) = match (CHR ''>'') L1
                  in if m2 then returnToken (Op ShiftRight) L2 D else returnToken (Op Greater) L2 D))
      else if c = CHR ''&'' then
        (let (m, L1) = match (CHR ''='') L
         in if m then returnToken (Op AmpersandEqual) L1 D else returnToken (Op Ampersand) L1 D)
      else if c = CHR ''|'' then
        (let (m, L1) = match (CHR ''='') L
         in if m then returnToken (Op PipeEqual) L1 D else returnToken (Op Pipe) L1 D)
      else if c = CHR ''^'' then
        (let (m, L1) = match (CHR ''='') L
         in if m then returnToken (Op CaretEqual) L1 D else returnToken (Op Caret) L1 D)
      else if c = CHR ''#'' then
        (let (m, L1) = match (CHR ''!'') L
         in if m then returnToken (Op HashBang) L1 D else returnToken (Op Hash) L1 D)
      else returnError (''unexpected character '' @ [CHR 0x27] @ [c] @ [CHR 0x27]) L D)"

text \<open>\<^verbatim>\<open>--current_; --column_;\<close>, which precedes the calls of the sub-lexers.\<close>

definition backUp :: "Lexer \<Rightarrow> Lexer" where
  "backUp L = L\<lparr>l_current := l_current L - 1, l_column := l_column L - 1\<rparr>"

text \<open>
  The branch \<^verbatim>\<open>if (c == '\'')\<close> of \<^verbatim>\<open>nextToken\<close>: character literal or lifetime; \<open>L\<close> is the
  state after the apostrophe.
\<close>

definition lexApostrophe :: "Lexer \<Rightarrow> DiagnosticEngine \<Rightarrow> Token \<times> Lexer \<times> DiagnosticEngine" where
  "lexApostrophe L D =
     (if \<not> isAtEnd L \<and> isalpha (peek L) then
        (let L1 = advance L
         in if \<not> isAtEnd L1 \<and> peek L1 = CHR 0x27 then
              lexChar (backUp (L1\<lparr>l_current := l_current L, l_line := l_line L,
                                   l_column := l_column L\<rparr>)) D
            else returnToken (Op Apostrophe) (advanceWhile isIdentChar L1) D)
      else if \<not> isAtEnd L \<and> peek L = CHR 0x5C then lexChar (backUp L) D
      else returnToken (Op Apostrophe) L D)"

text \<open>
  The body of \<^verbatim>\<open>nextToken\<close> from the first test on the character \<open>c\<close> that
  \<^verbatim>\<open>char c = advance();\<close> has read; \<open>L\<close> is the state after that call.
\<close>

definition nextToken_dispatch ::
  "(string \<Rightarrow> bool) \<Rightarrow> char \<Rightarrow> Lexer \<Rightarrow> DiagnosticEngine \<Rightarrow>
   exception + (Token \<times> Lexer \<times> DiagnosticEngine)" where
  "nextToken_dispatch stod_range_error c L D =
     (if isalpha c \<or> c = CHR ''_'' then
        (if c = CHR ''_'' \<and> (isAtEnd L \<or> (\<not> isalnum (peek L) \<and> peek L \<noteq> CHR ''_'')) then
           Inr (returnToken (Op Underscore) L D)
         else (case lexIdentifierOrKeyword L of (t, L1) \<Rightarrow> Inr (t, L1, D)))
      else if isdigit c then
        lexNumber stod_range_error
          (if c = CHR 0x0A then L\<lparr>l_current := l_current L - 1, l_line := l_line L - 1\<rparr>
           else L\<lparr>l_current := l_current L - 1, l_column := l_column L - 1\<rparr>)
          D
      else if c = CHR 0x22 then Inr (lexString (backUp L) D)
      else if c = CHR 0x27 then Inr (lexApostrophe L D)
      else if c = CHR ''@'' then
        (if \<not> isAtEnd L \<and> isalpha (peek L) then Inr (lexAnnotation (backUp L) D)
         else Inr (returnToken (Op At) L D))
      else Inr (lexOperator c L D))"

definition nextToken ::
  "(string \<Rightarrow> bool) \<Rightarrow> Lexer \<Rightarrow> DiagnosticEngine \<Rightarrow> exception + (Token \<times> Lexer \<times> DiagnosticEngine)" where
  "nextToken stod_range_error L D =
     (if l_hasPeeked L then Inr (l_peekedToken L, L\<lparr>l_hasPeeked := False\<rparr>, D)
      else
        (case skipWhitespace L D of
           (L0, D0) \<Rightarrow>
             (let L1 = L0\<lparr>l_tokenStart := l_current L0, l_tokenLine := l_line L0,
                          l_tokenColumn := l_column L0\<rparr>
              in if isAtEnd L1 then Inr (returnToken Eof L1 D0)
                 else nextToken_dispatch stod_range_error
                        (l_source L1 ! l_current L1) (advance L1) D0)))"

definition peekToken ::
  "(string \<Rightarrow> bool) \<Rightarrow> Lexer \<Rightarrow> DiagnosticEngine \<Rightarrow> exception + (Token \<times> Lexer \<times> DiagnosticEngine)" where
  "peekToken stod_range_error L D =
     (if \<not> l_hasPeeked L then
        (case nextToken stod_range_error L D of
           Inl e \<Rightarrow> Inl e
         | Inr (t, L1, D1) \<Rightarrow> Inr (t, L1\<lparr>l_peekedToken := t, l_hasPeeked := True\<rparr>, D1))
      else Inr (l_peekedToken L, L, D))"

subsection \<open>What scanning changes\<close>

text \<open>
  \<open>scans L L'\<close>: the state \<open>L'\<close> differs from \<open>L\<close> at most in the scanning position, that
  is, in \<open>l_current\<close>, \<open>l_line\<close> and \<open>l_column\<close>.
\<close>

definition scans :: "Lexer \<Rightarrow> Lexer \<Rightarrow> bool" where
  "scans L L' =
     (L'\<lparr>l_current := 0, l_line := 0, l_column := 0\<rparr> =
      L\<lparr>l_current := 0, l_line := 0, l_column := 0\<rparr>)"

lemma Lexer_eqI:
  "l_source L = l_source L' \<Longrightarrow> l_filename L = l_filename L' \<Longrightarrow> l_current L = l_current L' \<Longrightarrow>
   l_tokenStart L = l_tokenStart L' \<Longrightarrow> l_line L = l_line L' \<Longrightarrow> l_column L = l_column L' \<Longrightarrow>
   l_tokenLine L = l_tokenLine L' \<Longrightarrow> l_tokenColumn L = l_tokenColumn L' \<Longrightarrow>
   l_hasPeeked L = l_hasPeeked L' \<Longrightarrow> l_peekedToken L = l_peekedToken L' \<Longrightarrow>
   L = (L' :: Lexer)"
  by simp

lemma scans_iff:
  "scans L L' \<longleftrightarrow>
     l_source L' = l_source L \<and> l_filename L' = l_filename L \<and>
     l_tokenStart L' = l_tokenStart L \<and> l_tokenLine L' = l_tokenLine L \<and>
     l_tokenColumn L' = l_tokenColumn L \<and> l_hasPeeked L' = l_hasPeeked L \<and>
     l_peekedToken L' = l_peekedToken L"
  unfolding scans_def
  by (cases L; cases L') auto

lemma scans_refl [simp]: "scans L L"
  by (simp add: scans_def)

lemma scans_trans: "scans L L1 \<Longrightarrow> scans L1 L2 \<Longrightarrow> scans L L2"
  by (simp add: scans_def)

lemma scans_advance [simp]: "scans L (advance L)"
  by (simp add: scans_iff advance_def Let_def)

lemma scans_advance_iff [simp]: "scans (advance L) L' = scans L L'"
  by (simp add: scans_iff advance_def Let_def)

lemma scans_advanceWhile [simp]: "scans L (advanceWhile P L)"
proof (induction P L rule: advanceWhile.induct)
  case (1 P L)
  show ?case
  proof (cases "\<not> isAtEnd L \<and> P (peek L)")
    case True
    with 1 show ?thesis by (simp add: advanceWhile_step)
  next
    case False
    then show ?thesis by (simp add: advanceWhile_stop)
  qed
qed

lemma scans_advance_right [simp]: "scans L (advance L1) = scans L L1"
  by (simp add: scans_iff advance_def Let_def)

lemma scans_advanceWhile_right [simp]: "scans L (advanceWhile P L1) = scans L L1"
  using scans_advanceWhile [of L1 P] by (auto simp: scans_iff)

lemma scans_current_trans:
  "scans L L1 \<and> l_current L \<le> l_current L1 \<Longrightarrow> scans L1 L2 \<and> l_current L1 \<le> l_current L2 \<Longrightarrow>
   scans L L2 \<and> l_current L \<le> l_current L2"
  using scans_trans by auto

lemma scans_skipBlockComment_loop [simp]: "scans L (snd (skipBlockComment_loop d L))"
proof (induction d L rule: skipBlockComment_loop.induct)
  case (1 depth L)
  show ?case
  proof (cases "\<not> isAtEnd L \<and> depth > 0")
    case False
    then show ?thesis by (simp add: skipBlockComment_loop_stop)
  next
    case True
    consider (opens) "peek L = CHR ''/'' \<and> peekNext L = CHR ''*''"
      | (closes) "\<not> (peek L = CHR ''/'' \<and> peekNext L = CHR ''*'')"
                 "peek L = CHR ''*'' \<and> peekNext L = CHR ''/''"
      | (other) "\<not> (peek L = CHR ''/'' \<and> peekNext L = CHR ''*'')"
                "\<not> (peek L = CHR ''*'' \<and> peekNext L = CHR ''/'')"
      by blast
    then show ?thesis
    proof cases
      case opens
      with True 1(1) show ?thesis by (simp add: skipBlockComment_loop_open)
    next
      case closes
      with True 1(2) show ?thesis by (simp add: skipBlockComment_loop_close)
    next
      case other
      with True 1(3) show ?thesis by (simp add: skipBlockComment_loop_other)
    qed
  qed
qed

lemma skipBlockComment_scans:
  assumes "skipBlockComment L D = (ok, L1, D1)"
  shows "scans L L1"
proof -
  obtain d L' where loop: "skipBlockComment_loop 1 (advance (advance L)) = (d, L')"
    by (cases "skipBlockComment_loop 1 (advance (advance L))")
  from assms loop have "L1 = L'"
    by (auto simp: skipBlockComment_def Let_def split: if_splits)
  moreover from loop have "scans L L'"
    using scans_skipBlockComment_loop [of "advance (advance L)" 1] by simp
  ultimately show ?thesis by simp
qed

lemma skipWhitespace_stop:
  "isAtEnd L \<Longrightarrow> skipWhitespace L D = (L, D)"
  by (subst skipWhitespace.simps) simp

lemma skipWhitespace_mono:
  "scans L (fst (skipWhitespace L D)) \<and> l_current L \<le> l_current (fst (skipWhitespace L D))"
proof (induction L D rule: skipWhitespace.induct)
  case (1 L D)
  let ?c = "peek L"
  show ?case
  proof (cases "isAtEnd L")
    case True
    then show ?thesis by (simp add: skipWhitespace_stop)
  next
    case notEnd: False
    show ?thesis
    proof (cases "?c = CHR '' '' \<or> ?c = CHR 0x09 \<or> ?c = CHR 0x0D \<or> ?c = CHR 0x0A")
      case True
      with notEnd have eq: "skipWhitespace L D = skipWhitespace (advance L) D"
        by (subst skipWhitespace.simps) (simp add: Let_def)
      from 1(1) [OF notEnd refl True]
      have "scans L (fst (skipWhitespace (advance L) D))"
        "l_current (advance L) \<le> l_current (fst (skipWhitespace (advance L) D))" by simp_all
      then show ?thesis unfolding eq by simp
    next
      case notSpace: False
      show ?thesis
      proof (cases "?c = CHR ''/''")
        case False
        with notEnd notSpace have "skipWhitespace L D = (L, D)"
          by (subst skipWhitespace.simps) (simp add: Let_def)
        then show ?thesis by simp
      next
        case slash: True
        consider (line) "peekNext L = CHR ''/''"
          | (block) "peekNext L \<noteq> CHR ''/''" "peekNext L = CHR ''*''"
          | (none) "peekNext L \<noteq> CHR ''/''" "peekNext L \<noteq> CHR ''*''" by blast
        then show ?thesis
        proof cases
          case line
          with notEnd notSpace slash
          have eq: "skipWhitespace L D = skipWhitespace (skipLineComment L) D"
            by (subst skipWhitespace.simps) (simp add: Let_def)
          from 1(2) [OF notEnd refl notSpace slash line]
          have "scans (skipLineComment L) (fst (skipWhitespace (skipLineComment L) D))"
            "l_current (skipLineComment L) \<le> l_current (fst (skipWhitespace (skipLineComment L) D))"
            by simp_all
          moreover have "scans L (skipLineComment L)" by (simp add: skipLineComment_def)
          moreover have "l_current L < l_current (skipLineComment L)"
            using skipLineComment_progress by simp
          ultimately show ?thesis unfolding eq using scans_trans by force
        next
          case block
          obtain ok L1 D1 where sb: "skipBlockComment L D = (ok, L1, D1)"
            by (cases "skipBlockComment L D")
          from skipBlockComment_scans [OF sb] skipBlockComment_progress [OF sb]
          have step: "scans L L1" "l_current L < l_current L1" by simp_all
          show ?thesis
          proof (cases ok)
            case False
            with notEnd notSpace slash block sb have "skipWhitespace L D = (L1, D1)"
              by (subst skipWhitespace.simps) (simp add: Let_def)
            with step show ?thesis by simp
          next
            case True
            with notEnd notSpace slash block sb
            have eq: "skipWhitespace L D = skipWhitespace L1 D1"
              by (subst skipWhitespace.simps) (simp add: Let_def)
            from 1(3) [OF notEnd refl notSpace slash block(1) block(2) sb [symmetric] refl] True
            have "scans L1 (fst (skipWhitespace L1 D1))"
              "l_current L1 \<le> l_current (fst (skipWhitespace L1 D1))" by simp_all
            with step show ?thesis unfolding eq using scans_trans by force
          qed
        next
          case none
          with notEnd notSpace slash have "skipWhitespace L D = (L, D)"
            by (subst skipWhitespace.simps) (simp add: Let_def)
          then show ?thesis by simp
        qed
      qed
    qed
  qed
qed

lemma lexString_loop_stop:
  "isAtEnd L \<or> peek L = CHR 0x22 \<Longrightarrow> lexString_loop L = (None, L)"
  by (subst lexString_loop.simps) auto

lemma lexString_loop_escape_end:
  "\<not> isAtEnd L \<Longrightarrow> peek L = CHR 0x5C \<Longrightarrow> isAtEnd (advance L) \<Longrightarrow>
   lexString_loop L = (Some ''unterminated string literal'', advance L)"
  by (subst lexString_loop.simps) (simp add: Let_def)

lemma lexString_loop_escape:
  "\<not> isAtEnd L \<Longrightarrow> peek L = CHR 0x5C \<Longrightarrow> \<not> isAtEnd (advance L) \<Longrightarrow>
   lexString_loop L = lexString_loop (advance (advance L))"
  by (subst lexString_loop.simps) (simp add: Let_def)

lemma lexString_loop_newline:
  "\<not> isAtEnd L \<Longrightarrow> peek L = CHR 0x0A \<Longrightarrow>
   lexString_loop L = (Some ''unterminated string literal (newline in string)'', L)"
  by (subst lexString_loop.simps) simp

lemma lexString_loop_other:
  "\<not> isAtEnd L \<Longrightarrow> peek L \<noteq> CHR 0x22 \<Longrightarrow> peek L \<noteq> CHR 0x5C \<Longrightarrow> peek L \<noteq> CHR 0x0A \<Longrightarrow>
   lexString_loop L = lexString_loop (advance L)"
  by (subst lexString_loop.simps) simp

lemma lexString_loop_mono:
  "scans L (snd (lexString_loop L)) \<and> l_current L \<le> l_current (snd (lexString_loop L))"
proof (induction L rule: lexString_loop.induct)
  case (1 L)
  show ?case
  proof (cases "isAtEnd L \<or> peek L = CHR 0x22")
    case True
    then show ?thesis by (simp add: lexString_loop_stop)
  next
    case False
    then have go: "\<not> isAtEnd L \<and> peek L \<noteq> CHR 0x22" by simp
    consider (esc_end) "peek L = CHR 0x5C" "isAtEnd (advance L)"
      | (esc) "peek L = CHR 0x5C" "\<not> isAtEnd (advance L)"
      | (nl) "peek L \<noteq> CHR 0x5C" "peek L = CHR 0x0A"
      | (other) "peek L \<noteq> CHR 0x5C" "peek L \<noteq> CHR 0x0A" by blast
    then show ?thesis
    proof cases
      case esc_end
      with False show ?thesis by (simp add: lexString_loop_escape_end)
    next
      case esc
      from 1(1) [OF go esc(1) refl esc(2)]
      have "scans L (snd (lexString_loop (advance (advance L))))"
        "l_current (advance (advance L)) \<le> l_current (snd (lexString_loop (advance (advance L))))"
        by simp_all
      with False esc show ?thesis by (simp add: lexString_loop_escape)
    next
      case nl
      with False show ?thesis by (simp add: lexString_loop_newline)
    next
      case other
      from 1(2) [OF go other]
      have "scans L (snd (lexString_loop (advance L)))"
        "l_current (advance L) \<le> l_current (snd (lexString_loop (advance L)))"
        by simp_all
      with False other show ?thesis by (simp add: lexString_loop_other)
    qed
  qed
qed

lemma returnToken_lexer [simp]: "fst (snd (returnToken k L D)) = L"
  by (simp add: returnToken_def)

lemma returnError_lexer [simp]: "fst (snd (returnError msg L D)) = L"
  by (simp add: returnError_def errorToken_def Let_def)

lemma returnToken_kind [simp]: "kind (fst (returnToken k L D)) = k"
  by (simp add: returnToken_def makeToken_def)

lemma returnError_kind [simp]: "kind (fst (returnError msg L D)) = Invalid"
  by (simp add: returnError_def errorToken_def Let_def)

lemma lexString_progress:
  "scans L (fst (snd (lexString L D))) \<and> l_current L < l_current (fst (snd (lexString L D)))"
proof -
  obtain r L2 where loop: "lexString_loop (advance L) = (r, L2)"
    by (cases "lexString_loop (advance L)")
  with lexString_loop_mono [of "advance L"]
  have L2: "scans L L2" "l_current L < l_current L2" by simp_all
  show ?thesis
  proof (cases r)
    case (Some msg)
    with loop L2 show ?thesis by (simp add: lexString_def Let_def)
  next
    case None
    with loop L2 show ?thesis by (simp add: lexString_def Let_def)
  qed
qed

lemma lexChar_progress:
  "scans L (fst (snd (lexChar L D))) \<and> l_current L < l_current (fst (snd (lexChar L D)))"
  by (simp add: lexChar_def Let_def)

lemma lexAnnotation_progress:
  "scans L (fst (snd (lexAnnotation L D))) \<and> l_current L < l_current (fst (snd (lexAnnotation L D)))"
proof -
  have "l_current (advance L) \<le> l_current (advanceWhile isIdentChar (advance L))"
    by (rule l_current_advanceWhile)
  moreover have "scans L (advanceWhile isIdentChar (advance L))" by simp
  note this [unfolded scans_iff]
  ultimately show ?thesis by (simp add: lexAnnotation_def Let_def scans_iff)
qed

lemma lexIdentifierOrKeyword_progress:
  "scans L (snd (lexIdentifierOrKeyword L)) \<and> l_current L \<le> l_current (snd (lexIdentifierOrKeyword L))"
  by (simp add: lexIdentifierOrKeyword_def Let_def l_current_advanceWhile)

lemma match_progress:
  "scans L (snd (match c L)) \<and> l_current L \<le> l_current (snd (match c L))"
  by (simp add: match_def)

lemma scans_match_right [simp]: "scans L (snd (match c L1)) = scans L L1"
  by (simp add: match_def)

lemma l_current_match: "l_current L \<le> l_current L1 \<Longrightarrow> l_current L \<le> l_current (snd (match c L1))"
  by (simp add: match_def)

lemma lexOperator_progress:
  "scans L (fst (snd (lexOperator c L D))) \<and> l_current L \<le> l_current (fst (snd (lexOperator c L D)))"
  by (simp add: lexOperator_def Let_def split_beta l_current_match)

lemma lexOperator_kind: "kind (fst (lexOperator c L D)) \<noteq> Eof"
  by (simp add: lexOperator_def Let_def split_beta)

lemma l_current_backUp [simp]: "l_current (backUp L) = l_current L - 1"
  by (simp add: backUp_def)

lemma scans_backUp_right [simp]: "scans L (backUp L1) = scans L L1"
  by (simp add: backUp_def scans_iff)

lemma scans_sym: "scans L L1 \<Longrightarrow> scans L1 L"
  by (simp add: scans_def)

lemma scans_left: "scans L L1 \<Longrightarrow> scans L L2 = scans L1 L2"
  by (auto simp: scans_iff)

lemma lexApostrophe_progress:
  "scans L (fst (snd (lexApostrophe L D))) \<and> l_current L \<le> l_current (fst (snd (lexApostrophe L D)))"
proof -
  let ?B = "backUp (advance L\<lparr>l_current := l_current L, l_line := l_line L, l_column := l_column L\<rparr>)"
  have B: "scans L ?B" "l_current ?B = l_current L - 1"
    by (simp_all add: scans_iff backUp_def advance_def Let_def)
  note p1 = lexChar_progress [of ?B D]
  have c1: "scans L (fst (snd (lexChar ?B D)))" "l_current L \<le> l_current (fst (snd (lexChar ?B D)))"
    using scans_trans [OF B(1) p1 [THEN conjunct1]] p1 [THEN conjunct2] B(2) by simp_all
  note p2 = lexChar_progress [of "backUp L" D]
  have "scans L (backUp L)" by simp
  from scans_trans [OF this p2 [THEN conjunct1]] p2 [THEN conjunct2]
  have c2: "scans L (fst (snd (lexChar (backUp L) D)))"
    "l_current L \<le> l_current (fst (snd (lexChar (backUp L) D)))"
    by simp_all
  have c3: "l_current L \<le> l_current (advanceWhile isIdentChar (advance L))"
    using l_current_advanceWhile [of "advance L" isIdentChar] by simp
  from c1 c2 c3 show ?thesis by (simp add: lexApostrophe_def Let_def)
qed

lemma lexApostrophe_kind: "kind (fst (lexApostrophe L D)) \<noteq> Eof"
  by (simp add: lexApostrophe_def Let_def lexChar_def)

lemma intLiteral_Inr:
  "intLiteral skip base L D = Inr (t, L', D') \<Longrightarrow> L' = L \<and> D' = D \<and> kind t = IntLiteral"
  by (auto simp: intLiteral_def Let_def makeToken_def split: sum.splits)

lemma floatLiteral_Inr:
  "floatLiteral f L D = Inr (t, L', D') \<Longrightarrow> L' = L \<and> D' = D \<and> kind t = FloatLiteral"
  by (auto simp: floatLiteral_def Let_def makeToken_def split: if_splits)

lemma returnError_eq:
  "returnError msg L D = (t, L', D') \<Longrightarrow> L' = L \<and> kind t = Invalid"
  by (auto simp: returnError_def errorToken_def Let_def)

lemma lexDecimal_Inr:
  assumes "lexDecimal f L D = Inr (t, L', D')"
  shows "scans L L' \<and> l_current (advanceWhile isDecimalChar L) \<le> l_current L' \<and> kind t \<noteq> Eof"
proof -
  let ?L1 = "advanceWhile isDecimalChar L"
  let ?hasPoint = "peek ?L1 = CHR ''.'' \<and> peekNext ?L1 \<noteq> CHR ''.''"
  let ?L2 = "if ?hasPoint then advanceWhile isDecimalChar (advance ?L1) else ?L1"
  let ?L3 = "advance ?L2"
  let ?L4 = "if peek ?L3 = CHR ''+'' \<or> peek ?L3 = CHR ''-'' then advance ?L3 else ?L3"
  let ?L5 = "advanceWhile isDecimalChar ?L4"
  have L2: "scans L ?L2" "l_current ?L1 \<le> l_current ?L2"
    using l_current_advanceWhile [of "advance ?L1" isDecimalChar] by simp_all
  have L4: "scans L ?L4" "l_current ?L1 \<le> l_current ?L4"
    using L2 by (simp_all del: scans_advanceWhile_right add: scans_advanceWhile_right [of L])
  have L5: "scans L ?L5" "l_current ?L1 \<le> l_current ?L5"
    using L4 l_current_advanceWhile [of ?L4 isDecimalChar] by simp_all
  from assms consider
      (err) "returnError ''expected digit in exponent'' ?L4 D = (t, L', D')"
    | (flt5) "floatLiteral f ?L5 D = Inr (t, L', D')"
    | (flt2) "floatLiteral f ?L2 D = Inr (t, L', D')"
    | (int2) "intLiteral 0 10 ?L2 D = Inr (t, L', D')"
    unfolding lexDecimal_def Let_def by (auto split: if_splits)
  then show ?thesis
  proof cases
    case err
    from returnError_eq [OF this] L4 show ?thesis by simp
  next
    case flt5
    from floatLiteral_Inr [OF this] L5 show ?thesis by simp
  next
    case flt2
    from floatLiteral_Inr [OF this] L2 show ?thesis by simp
  next
    case int2
    from intLiteral_Inr [OF this] L2 show ?thesis by simp
  qed
qed

lemma lexNumber_Inr:
  assumes "lexNumber f L D = Inr (t, L', D')" and "\<not> isAtEnd L" and "isdigit (peek L)"
  shows "scans L L' \<and> l_current L < l_current L' \<and> kind t \<noteq> Eof"
proof -
  let ?L1 = "advance (advance L)"
  have dec: "l_current L < l_current (advanceWhile isDecimalChar L)"
    using assms(2,3) l_current_advanceWhile [of "advance L" isDecimalChar]
    by (simp add: advanceWhile_step isDecimalChar_def)
  from assms(1) consider
      (err) msg where "returnError msg ?L1 D = (t, L', D')"
    | (hex) "intLiteral 2 16 (advanceWhile isHexChar ?L1) D = Inr (t, L', D')"
    | (bin) "intLiteral 2 2 (advanceWhile isBinaryChar ?L1) D = Inr (t, L', D')"
    | (oct) "intLiteral 2 8 (advanceWhile isOctalChar ?L1) D = Inr (t, L', D')"
    | (dec) "lexDecimal f L D = Inr (t, L', D')"
    unfolding lexNumber_def Let_def by (auto split: if_splits)
  then show ?thesis
  proof cases
    case err
    from returnError_eq [OF this] show ?thesis by simp
  next
    case hex
    from intLiteral_Inr [OF this] l_current_advanceWhile [of ?L1 isHexChar]
    show ?thesis by simp
  next
    case bin
    from intLiteral_Inr [OF this] l_current_advanceWhile [of ?L1 isBinaryChar]
    show ?thesis by simp
  next
    case oct
    from intLiteral_Inr [OF this] l_current_advanceWhile [of ?L1 isOctalChar]
    show ?thesis by simp
  next
    case dec
    from lexDecimal_Inr [OF this] \<open>l_current L < l_current (advanceWhile isDecimalChar L)\<close>
    show ?thesis by simp
  qed
qed

lemma nextToken_dispatch_Inr:
  assumes nt: "nextToken_dispatch f c L2 D0 = Inr (t, L', D')"
    and c: "c = l_source L1 ! l_current L1" and L2: "L2 = advance L1" and notEnd: "\<not> isAtEnd L1"
  shows "scans L1 L' \<and> l_current L1 < l_current L' \<and> kind t \<noteq> Eof"
proof -
  define Ld where "Ld = (if c = CHR 0x0A
                          then L2\<lparr>l_current := l_current L2 - 1, l_line := l_line L2 - 1\<rparr>
                          else L2\<lparr>l_current := l_current L2 - 1, l_column := l_column L2 - 1\<rparr>)"
  have L2s: "scans L1 L2" "l_current L2 = l_current L1 + 1" by (simp_all add: L2)
  have Ld: "scans L1 Ld" "l_current Ld = l_current L1" "\<not> isAtEnd Ld" "peek Ld = c"
    using notEnd by (simp_all add: Ld_def L2 scans_iff advance_def Let_def isAtEnd_def peek_def c)
  from nt consider
      (under) "(t, L', D') = returnToken (Op Underscore) L2 D0"
    | (ident) "t = fst (lexIdentifierOrKeyword L2)" "L' = snd (lexIdentifierOrKeyword L2)"
    | (num) "isdigit c" "lexNumber f Ld D0 = Inr (t, L', D')"
    | (str) "(t, L', D') = lexString (backUp L2) D0"
    | (apos) "(t, L', D') = lexApostrophe L2 D0"
    | (annot) "(t, L', D') = lexAnnotation (backUp L2) D0"
    | (at) "(t, L', D') = returnToken (Op At) L2 D0"
    | (oper) "(t, L', D') = lexOperator c L2 D0"
    unfolding nextToken_dispatch_def Ld_def [symmetric]
    by (auto simp: split_beta split: if_splits)
  then show ?thesis
  proof cases
    case under
    then have "L' = L2" "kind t = Op Underscore" by (simp_all add: returnToken_def makeToken_def)
    with L2s show ?thesis by simp
  next
    case ident
    have "kind (fst (lexIdentifierOrKeyword L2)) \<noteq> Eof"
      by (auto simp: lexIdentifierOrKeyword_def Let_def makeToken_text_def identifierKind_def
                     keywordTable_def split: option.splits if_splits)
    with ident lexIdentifierOrKeyword_progress [of L2] L2s scans_trans [of L1 L2]
    show ?thesis by auto
  next
    case num
    from lexNumber_Inr [OF num(2) Ld(3)] num(1) Ld scans_trans [of L1 Ld L']
    show ?thesis by auto
  next
    case str
    then have "L' = fst (snd (lexString (backUp L2) D0))" "t = fst (lexString (backUp L2) D0)"
      by (metis fst_conv snd_conv)+
    moreover have "kind (fst (lexString (backUp L2) D0)) \<noteq> Eof"
      by (auto simp: lexString_def Let_def makeToken_def split: prod.splits option.splits)
    ultimately show ?thesis
      using lexString_progress [of "backUp L2" D0] L2s scans_trans [of L1 "backUp L2" L'] by auto
  next
    case apos
    then have "L' = fst (snd (lexApostrophe L2 D0))" "t = fst (lexApostrophe L2 D0)"
      by (metis fst_conv snd_conv)+
    with lexApostrophe_progress [of L2 D0] lexApostrophe_kind [of L2 D0] L2s scans_trans [of L1 L2 L']
    show ?thesis by auto
  next
    case annot
    then have "L' = fst (snd (lexAnnotation (backUp L2) D0))" "t = fst (lexAnnotation (backUp L2) D0)"
      by (metis fst_conv snd_conv)+
    moreover have "kind (fst (lexAnnotation (backUp L2) D0)) \<noteq> Eof"
      by (simp add: lexAnnotation_def Let_def)
    ultimately show ?thesis
      using lexAnnotation_progress [of "backUp L2" D0] L2s scans_trans [of L1 "backUp L2" L'] by auto
  next
    case at
    then have "L' = L2" "kind t = Op At" by (simp_all add: returnToken_def makeToken_def)
    with L2s show ?thesis by simp
  next
    case oper
    then have "L' = fst (snd (lexOperator c L2 D0))" "t = fst (lexOperator c L2 D0)"
      by (metis fst_conv snd_conv)+
    with lexOperator_progress [of L2 c D0] lexOperator_kind [of c L2 D0] L2s scans_trans [of L1 L2 L']
    show ?thesis by auto
  qed
qed

text \<open>
  Every call of \<^verbatim>\<open>nextToken\<close> that returns keeps the buffer, and one that lexes a token
  other than the end marker moves the scanning position forward.
\<close>

lemma nextToken_Inr:
  assumes nt: "nextToken f L D = Inr (t, L', D')"
  shows "l_source L' = l_source L \<and> l_filename L' = l_filename L \<and> \<not> l_hasPeeked L' \<and>
         l_peekedToken L' = l_peekedToken L \<and>
         (\<not> l_hasPeeked L \<and> kind t \<noteq> Eof \<longrightarrow>
            l_current L < l_current L' \<and> l_current L < length (l_source L))"
proof (cases "l_hasPeeked L")
  case True
  with nt show ?thesis by (auto simp: nextToken_def)
next
  case False
  obtain L0 D0 where ws: "skipWhitespace L D = (L0, D0)" by (cases "skipWhitespace L D")
  define L1 where "L1 = L0\<lparr>l_tokenStart := l_current L0, l_tokenLine := l_line L0,
                            l_tokenColumn := l_column L0\<rparr>"
  from skipWhitespace_mono [of L D] ws
  have L0: "scans L L0" "l_current L \<le> l_current L0" by simp_all
  from L0(1) have L1f: "l_source L1 = l_source L" "l_filename L1 = l_filename L"
    "l_hasPeeked L1 = l_hasPeeked L" "l_peekedToken L1 = l_peekedToken L"
    "l_current L1 = l_current L0"
    by (simp_all add: L1_def scans_iff)
  have keep: "l_source X = l_source L \<and> l_filename X = l_filename L \<and> \<not> l_hasPeeked X \<and>
              l_peekedToken X = l_peekedToken L" if "scans L1 X" for X
    using that L1f False by (simp add: scans_iff)
  show ?thesis
  proof (cases "isAtEnd L1")
    case True
    with nt False ws have "L' = L1"
      by (auto simp: nextToken_def Let_def L1_def returnToken_def)
    moreover from True nt False ws have "kind t = Eof"
      by (auto simp: nextToken_def Let_def L1_def returnToken_def makeToken_def)
    ultimately show ?thesis using keep [of L1] by simp
  next
    case notEnd: False
    then have lt: "l_current L < length (l_source L)"
      using L0(2) L1f by (simp add: isAtEnd_def)
    from nt False ws notEnd
    have "nextToken_dispatch f (l_source L1 ! l_current L1) (advance L1) D0 = Inr (t, L', D')"
      by (simp add: nextToken_def Let_def L1_def)
    from nextToken_dispatch_Inr [OF this refl refl notEnd]
    have "scans L1 L'" "l_current L1 < l_current L'" by simp_all
    with keep [of L'] L0(2) L1f(5) lt show ?thesis by simp
  qed
qed

subsection \<open>lexAll\<close>

text \<open>
  \<^verbatim>\<open>lexAll\<close>: the loop \<^verbatim>\<open>while (true) { token = nextToken(); tokens.push_back(token);
  if (token.kind == Eof) break; }\<close> with the vector as accumulator. An exception of
  \<^verbatim>\<open>nextToken\<close> ends it. The loop always ends: a token from the peek cache clears the
  cache, and any other token that is not the end marker consumes input.
\<close>

function lexAll_loop ::
  "(string \<Rightarrow> bool) \<Rightarrow> Token list \<Rightarrow> Lexer \<Rightarrow> DiagnosticEngine \<Rightarrow>
   exception + (Token list \<times> Lexer \<times> DiagnosticEngine)" where
  "lexAll_loop stod_range_error tokens L D =
     (case nextToken stod_range_error L D of
        Inl e \<Rightarrow> Inl e
      | Inr (token, L1, D1) \<Rightarrow>
          if kind token = Eof then Inr (tokens @ [token], L1, D1)
          else lexAll_loop stod_range_error (tokens @ [token]) L1 D1)"
  by pat_completeness auto
termination
proof (relation "measure (\<lambda>(f, tokens, L, D).
          (if l_hasPeeked L then 1 else 0) + (length (l_source L) - l_current L))", goal_cases)
  case 1
  show ?case by simp
next
  case (2 f tokens L D r token y L1 D1)
  then have nt: "nextToken f L D = Inr (token, L1, D1)" and ne: "kind token \<noteq> Eof" by simp_all
  show ?case
  proof (cases "l_hasPeeked L")
    case True
    with nt have "L1 = L\<lparr>l_hasPeeked := False\<rparr>" by (simp add: nextToken_def)
    with True show ?thesis by simp
  next
    case False
    with nextToken_Inr [OF nt] ne
    have "l_source L1 = l_source L" "\<not> l_hasPeeked L1" "l_current L < l_current L1"
      "l_current L < length (l_source L)" by simp_all
    with False show ?thesis by simp
  qed
qed

declare lexAll_loop.simps [simp del]

definition lexAll ::
  "(string \<Rightarrow> bool) \<Rightarrow> Lexer \<Rightarrow> DiagnosticEngine \<Rightarrow>
   exception + (Token list \<times> Lexer \<times> DiagnosticEngine)" where
  "lexAll stod_range_error L D = lexAll_loop stod_range_error [] L D"

subsection \<open>The lexer does not read the diagnostic engine\<close>

text \<open>
  \<open>noDiag\<close> forgets the engine in the result of a lexing function. What is left, the
  token and the lexer state, does not depend on the engine passed in.
\<close>

definition noDiag :: "Token \<times> Lexer \<times> DiagnosticEngine \<Rightarrow> Token \<times> Lexer" where
  "noDiag r = (fst r, fst (snd r))"

lemma noDiag_returnToken [simp]: "noDiag (returnToken k L D) = (makeToken k L, L)"
  by (simp add: noDiag_def returnToken_def)

lemma noDiag_returnError [simp]:
  "noDiag (returnError msg L D) = (fst (errorToken msg L DiagnosticEngine_init), L)"
  by (simp add: noDiag_def returnError_def errorToken_def Let_def)

lemma noDiag_tuple [simp]: "noDiag (t, L, D) = (t, L)"
  by (simp add: noDiag_def)

lemma noDiag_lexOperator: "noDiag (lexOperator c L D1) = noDiag (lexOperator c L D2)"
  by (simp add: lexOperator_def Let_def split_beta if_distrib [of noDiag])

lemma noDiag_lexChar: "noDiag (lexChar L D1) = noDiag (lexChar L D2)"
  by (simp add: lexChar_def Let_def if_distrib [of noDiag])

lemma noDiag_lexString: "noDiag (lexString L D1) = noDiag (lexString L D2)"
  by (simp add: lexString_def Let_def if_distrib [of noDiag] split: prod.splits option.splits)

lemma noDiag_lexAnnotation: "noDiag (lexAnnotation L D1) = noDiag (lexAnnotation L D2)"
  by (simp add: lexAnnotation_def Let_def if_distrib [of noDiag])

lemma noDiag_lexApostrophe: "noDiag (lexApostrophe L D1) = noDiag (lexApostrophe L D2)"
  using noDiag_lexChar by (simp add: lexApostrophe_def Let_def if_distrib [of noDiag])

definition noDiagR ::
  "exception + (Token \<times> Lexer \<times> DiagnosticEngine) \<Rightarrow> exception + (Token \<times> Lexer)" where
  "noDiagR r = map_sum id noDiag r"

lemma noDiagR_simps [simp]: "noDiagR (Inl e) = Inl e" "noDiagR (Inr x) = Inr (noDiag x)"
  by (simp_all add: noDiagR_def)

lemma noDiagR_intLiteral: "noDiagR (intLiteral skip base L D1) = noDiagR (intLiteral skip base L D2)"
  by (simp add: intLiteral_def Let_def split: sum.splits)

lemma noDiagR_floatLiteral: "noDiagR (floatLiteral f L D1) = noDiagR (floatLiteral f L D2)"
  by (simp add: floatLiteral_def Let_def)

lemma noDiagR_lexDecimal: "noDiagR (lexDecimal f L D1) = noDiagR (lexDecimal f L D2)"
  using noDiagR_intLiteral noDiagR_floatLiteral
  by (simp add: lexDecimal_def Let_def if_distrib [of noDiagR])

lemma noDiagR_lexNumber: "noDiagR (lexNumber f L D1) = noDiagR (lexNumber f L D2)"
proof -
  let ?zero = "peek L = CHR ''0'' \<and> \<not> isAtEnd L"
  let ?L1 = "advance (advance L)"
  consider (hex) "?zero \<and> (peekNext L = CHR ''x'' \<or> peekNext L = CHR ''X'')"
    | (bin) "\<not> (?zero \<and> (peekNext L = CHR ''x'' \<or> peekNext L = CHR ''X''))"
            "?zero \<and> (peekNext L = CHR ''b'' \<or> peekNext L = CHR ''B'')"
    | (oct) "\<not> (?zero \<and> (peekNext L = CHR ''x'' \<or> peekNext L = CHR ''X''))"
            "\<not> (?zero \<and> (peekNext L = CHR ''b'' \<or> peekNext L = CHR ''B''))"
            "?zero \<and> (peekNext L = CHR ''o'' \<or> peekNext L = CHR ''O'')"
    | (dec) "\<not> (?zero \<and> (peekNext L = CHR ''x'' \<or> peekNext L = CHR ''X''))"
            "\<not> (?zero \<and> (peekNext L = CHR ''b'' \<or> peekNext L = CHR ''B''))"
            "\<not> (?zero \<and> (peekNext L = CHR ''o'' \<or> peekNext L = CHR ''O''))"
    by blast
  then show ?thesis
  proof cases
    case hex
    then have "lexNumber f L D =
        (if \<not> isAtEnd ?L1 \<and> \<not> isxdigit (peek ?L1) then
           Inr (returnError (''expected hexadecimal digit after '' @ [CHR 0x27] @ ''0x'' @ [CHR 0x27]) ?L1 D)
         else intLiteral 2 16 (advanceWhile isHexChar ?L1) D)" for D
      unfolding lexNumber_def Let_def by simp
    then show ?thesis using noDiagR_intLiteral [of 2 16 _ D1 D2] by simp
  next
    case bin
    then have "lexNumber f L D =
        (if \<not> isAtEnd ?L1 \<and> peek ?L1 \<noteq> CHR ''0'' \<and> peek ?L1 \<noteq> CHR ''1'' then
           Inr (returnError (''expected binary digit after '' @ [CHR 0x27] @ ''0b'' @ [CHR 0x27]) ?L1 D)
         else intLiteral 2 2 (advanceWhile isBinaryChar ?L1) D)" for D
      unfolding lexNumber_def Let_def by simp
    then show ?thesis using noDiagR_intLiteral [of 2 2 _ D1 D2] by simp
  next
    case oct
    then have "lexNumber f L D = intLiteral 2 8 (advanceWhile isOctalChar ?L1) D" for D
      unfolding lexNumber_def Let_def by simp
    then show ?thesis using noDiagR_intLiteral [of 2 8 _ D1 D2] by simp
  next
    case dec
    then have "lexNumber f L D = lexDecimal f L D" for D
      unfolding lexNumber_def Let_def by auto
    then show ?thesis using noDiagR_lexDecimal [of f L D1 D2] by simp
  qed
qed

lemma noDiagR_nextToken_dispatch:
  "noDiagR (nextToken_dispatch f c L D1) = noDiagR (nextToken_dispatch f c L D2)"
  using noDiagR_lexNumber noDiag_lexString noDiag_lexApostrophe noDiag_lexAnnotation
    noDiag_lexOperator
  by (simp add: nextToken_dispatch_def if_distrib [of noDiagR] split_beta)

lemma skipBlockComment_noDiag:
  "fst (skipBlockComment L D1) = fst (skipBlockComment L D2) \<and>
   fst (snd (skipBlockComment L D1)) = fst (snd (skipBlockComment L D2))"
  by (simp add: skipBlockComment_def Let_def split_beta)

lemma skipWhitespace_noDiag:
  "\<forall>D2. fst (skipWhitespace L D) = fst (skipWhitespace L D2)"
proof (induction L D rule: skipWhitespace.induct)
  case (1 L D)
  let ?c = "peek L"
  show ?case
  proof (cases "isAtEnd L")
    case True
    then show ?thesis by (simp add: skipWhitespace_stop)
  next
    case notEnd: False
    show ?thesis
    proof (cases "?c = CHR '' '' \<or> ?c = CHR 0x09 \<or> ?c = CHR 0x0D \<or> ?c = CHR 0x0A")
      case True
      with notEnd have "skipWhitespace L D' = skipWhitespace (advance L) D'" for D'
        by (subst skipWhitespace.simps) (simp add: Let_def)
      with 1(1) [OF notEnd refl True] show ?thesis by simp
    next
      case notSpace: False
      show ?thesis
      proof (cases "?c = CHR ''/''")
        case False
        with notEnd notSpace have "skipWhitespace L D' = (L, D')" for D'
          by (subst skipWhitespace.simps) (simp add: Let_def)
        then show ?thesis by simp
      next
        case slash: True
        consider (line) "peekNext L = CHR ''/''"
          | (block) "peekNext L \<noteq> CHR ''/''" "peekNext L = CHR ''*''"
          | (none) "peekNext L \<noteq> CHR ''/''" "peekNext L \<noteq> CHR ''*''" by blast
        then show ?thesis
        proof cases
          case line
          with notEnd notSpace slash
          have "skipWhitespace L D' = skipWhitespace (skipLineComment L) D'" for D'
            by (subst skipWhitespace.simps) (simp add: Let_def)
          with 1(2) [OF notEnd refl notSpace slash line] show ?thesis by simp
        next
          case block
          obtain ok L1 D1 where sb: "skipBlockComment L D = (ok, L1, D1)"
            by (cases "skipBlockComment L D")
          have other: "\<exists>D1'. skipBlockComment L D' = (ok, L1, D1')" for D'
            using skipBlockComment_noDiag [of L D D'] sb
            by (cases "skipBlockComment L D'") simp
          show ?thesis
          proof (cases ok)
            case False
            have "fst (skipWhitespace L D') = L1" for D'
            proof -
              from other [of D'] obtain D1' where "skipBlockComment L D' = (ok, L1, D1')" ..
              with notEnd notSpace slash block False show ?thesis
                by (subst skipWhitespace.simps) (simp add: Let_def)
            qed
            then show ?thesis by simp
          next
            case True
            have eq: "\<exists>D1'. skipWhitespace L D' = skipWhitespace L1 D1'" for D'
            proof -
              from other [of D'] obtain D1' where "skipBlockComment L D' = (ok, L1, D1')" ..
              with notEnd notSpace slash block True
              have "skipWhitespace L D' = skipWhitespace L1 D1'"
                by (subst skipWhitespace.simps) (simp add: Let_def)
              then show ?thesis ..
            qed
            from notEnd notSpace slash block True sb
            have eqD: "skipWhitespace L D = skipWhitespace L1 D1"
              by (subst skipWhitespace.simps) (simp add: Let_def)
            from 1(3) [OF notEnd refl notSpace slash block(1) block(2) sb [symmetric] refl] True
            have ih: "\<forall>D2. fst (skipWhitespace L1 D1) = fst (skipWhitespace L1 D2)" by simp
            show ?thesis
            proof
              fix D2
              from eq [of D2] obtain D1' where "skipWhitespace L D2 = skipWhitespace L1 D1'" ..
              with ih eqD show "fst (skipWhitespace L D) = fst (skipWhitespace L D2)" by simp
            qed
          qed
        next
          case none
          with notEnd notSpace slash have "skipWhitespace L D' = (L, D')" for D'
            by (subst skipWhitespace.simps) (simp add: Let_def)
          then show ?thesis by simp
        qed
      qed
    qed
  qed
qed

lemma noDiagR_nextToken: "noDiagR (nextToken f L D1) = noDiagR (nextToken f L D2)"
proof -
  from skipWhitespace_noDiag [of L D1]
  have "fst (skipWhitespace L D1) = fst (skipWhitespace L D2)" by simp
  with noDiagR_nextToken_dispatch show ?thesis
    by (simp add: nextToken_def Let_def split_beta if_distrib [of noDiagR])
qed

lemma noDiagR_peekToken: "noDiagR (peekToken f L D1) = noDiagR (peekToken f L D2)"
proof -
  note nt = noDiagR_nextToken [of f L D1 D2]
  show ?thesis
  proof (cases "nextToken f L D1")
    case (Inl e)
    with nt have "nextToken f L D2 = Inl e" by (cases "nextToken f L D2") simp_all
    with Inl show ?thesis by (simp add: peekToken_def)
  next
    case (Inr r)
    with nt obtain r' where r': "nextToken f L D2 = Inr r'" "noDiag r' = noDiag r"
      by (cases "nextToken f L D2") simp_all
    with Inr show ?thesis by (auto simp: peekToken_def noDiag_def split_beta)
  qed
qed

subsection \<open>Sequences of calls\<close>

text \<open>
  A client of the lexer, such as the parser's lookahead, makes a sequence of calls of
  \<^verbatim>\<open>nextToken\<close> and \<^verbatim>\<open>peekToken\<close>. \<open>run_calls\<close> makes them in order and collects the tokens
  returned; an exception ends the sequence.
\<close>

datatype lexer_call = NextToken | PeekToken

fun run_calls ::
  "(string \<Rightarrow> bool) \<Rightarrow> lexer_call list \<Rightarrow> Lexer \<Rightarrow> DiagnosticEngine \<Rightarrow>
   exception + (Token list \<times> Lexer \<times> DiagnosticEngine)" where
  "run_calls stod_range_error [] L D = Inr ([], L, D)"
| "run_calls stod_range_error (c # cs) L D =
     (case (case c of NextToken \<Rightarrow> nextToken stod_range_error L D
                    | PeekToken \<Rightarrow> peekToken stod_range_error L D) of
        Inl e \<Rightarrow> Inl e
      | Inr (t, L1, D1) \<Rightarrow>
          (case run_calls stod_range_error cs L1 D1 of
             Inl e \<Rightarrow> Inl e
           | Inr (ts, L2, D2) \<Rightarrow> Inr (t # ts, L2, D2)))"

definition tokens_of ::
  "exception + (Token list \<times> Lexer \<times> DiagnosticEngine) \<Rightarrow> exception + Token list" where
  "tokens_of r = map_sum id fst r"

lemma peekToken_Inr:
  assumes "peekToken f L D = Inr (t, L', D')"
  shows "l_source L' = l_source L \<and> l_filename L' = l_filename L"
proof (cases "l_hasPeeked L")
  case True
  with assms show ?thesis by (simp add: peekToken_def)
next
  case False
  with assms obtain L1 where "nextToken f L D = Inr (t, L1, D')"
    "L' = L1\<lparr>l_peekedToken := t, l_hasPeeked := True\<rparr>"
    by (auto simp: peekToken_def split: sum.splits)
  with nextToken_Inr [of f L D t L1 D'] show ?thesis by simp
qed

lemma run_calls_buffer:
  "run_calls f cs L D = Inr (ts, L', D') \<Longrightarrow>
   l_source L' = l_source L \<and> l_filename L' = l_filename L"
proof (induction cs arbitrary: L D ts)
  case Nil
  then show ?case by simp
next
  case (Cons c cs)
  from Cons.prems obtain t L1 D1 ts1 where
    step: "(case c of NextToken \<Rightarrow> nextToken f L D | PeekToken \<Rightarrow> peekToken f L D) = Inr (t, L1, D1)"
    and rest: "run_calls f cs L1 D1 = Inr (ts1, L', D')"
    by (auto split: sum.splits)
  from step have "l_source L1 = l_source L \<and> l_filename L1 = l_filename L"
    using nextToken_Inr [of f L D t L1 D1] peekToken_Inr [of f L D t L1 D1]
    by (cases c) simp_all
  with Cons.IH [OF rest] show ?case by simp
qed

lemma tokens_of_run_calls:
  "map_sum id (\<lambda>r. (fst r, fst (snd r))) (run_calls f cs L D1) =
   map_sum id (\<lambda>r. (fst r, fst (snd r))) (run_calls f cs L D2)"
proof (induction cs arbitrary: L D1 D2)
  case Nil
  show ?case by simp
next
  case (Cons c cs)
  let ?step = "\<lambda>D. (case c of NextToken \<Rightarrow> nextToken f L D | PeekToken \<Rightarrow> peekToken f L D)"
  have st: "noDiagR (?step D1) = noDiagR (?step D2)"
    using noDiagR_nextToken [of f L D1 D2] noDiagR_peekToken [of f L D1 D2] by (cases c) simp_all
  show ?case
  proof (cases "?step D1")
    case (Inl e)
    with st have "?step D2 = Inl e" by (cases "?step D2") simp_all
    with Inl show ?thesis by simp
  next
    case (Inr r)
    with st obtain r' where r': "?step D2 = Inr r'" "noDiag r' = noDiag r"
      by (cases "?step D2") simp_all
    obtain t L1 E1 where r: "r = (t, L1, E1)" by (cases r)
    with r' obtain E2 where r2: "r' = (t, L1, E2)" by (cases r') (simp add: noDiag_def)
    from Cons.IH [of L1 E1 E2] Inr r r'(1) r2 show ?thesis
      by (cases "run_calls f cs L1 E1"; cases "run_calls f cs L1 E2") (auto simp: split_beta)
  qed
qed

subsection \<open>String literals, as the claim describes them\<close>

text \<open>
  The claim about string literals speaks of the text that follows the opening quote: a
  backslash takes the next character with it, whatever it is, and what matters is which
  comes first of a closing quote, a newline that no backslash has taken, and the end of
  the input. \<open>scanStringBody\<close> says this in words of the claim, on the list of
  characters after the opening quote.
\<close>

datatype string_end = Closed | UnescapedNewline | EndOfInput

fun scanStringBody :: "string \<Rightarrow> string_end" where
  "scanStringBody [] = EndOfInput"
| "scanStringBody (c # cs) =
     (if c = CHR 0x22 then Closed
      else if c = CHR 0x5C then (case cs of [] \<Rightarrow> EndOfInput | e # rest \<Rightarrow> scanStringBody rest)
      else if c = CHR 0x0A then UnescapedNewline
      else scanStringBody cs)"

text \<open>How the loop of \<^verbatim>\<open>lexString\<close> ended, read off its result.\<close>

definition loop_end :: "string option \<times> Lexer \<Rightarrow> string_end" where
  "loop_end r =
     (case fst r of
        Some msg \<Rightarrow>
          if msg = ''unterminated string literal (newline in string)'' then UnescapedNewline
          else EndOfInput
      | None \<Rightarrow> if isAtEnd (snd r) then EndOfInput else Closed)"

lemma rest_at_end: "isAtEnd L \<Longrightarrow> drop (l_current L) (l_source L) = []"
  by (simp add: isAtEnd_def)

lemma rest_not_at_end:
  "\<not> isAtEnd L \<Longrightarrow>
   drop (l_current L) (l_source L) = peek L # drop (l_current (advance L)) (l_source (advance L))"
  by (simp add: isAtEnd_def peek_def Cons_nth_drop_Suc)

lemma lexString_loop_scans_body:
  "loop_end (lexString_loop L) = scanStringBody (drop (l_current L) (l_source L))"
proof (induction L rule: lexString_loop.induct)
  case (1 L)
  show ?case
  proof (cases "isAtEnd L")
    case True
    then show ?thesis by (simp add: lexString_loop_stop rest_at_end loop_end_def)
  next
    case notEnd: False
    note rest = rest_not_at_end [OF notEnd]
    consider (quote) "peek L = CHR 0x22"
      | (esc_end) "peek L = CHR 0x5C" "isAtEnd (advance L)"
      | (esc) "peek L = CHR 0x5C" "\<not> isAtEnd (advance L)"
      | (nl) "peek L = CHR 0x0A"
      | (other) "peek L \<noteq> CHR 0x22" "peek L \<noteq> CHR 0x5C" "peek L \<noteq> CHR 0x0A" by blast
    then show ?thesis
    proof cases
      case quote
      with notEnd show ?thesis by (simp add: lexString_loop_stop rest loop_end_def)
    next
      case esc_end
      with notEnd rest_at_end [OF esc_end(2)] show ?thesis
        by (simp add: lexString_loop_escape_end rest loop_end_def)
    next
      case esc
      from notEnd esc have go: "\<not> isAtEnd L \<and> peek L \<noteq> CHR 0x22" by simp
      from 1(1) [OF go esc(1) refl esc(2)] esc notEnd rest_not_at_end [OF esc(2)]
      show ?thesis by (simp add: lexString_loop_escape rest)
    next
      case nl
      with notEnd show ?thesis by (simp add: lexString_loop_newline rest loop_end_def)
    next
      case other
      with notEnd have go: "\<not> isAtEnd L \<and> peek L \<noteq> CHR 0x22" by simp
      from 1(2) [OF go other(2) other(3)] other notEnd
      show ?thesis by (simp add: lexString_loop_other rest)
    qed
  qed
qed

lemma lexString_loop_messages:
  "fst (lexString_loop L) = Some msg \<Longrightarrow>
   msg = ''unterminated string literal (newline in string)'' \<or> msg = ''unterminated string literal''"
proof (induction L rule: lexString_loop.induct)
  case (1 L)
  show ?case
  proof (cases "isAtEnd L \<or> peek L = CHR 0x22")
    case True
    with 1(3) show ?thesis by (simp add: lexString_loop_stop)
  next
    case False
    then have go: "\<not> isAtEnd L \<and> peek L \<noteq> CHR 0x22" by simp
    consider (esc_end) "peek L = CHR 0x5C" "isAtEnd (advance L)"
      | (esc) "peek L = CHR 0x5C" "\<not> isAtEnd (advance L)"
      | (nl) "peek L \<noteq> CHR 0x5C" "peek L = CHR 0x0A"
      | (other) "peek L \<noteq> CHR 0x5C" "peek L \<noteq> CHR 0x0A" by blast
    then show ?thesis
    proof cases
      case esc_end
      with False 1(3) show ?thesis by (simp add: lexString_loop_escape_end)
    next
      case esc
      with False 1(3) have "fst (lexString_loop (advance (advance L))) = Some msg"
        by (simp add: lexString_loop_escape)
      from 1(1) [OF go esc(1) refl esc(2) this] show ?thesis .
    next
      case nl
      with False 1(3) show ?thesis by (simp add: lexString_loop_newline)
    next
      case other
      with False 1(3) have "fst (lexString_loop (advance L)) = Some msg"
        by (simp add: lexString_loop_other)
      from 1(2) [OF go other this] show ?thesis .
    qed
  qed
qed

text \<open>The messages that a call has added to the engine.\<close>

definition newMessages :: "DiagnosticEngine \<Rightarrow> DiagnosticEngine \<Rightarrow> string list" where
  "newMessages D D' = map message (drop (length (diagnostics D)) (diagnostics D'))"

lemma newMessages_same [simp]: "newMessages D D = []"
  by (simp add: newMessages_def)

lemma newMessages_emitError [simp]: "newMessages D (emitError loc msg D) = [msg]"
  by (simp add: newMessages_def emitError_def emit_def)

lemma newMessages_returnError [simp]: "newMessages D (snd (snd (returnError msg L D))) = [msg]"
  by (simp add: returnError_def errorToken_def Let_def)

section \<open>Abstract syntax\<close>

text \<open>
  The node classes of AST/Type.h, AST/Expr.h, AST/Stmt.h, AST/Pattern.h and AST/Decl.h,
  one constructor for each class, named after it. A \<^verbatim>\<open>unique_ptr\<close> that the source tests
  before use is an \<open>option\<close>; the others are never null after a parse without errors.
  The first field of an expression, statement or declaration is the \<^verbatim>\<open>location\<close> of
  \<^verbatim>\<open>ASTNode\<close>; types and patterns are never located by a diagnostic and go without. A
  \<^verbatim>\<open>double\<close> is kept as the text of its literal.
\<close>

datatype TypeNode =
    NamedType "string list"
  | GenericType "string list" "TypeNode list"
  | ReferenceType TypeNode
  | MutRefType TypeNode
  | TupleType "TypeNode list"
  | FunctionType "TypeNode list" TypeNode
  | ArrayType TypeNode "nat option"
  | OptionType
  | ResultType
  | InferredType

text \<open>
  The enumerators of \<^verbatim>\<open>BinaryOp\<close> and \<^verbatim>\<open>UnaryOp\<close> carry the suffix \<open>Op\<close>: several of
  their names are token kinds as well.
\<close>

datatype BinaryOp =
    AddOp | SubOp | MulOp | DivOp | ModOp
  | EqualOp | NotEqualOp | LessOp | LessEqualOp | GreaterOp | GreaterEqualOp
  | AndOp | OrOp | BitAndOp | BitOrOp | BitXorOp | ShiftLeftOp | ShiftRightOp

datatype UnaryOp = NegateOp | NotOp | BitwiseNotOp

datatype CompoundAssignOp =
  AddAssign | SubAssign | MulAssign | DivAssign | ModAssign | AndAssign | OrAssign | XorAssign

datatype ClosureParam = ClosureParam string "TypeNode option"

datatype Expr =
    IntLiteralExpr SourceLocation "64 word"
  | FloatLiteralExpr SourceLocation string
  | StringLiteralExpr SourceLocation string
  | CharLiteralExpr SourceLocation "32 word"
  | BoolLiteralExpr SourceLocation bool
  | IdentExpr SourceLocation string
  | PathExpr SourceLocation "string list"
  | BinaryExpr SourceLocation BinaryOp Expr Expr
  | UnaryExpr SourceLocation UnaryOp Expr
  | CallExpr SourceLocation Expr "Expr list"
  | MethodCallExpr SourceLocation Expr string "Expr list"
  | MemberAccessExpr SourceLocation Expr string
  | IndexExpr SourceLocation Expr Expr
  | CastExpr SourceLocation Expr TypeNode
  | BlockExpr SourceLocation "Stmt list" "Expr option"
  | IfExpr SourceLocation Expr Expr "Expr option"
  | MatchExpr SourceLocation Expr "MatchArm list"
  | ClosureExpr SourceLocation "ClosureParam list" "TypeNode option" Expr bool
  | ConstructExpr SourceLocation "Expr option" "FieldInit list"
  | StructLiteralExpr SourceLocation string "FieldInit list"
  | TupleExpr SourceLocation "Expr list"
  | ArrayExpr SourceLocation "Expr list"
  | RangeExpr SourceLocation "Expr option" "Expr option" bool
  | RefExpr SourceLocation Expr
  | MutRefExpr SourceLocation Expr
  | MoveExpr SourceLocation Expr
  | AwaitExpr SourceLocation Expr
  | TryExpr SourceLocation Expr
  | AssignExpr SourceLocation Expr Expr
  | CompoundAssignExpr SourceLocation CompoundAssignOp Expr Expr
and Stmt =
    LetStmt SourceLocation string "TypeNode option" "Expr option" bool
  | ConstStmt SourceLocation string "TypeNode option" "Expr option"
  | ReturnStmt SourceLocation "Expr option"
  | IfStmt SourceLocation Expr Stmt "Stmt option"
  | MatchStmt SourceLocation Expr "MatchArm list"
  | ForStmt SourceLocation string "TypeNode option" Expr Stmt
  | WhileStmt SourceLocation Expr Stmt
  | LoopStmt SourceLocation Stmt
  | BreakStmt SourceLocation
  | ContinueStmt SourceLocation
  | BlockStmt SourceLocation "Stmt list"
  | ExprStmt SourceLocation Expr
and MatchArm = MatchArm Pattern "Expr option" Expr
and FieldInit = FieldInit string Expr
and Pattern =
    WildcardPattern
  | IdentPattern string bool
  | LiteralPattern Expr
  | TuplePattern "Pattern list"
  | ConstructorPattern "string list" "Pattern list" "NamedField list"
  | OrPattern "Pattern list"
and NamedField = NamedField string Pattern

datatype Visibility = Private | Public

text \<open>
  Of \<^verbatim>\<open>GenericParam\<close>, \<^verbatim>\<open>FuncParam\<close>, \<^verbatim>\<open>FieldDecl\<close> and \<^verbatim>\<open>EnumVariant\<close> the fields that
  some phase reads. The body of a function is the statement list of its \<^verbatim>\<open>BlockStmt\<close>.
\<close>

record GenericParam =
  gp_name :: string

record FuncParam =
  p_name :: string
  p_type :: "TypeNode option"

record FieldDecl =
  fd_name :: string
  fd_type :: "TypeNode option"

record EnumVariant =
  v_name :: string
  tupleFields :: "TypeNode option list"
  structFields :: "FieldDecl list"

record FuncDecl =
  f_location :: SourceLocation
  f_visibility :: Visibility
  f_name :: string
  f_genericParams :: "GenericParam list"
  f_params :: "FuncParam list"
  f_returnType :: "TypeNode option"
  f_body :: "Stmt list option"

datatype Decl =
    ModuleDecl SourceLocation "string list"
  | ImportDecl SourceLocation "string list" "string option"
  | Func FuncDecl
  | StructDecl SourceLocation Visibility string "GenericParam list" "FieldDecl list"
  | ClassDecl SourceLocation Visibility string "GenericParam list" "FieldDecl list" "FuncDecl list"
  | EnumDecl SourceLocation Visibility string "GenericParam list" "EnumVariant list"
  | TraitDecl SourceLocation Visibility string "GenericParam list" "FuncDecl list"
  | ImplDecl SourceLocation Visibility TypeNode "string option" "GenericParam list" "FuncDecl list"
  | TypeAliasDecl SourceLocation Visibility string "GenericParam list" "TypeNode option"

record Module =
  m_name :: string
  m_imports :: "string list"
  declarations :: "Decl list"

section \<open>Name resolution\<close>

subsection \<open>Symbols and scopes\<close>

datatype SymbolKind =
    SymVariable | SymFunction | SymStruct | SymClass | SymEnum | SymTrait | SymTypeAlias
  | SymGenericParam | SymModule | SymEnumVariant

text \<open>
  \<^verbatim>\<open>struct Symbol\<close> (Sema/NameResolution.h), with the fields that the resolver sets or the
  type checker reads. \<^verbatim>\<open>typeName\<close> is never assigned and stays empty.
\<close>

record Symbol =
  sym_kind :: SymbolKind
  sym_name :: string
  sym_location :: SourceLocation
  sym_visibility :: Visibility
  sym_isMutable :: bool
  sym_typeName :: string

definition Symbol_default :: Symbol where
  "Symbol_default =
     \<lparr>sym_kind = SymVariable, sym_name = [], sym_location = SourceLocation_default,
      sym_visibility = Public, sym_isMutable = False, sym_typeName = []\<rparr>"

text \<open>
  \<^verbatim>\<open>struct Scope\<close>: a name, the symbol table and the child scopes. The table is an
  \<^verbatim>\<open>unordered_map\<close>; it is an association list here, with at most one entry for a name,
  in the order of insertion. The \<^verbatim>\<open>parent\<close> pointer is the position in a scope chain: a
  chain is the list of scopes from the current one out to the global one, and the
  parent of a scope is the next in the list. A child scope is added to the \<^verbatim>\<open>children\<close>
  of its parent when it is left (the source adds it when it is entered; nothing reads
  the children in between).
\<close>

datatype Scope = Scope (scope_name: string) (symbols: "(string \<times> Symbol) list") (children: "Scope list")

type_synonym ScopeChain = "Scope list"

text \<open>\<^verbatim>\<open>Scope::lookup\<close>: this scope first, then the parents.\<close>

fun lookup :: "ScopeChain \<Rightarrow> string \<Rightarrow> Symbol option" where
  "lookup [] symbolName = None"
| "lookup (s # parents) symbolName =
     (case map_of (symbols s) symbolName of
        Some symb \<Rightarrow> Some symb
      | None \<Rightarrow> lookup parents symbolName)"

text \<open>
  \<^verbatim>\<open>Scope::insert\<close> on the current scope: \<^verbatim>\<open>emplace\<close> inserts only if the name is not yet
  a key, and says whether it did.
\<close>

fun insert_symbol :: "string \<Rightarrow> Symbol \<Rightarrow> ScopeChain \<Rightarrow> bool \<times> ScopeChain" where
  "insert_symbol symbolName symb [] = (False, [])"
| "insert_symbol symbolName symb (s # parents) =
     (case map_of (symbols s) symbolName of
        None \<Rightarrow> (True, Scope (scope_name s) (symbols s @ [(symbolName, symb)]) (children s) # parents)
      | Some old \<Rightarrow> (False, s # parents))"

subsection \<open>The resolver\<close>

text \<open>
  \<^verbatim>\<open>class NameResolver\<close>: the engine behind \<^verbatim>\<open>diag_\<close> and the chain that starts at
  \<^verbatim>\<open>currentScope_\<close>.
\<close>

record NameResolver =
  r_diag :: DiagnosticEngine
  r_scopes :: ScopeChain

definition enterScope :: "string \<Rightarrow> NameResolver \<Rightarrow> NameResolver" where
  "enterScope name R = R\<lparr>r_scopes := Scope name [] [] # r_scopes R\<rparr>"

text \<open>\<^verbatim>\<open>exitScope\<close>; its assertion fails when the current scope has no parent.\<close>

definition exitScope :: "NameResolver \<Rightarrow> NameResolver" where
  "exitScope R =
     (case r_scopes R of
        child # parent # rest \<Rightarrow>
          R\<lparr>r_scopes := Scope (scope_name parent) (symbols parent) (children parent @ [child]) # rest\<rparr>
      | _ \<Rightarrow> R)"

definition r_emitError :: "SourceLocation \<Rightarrow> string \<Rightarrow> NameResolver \<Rightarrow> NameResolver" where
  "r_emitError loc msg R = R\<lparr>r_diag := emitError loc msg (r_diag R)\<rparr>"

text \<open>\<^verbatim>\<open>currentScope_->insert(name, symb)\<close> whose result is ignored.\<close>

definition r_insert :: "string \<Rightarrow> Symbol \<Rightarrow> NameResolver \<Rightarrow> NameResolver" where
  "r_insert name symb R = R\<lparr>r_scopes := snd (insert_symbol name symb (r_scopes R))\<rparr>"

text \<open>
  \<^verbatim>\<open>if (!currentScope_->insert(name, symb)) diag_.emitError(loc, msg);\<close>
\<close>

definition r_insert_or_error ::
  "string \<Rightarrow> Symbol \<Rightarrow> SourceLocation \<Rightarrow> string \<Rightarrow> NameResolver \<Rightarrow> NameResolver" where
  "r_insert_or_error name symb loc msg R =
     (case insert_symbol name symb (r_scopes R) of
        (inserted, chain) \<Rightarrow>
          if \<not> inserted then r_emitError loc msg (R\<lparr>r_scopes := chain\<rparr>)
          else R\<lparr>r_scopes := chain\<rparr>)"

definition quoted :: "string \<Rightarrow> string" where
  "quoted name = [CHR 0x27] @ name @ [CHR 0x27]"

definition variableSymbol :: "string \<Rightarrow> SourceLocation \<Rightarrow> bool \<Rightarrow> Symbol" where
  "variableSymbol name loc mutable =
     Symbol_default\<lparr>sym_name := name, sym_kind := SymVariable, sym_location := loc,
                    sym_isMutable := mutable\<rparr>"

text \<open>The loop of \<^verbatim>\<open>ClosureExpr\<close> over its parameters; their symbols have no location.\<close>

fun insertClosureParams :: "ClosureParam list \<Rightarrow> NameResolver \<Rightarrow> NameResolver" where
  "insertClosureParams [] R = R"
| "insertClosureParams (ClosureParam name ty # ps) R =
     insertClosureParams ps (r_insert name (variableSymbol name SourceLocation_default False) R)"

text \<open>
  \<^verbatim>\<open>resolveExpr\<close> and \<^verbatim>\<open>resolveStmt\<close>. The functions on lists are the \<^verbatim>\<open>for\<close> loops of the
  source, and \<open>resolveExprOpt\<close> is \<^verbatim>\<open>if (p) resolveExpr(*p);\<close>. The last equations of each
  are the \<^verbatim>\<open>default\<close> branch of its \<^verbatim>\<open>switch\<close>.
\<close>

fun resolveExpr :: "Expr \<Rightarrow> NameResolver \<Rightarrow> NameResolver"
  and resolveExprs :: "Expr list \<Rightarrow> NameResolver \<Rightarrow> NameResolver"
  and resolveExprOpt :: "Expr option \<Rightarrow> NameResolver \<Rightarrow> NameResolver"
  and resolveFields :: "FieldInit list \<Rightarrow> NameResolver \<Rightarrow> NameResolver"
  and resolveArms :: "MatchArm list \<Rightarrow> NameResolver \<Rightarrow> NameResolver"
  and resolveStmt :: "Stmt \<Rightarrow> NameResolver \<Rightarrow> NameResolver"
  and resolveStmts :: "Stmt list \<Rightarrow> NameResolver \<Rightarrow> NameResolver"
  and resolveStmtOpt :: "Stmt option \<Rightarrow> NameResolver \<Rightarrow> NameResolver" where
  "resolveExpr (IdentExpr loc name) R =
     (if lookup (r_scopes R) name = None
      then r_emitError loc (''use of undeclared identifier '' @ quoted name) R
      else R)"
| "resolveExpr (BinaryExpr loc op lhs rhs) R = resolveExpr rhs (resolveExpr lhs R)"
| "resolveExpr (UnaryExpr loc op operand) R = resolveExpr operand R"
| "resolveExpr (CallExpr loc callee arguments) R = resolveExprs arguments (resolveExpr callee R)"
| "resolveExpr (MethodCallExpr loc object method arguments) R =
     resolveExprs arguments (resolveExpr object R)"
| "resolveExpr (MemberAccessExpr loc object member) R = resolveExpr object R"
| "resolveExpr (IndexExpr loc object index) R = resolveExpr index (resolveExpr object R)"
| "resolveExpr (BlockExpr loc statements finalExpr) R =
     exitScope (resolveExprOpt finalExpr (resolveStmts statements (enterScope ''block_expr'' R)))"
| "resolveExpr (IfExpr loc condition thenExpr elseExpr) R =
     resolveExprOpt elseExpr (resolveExpr thenExpr (resolveExpr condition R))"
| "resolveExpr (ClosureExpr loc params returnType body isMoveCapture) R =
     exitScope (resolveExpr body (insertClosureParams params (enterScope ''closure'' R)))"
| "resolveExpr (AssignExpr loc target val) R = resolveExpr val (resolveExpr target R)"
| "resolveExpr (CompoundAssignExpr loc op target val) R = resolveExpr val (resolveExpr target R)"
| "resolveExpr (CastExpr loc e targetType) R = resolveExpr e R"
| "resolveExpr (TupleExpr loc elements) R = resolveExprs elements R"
| "resolveExpr (ArrayExpr loc elements) R = resolveExprs elements R"
| "resolveExpr (RefExpr loc operand) R = resolveExpr operand R"
| "resolveExpr (MutRefExpr loc operand) R = resolveExpr operand R"
| "resolveExpr (MoveExpr loc operand) R = resolveExpr operand R"
| "resolveExpr (AwaitExpr loc operand) R = resolveExpr operand R"
| "resolveExpr (TryExpr loc operand) R = resolveExpr operand R"
| "resolveExpr (RangeExpr loc rangeStart rangeEnd inclusive) R =
     resolveExprOpt rangeEnd (resolveExprOpt rangeStart R)"
| "resolveExpr (ConstructExpr loc typePath fieldInits) R =
     resolveFields fieldInits (resolveExprOpt typePath R)"
| "resolveExpr (MatchExpr loc scrutinee arms) R = resolveArms arms (resolveExpr scrutinee R)"
| "resolveExpr (IntLiteralExpr loc v) R = R"
| "resolveExpr (FloatLiteralExpr loc v) R = R"
| "resolveExpr (StringLiteralExpr loc v) R = R"
| "resolveExpr (CharLiteralExpr loc v) R = R"
| "resolveExpr (BoolLiteralExpr loc v) R = R"
| "resolveExpr (PathExpr loc segments) R = R"
| "resolveExpr (StructLiteralExpr loc typeName fieldInits) R = R"
| "resolveExprs [] R = R"
| "resolveExprs (e # es) R = resolveExprs es (resolveExpr e R)"
| "resolveExprOpt None R = R"
| "resolveExprOpt (Some e) R = resolveExpr e R"
| "resolveFields [] R = R"
| "resolveFields (FieldInit name val # fs) R = resolveFields fs (resolveExpr val R)"
| "resolveArms [] R = R"
| "resolveArms (MatchArm pattern guard body # arms) R =
     resolveArms arms (exitScope (resolveExpr body (enterScope ''match_arm'' R)))"
| "resolveStmt (LetStmt loc name ty initializer isMutable) R =
     r_insert_or_error name (variableSymbol name loc isMutable) loc
       (''redefinition of variable '' @ quoted name)
       (resolveExprOpt initializer R)"
| "resolveStmt (ConstStmt loc name ty val) R =
     r_insert_or_error name (variableSymbol name loc False) loc
       (''redefinition of constant '' @ quoted name)
       (resolveExprOpt val R)"
| "resolveStmt (ReturnStmt loc val) R = resolveExprOpt val R"
| "resolveStmt (IfStmt loc condition thenBranch elseBranch) R =
     resolveStmtOpt elseBranch (resolveStmt thenBranch (resolveExpr condition R))"
| "resolveStmt (ForStmt loc varName varType iterable body) R =
     exitScope (resolveStmt body
       (r_insert varName (variableSymbol varName loc False)
          (enterScope ''for'' (resolveExpr iterable R))))"
| "resolveStmt (WhileStmt loc condition body) R = resolveStmt body (resolveExpr condition R)"
| "resolveStmt (LoopStmt loc body) R = resolveStmt body R"
| "resolveStmt (BlockStmt loc statements) R =
     exitScope (resolveStmts statements (enterScope ''block'' R))"
| "resolveStmt (ExprStmt loc expression) R = resolveExpr expression R"
| "resolveStmt (MatchStmt loc scrutinee arms) R = resolveExpr scrutinee R"
| "resolveStmt (BreakStmt loc) R = R"
| "resolveStmt (ContinueStmt loc) R = R"
| "resolveStmts [] R = R"
| "resolveStmts (s # ss) R = resolveStmts ss (resolveStmt s R)"
| "resolveStmtOpt None R = R"
| "resolveStmtOpt (Some s) R = resolveStmt s R"

subsection \<open>Declarations\<close>

definition declSymbol :: "string \<Rightarrow> SymbolKind \<Rightarrow> Visibility \<Rightarrow> SourceLocation \<Rightarrow> Symbol" where
  "declSymbol name k vis loc =
     Symbol_default\<lparr>sym_location := loc, sym_name := name, sym_kind := k, sym_visibility := vis\<rparr>"

text \<open>
  \<^verbatim>\<open>registerDecl\<close>. \<^verbatim>\<open>resolveTrait\<close> calls it on the methods of a trait, which are function
  declarations; \<open>registerFunc\<close> is its \<^verbatim>\<open>Func\<close> branch.
\<close>

definition registerNamed ::
  "string \<Rightarrow> SymbolKind \<Rightarrow> Visibility \<Rightarrow> SourceLocation \<Rightarrow> NameResolver \<Rightarrow> NameResolver" where
  "registerNamed name k vis loc R =
     r_insert_or_error name (declSymbol name k vis loc) loc (''redefinition of '' @ quoted name) R"

definition registerFunc :: "FuncDecl \<Rightarrow> NameResolver \<Rightarrow> NameResolver" where
  "registerFunc fd R = registerNamed (f_name fd) SymFunction (f_visibility fd) (f_location fd) R"

fun registerDecl :: "Decl \<Rightarrow> NameResolver \<Rightarrow> NameResolver" where
  "registerDecl (Func fd) R = registerFunc fd R"
| "registerDecl (StructDecl loc vis name gps fds) R = registerNamed name SymStruct vis loc R"
| "registerDecl (ClassDecl loc vis name gps fds methods) R = registerNamed name SymClass vis loc R"
| "registerDecl (EnumDecl loc vis name gps variants) R = registerNamed name SymEnum vis loc R"
| "registerDecl (TraitDecl loc vis name gps methods) R = registerNamed name SymTrait vis loc R"
| "registerDecl (TypeAliasDecl loc vis name gps aliased) R = registerNamed name SymTypeAlias vis loc R"
| "registerDecl (ModuleDecl loc path) R = R"
| "registerDecl (ImportDecl loc path alias) R = R"
| "registerDecl (ImplDecl loc vis target traitName gps methods) R = R"

fun insertGenericParams :: "GenericParam list \<Rightarrow> SourceLocation \<Rightarrow> NameResolver \<Rightarrow> NameResolver" where
  "insertGenericParams [] loc R = R"
| "insertGenericParams (gp # gps) loc R =
     insertGenericParams gps loc
       (r_insert (gp_name gp)
          (Symbol_default\<lparr>sym_name := gp_name gp, sym_kind := SymGenericParam, sym_location := loc\<rparr>) R)"

fun insertParams :: "FuncParam list \<Rightarrow> SourceLocation \<Rightarrow> NameResolver \<Rightarrow> NameResolver" where
  "insertParams [] loc R = R"
| "insertParams (p # ps) loc R =
     insertParams ps loc (r_insert (p_name p) (variableSymbol (p_name p) loc False) R)"

definition resolveFunc :: "FuncDecl \<Rightarrow> NameResolver \<Rightarrow> NameResolver" where
  "resolveFunc decl R =
     (let R1 = enterScope (f_name decl) R;
          R2 = insertGenericParams (f_genericParams decl) (f_location decl) R1;
          R3 = insertParams (f_params decl) (f_location decl) R2;
          R4 = (case f_body decl of Some statements \<Rightarrow> resolveStmts statements R3 | None \<Rightarrow> R3)
      in exitScope R4)"

fun resolveFuncs :: "FuncDecl list \<Rightarrow> NameResolver \<Rightarrow> NameResolver" where
  "resolveFuncs [] R = R"
| "resolveFuncs (m # ms) R = resolveFuncs ms (resolveFunc m R)"

fun registerFuncs :: "FuncDecl list \<Rightarrow> NameResolver \<Rightarrow> NameResolver" where
  "registerFuncs [] R = R"
| "registerFuncs (m # ms) R = registerFuncs ms (registerFunc m R)"

text \<open>
  The loop of \<^verbatim>\<open>resolveEnum\<close>: a variant is inserted under its own name, with the
  qualified name in the symbol.
\<close>

fun insertVariants :: "EnumVariant list \<Rightarrow> string \<Rightarrow> SourceLocation \<Rightarrow> NameResolver \<Rightarrow> NameResolver" where
  "insertVariants [] enumName loc R = R"
| "insertVariants (v # vs) enumName loc R =
     insertVariants vs enumName loc
       (r_insert (v_name v)
          (Symbol_default\<lparr>sym_name := enumName @ ''::'' @ v_name v, sym_kind := SymEnumVariant,
                          sym_location := loc\<rparr>) R)"

text \<open>\<^verbatim>\<open>resolveDecl\<close> with the helper of each kind of declaration in its place.\<close>

fun resolveDecl :: "Decl \<Rightarrow> NameResolver \<Rightarrow> NameResolver" where
  "resolveDecl (ModuleDecl loc path) R = R"
| "resolveDecl (ImportDecl loc path alias) R = R"
| "resolveDecl (Func fd) R = resolveFunc fd R"
| "resolveDecl (StructDecl loc vis name gps fds) R =
     exitScope (insertGenericParams gps loc (enterScope name R))"
| "resolveDecl (ClassDecl loc vis name gps fds methods) R =
     exitScope (resolveFuncs methods (insertGenericParams gps loc (enterScope name R)))"
| "resolveDecl (EnumDecl loc vis name gps variants) R = insertVariants variants name loc R"
| "resolveDecl (TraitDecl loc vis name gps methods) R =
     exitScope (registerFuncs methods (enterScope name R))"
| "resolveDecl (ImplDecl loc vis target traitName gps methods) R =
     exitScope (resolveFuncs methods (enterScope ''impl'' R))"
| "resolveDecl (TypeAliasDecl loc vis name gps aliased) R = R"

fun registerDecls :: "Decl list \<Rightarrow> NameResolver \<Rightarrow> NameResolver" where
  "registerDecls [] R = R"
| "registerDecls (d # ds) R = registerDecls ds (registerDecl d R)"

fun resolveDecls :: "Decl list \<Rightarrow> NameResolver \<Rightarrow> NameResolver" where
  "resolveDecls [] R = R"
| "resolveDecls (d # ds) R = resolveDecls ds (resolveDecl d R)"

text \<open>\<^verbatim>\<open>NameResolver::resolve\<close>: register every top-level declaration, then resolve each.\<close>

definition resolve :: "Module \<Rightarrow> NameResolver \<Rightarrow> NameResolver" where
  "resolve module R = resolveDecls (declarations module) (registerDecls (declarations module) R)"

text \<open>The constructor: the resolver starts in the global scope it is given.\<close>

definition NameResolver_init :: "DiagnosticEngine \<Rightarrow> Scope \<Rightarrow> NameResolver" where
  "NameResolver_init D globalScope = \<lparr>r_diag = D, r_scopes = [globalScope]\<rparr>"

section \<open>Type checker\<close>

text \<open>
  \<^verbatim>\<open>TypeChecker::typeToString\<close>. The base of a generic type is a named type, kept as its
  path.
\<close>

fun joinPath :: "string list \<Rightarrow> string" where
  "joinPath [] = []"
| "joinPath [p] = p"
| "joinPath (p # q # ps) = p @ ''::'' @ joinPath (q # ps)"


text \<open>
  \<^verbatim>\<open>TypeChecker::typesCompatible\<close> compares two type names given as strings. The three
  \<^verbatim>\<open>if\<close> statements of the source are kept in their order.
\<close>

definition typesCompatible :: "string \<Rightarrow> string \<Rightarrow> bool" where
  "typesCompatible expected actual =
     (if expected = actual then True
      else if actual = ''Int64'' \<and>
              (expected = ''Int8'' \<or> expected = ''Int16'' \<or> expected = ''Int32'' \<or>
               expected = ''UInt8'' \<or> expected = ''UInt16'' \<or> expected = ''UInt32'' \<or>
               expected = ''UInt64'') then True
      else if actual = ''Float64'' \<and> expected = ''Float32'' then True
      else False)"

text \<open>
  \<^verbatim>\<open>class TypeChecker\<close>: the engine behind \<^verbatim>\<open>diag_\<close>, the global scope behind \<^verbatim>\<open>scope_\<close>, the
  set of known type names and the return type of the function being checked.
\<close>

record TypeChecker =
  t_diag :: DiagnosticEngine
  t_scope :: Scope
  knownTypes :: "string set"
  currentReturnType :: string




definition t_emitError :: "SourceLocation \<Rightarrow> string \<Rightarrow> TypeChecker \<Rightarrow> TypeChecker" where
  "t_emitError loc msg T = T\<lparr>t_diag := emitError loc msg (t_diag T)\<rparr>"

text \<open>\<^verbatim>\<open>checkIdentExpr\<close>: \<^verbatim>\<open>scope_\<close> is the global scope, which has no parent.\<close>

definition checkIdentExpr :: "string \<Rightarrow> TypeChecker \<Rightarrow> string" where
  "checkIdentExpr name T =
     (case lookup [t_scope T] name of
        Some symb \<Rightarrow> if sym_typeName symb \<noteq> [] then sym_typeName symb else []
      | None \<Rightarrow> [])"

definition isComparisonOrLogical :: "BinaryOp \<Rightarrow> bool" where
  "isComparisonOrLogical op =
     (op = EqualOp \<or> op = NotEqualOp \<or> op = LessOp \<or> op = LessEqualOp \<or> op = GreaterOp \<or>
      op = GreaterEqualOp \<or> op = AndOp \<or> op = OrOp)"

text \<open>
  \<^verbatim>\<open>checkExpr\<close> with \<^verbatim>\<open>checkBinaryExpr\<close> and \<^verbatim>\<open>checkCallExpr\<close> in their places; it returns the
  type name, empty when unknown. The last equation is the \<^verbatim>\<open>default\<close> branch.
\<close>

fun checkExpr :: "Expr \<Rightarrow> TypeChecker \<Rightarrow> string \<times> TypeChecker"
  and checkArgs :: "Expr list \<Rightarrow> TypeChecker \<Rightarrow> TypeChecker" where
  "checkExpr (IntLiteralExpr loc v) T = (''Int64'', T)"
| "checkExpr (FloatLiteralExpr loc v) T = (''Float64'', T)"
| "checkExpr (StringLiteralExpr loc v) T = (''String'', T)"
| "checkExpr (CharLiteralExpr loc v) T = (''Char'', T)"
| "checkExpr (BoolLiteralExpr loc v) T = (''Bool'', T)"
| "checkExpr (IdentExpr loc name) T = (checkIdentExpr name T, T)"
| "checkExpr (BinaryExpr loc op lhs rhs) T =
     (case checkExpr lhs T of
        (lhsType, T1) \<Rightarrow>
          (case checkExpr rhs T1 of
             (rhsType, T2) \<Rightarrow>
               if isComparisonOrLogical op then (''Bool'', T2)
               else
                 (let T3 = (if lhsType \<noteq> [] \<and> rhsType \<noteq> [] \<and> \<not> typesCompatible lhsType rhsType
                            then t_emitError loc
                                   (''binary expression type mismatch: '' @ quoted lhsType @
                                    '' vs '' @ quoted rhsType) T2
                            else T2)
                  in (if lhsType = [] then rhsType else lhsType, T3))))"
| "checkExpr (CallExpr loc callee arguments) T =
     ([], checkArgs arguments (snd (checkExpr callee T)))"
| "checkExpr e T = ([], T)"
| "checkArgs [] T = T"
| "checkArgs (a # as) T = checkArgs as (snd (checkExpr a T))"













section \<open>Semantic analysis and the driver\<close>

text \<open>
  \<^verbatim>\<open>class Sema\<close> owns the global scope and refers to the engine. \<^verbatim>\<open>Sema::analyze\<close> runs the
  resolver, returns \<^verbatim>\<open>false\<close> at once if the error count has grown, and runs the type
  checker otherwise. When the resolver returns, its current scope is the global scope
  again, the last of its chain.
\<close>

record Sema =
  s_diag :: DiagnosticEngine
  globalScope :: Scope





subsection \<open>Example modules\<close>


definition messages :: "DiagnosticEngine \<Rightarrow> string list" where
  "messages D = map message (diagnostics D)"

subsection \<open>What a scope chain holds\<close>

text \<open>
  \<open>declaredIn S x\<close>: the symbol table of the scope \<open>S\<close> has the key \<open>x\<close>. The scopes that
  enclose a statement are those of the chain: the current scope and its ancestors.
  \<^verbatim>\<open>Scope::lookup\<close> fails exactly when none of them declares the name, and otherwise
  answers with the entry of the innermost scope that does; \<^verbatim>\<open>Scope::insert\<close> adds the entry
  to the current scope exactly when that scope does not declare the name yet.
\<close>

definition declaredIn :: "Scope \<Rightarrow> string \<Rightarrow> bool" where
  "declaredIn S x = (x \<in> fst ` set (symbols S))"

lemma map_of_declaredIn: "(map_of (symbols S) x = None) = (\<not> declaredIn S x)"
  by (simp add: declaredIn_def map_of_eq_None_iff)

lemma lookup_None_iff: "(lookup chain x = None) = (\<forall>S \<in> set chain. \<not> declaredIn S x)"
proof (induction chain)
  case Nil
  show ?case by simp
next
  case (Cons s parents)
  show ?case
  proof (cases "map_of (symbols s) x")
    case None
    then show ?thesis using Cons.IH map_of_declaredIn [of s x] by simp
  next
    case (Some symb)
    then show ?thesis using map_of_declaredIn [of s x] by auto
  qed
qed

lemma lookup_innermost:
  assumes "lookup chain x = Some symb"
  shows "\<exists>inner S outer. chain = inner @ S # outer \<and> (\<forall>S' \<in> set inner. \<not> declaredIn S' x) \<and>
           map_of (symbols S) x = Some symb"
  using assms
proof (induction chain)
  case Nil
  then show ?case by simp
next
  case (Cons s parents)
  show ?case
  proof (cases "map_of (symbols s) x")
    case None
    then have "lookup parents x = Some symb" using Cons.prems by simp
    from Cons.IH [OF this] obtain inner S outer where
      c: "parents = inner @ S # outer" and n: "\<forall>S' \<in> set inner. \<not> declaredIn S' x"
      and m: "map_of (symbols S) x = Some symb" by blast
    have "s # parents = (s # inner) @ S # outer" using c by simp
    moreover have "\<forall>S' \<in> set (s # inner). \<not> declaredIn S' x"
      using n None map_of_declaredIn [of s x] by simp
    ultimately show ?thesis using m by blast
  next
    case (Some old)
    then have "old = symb" using Cons.prems by simp
    then have "s # parents = [] @ s # parents \<and> (\<forall>S' \<in> set []. \<not> declaredIn S' x) \<and>
                 map_of (symbols s) x = Some symb"
      using Some by simp
    then show ?thesis by blast
  qed
qed

lemma insert_symbol_contents:
  "insert_symbol x symb (cur # parents) =
     (if declaredIn cur x then (False, cur # parents)
      else (True, Scope (scope_name cur) (symbols cur @ [(x, symb)]) (children cur) # parents))"
  using map_of_declaredIn [of cur x] by (cases "map_of (symbols cur) x") auto

lemma messages_emitError: "messages (emitError loc msg D) = messages D @ [msg]"
  by (simp add: messages_def emitError_def emit_def)

lemma r_insert_or_error_contents:
  assumes "r_scopes R = cur # parents"
  shows "r_scopes (r_insert_or_error x symb loc msg R) =
           (if declaredIn cur x then cur # parents
            else Scope (scope_name cur) (symbols cur @ [(x, symb)]) (children cur) # parents)"
    and "messages (r_diag (r_insert_or_error x symb loc msg R)) =
           messages (r_diag R) @ (if declaredIn cur x then [msg] else [])"
  using assms
  by (simp_all add: r_insert_or_error_def insert_symbol_contents r_emitError_def messages_emitError
        del: insert_symbol.simps)

subsection \<open>The loops over declarations and statements\<close>






section \<open>IR emission\<close>

subsection \<open>The LLVM objects the emitter builds\<close>

text \<open>
  The emitter drives LLVM through \<^verbatim>\<open>IRBuilder\<close>. The model keeps of LLVM what the emitter
  creates and reads back: types, values with their types, instructions in basic blocks,
  functions with their blocks in order. A basic block and a function are known by a number
  that is never used twice; a block that \<^verbatim>\<open>BasicBlock::Create\<close> makes without a parent has
  \<open>b_parent = None\<close> until \<^verbatim>\<open>Function::insert\<close> appends it. The name given to an
  instruction is the name asked for (LLVM adds a suffix to make it unique). A pointer is
  opaque, so every pointer type is \<open>PointerTy\<close>.
\<close>

datatype LType =
    VoidTy | IntegerTy nat | FloatTy | DoubleTy | PointerTy
  | StructTy "LType list" | ArrayTy LType nat

datatype Value =
    ConstantInt nat int
  | ConstantFP LType string
  | ConstantZero LType
  | ConstantAllOnes LType
  | GlobalString nat
  | FunctionRef nat
  | Argument nat nat LType
  | InstValue nat LType

fun getType :: "Value \<Rightarrow> LType" where
  "getType (ConstantInt bits v) = IntegerTy bits"
| "getType (ConstantFP ty v) = ty"
| "getType (ConstantZero ty) = ty"
| "getType (ConstantAllOnes ty) = ty"
| "getType (GlobalString s) = PointerTy"
| "getType (FunctionRef f) = PointerTy"
| "getType (Argument f i ty) = ty"
| "getType (InstValue i ty) = ty"

fun isIntegerTy :: "LType \<Rightarrow> bool" where
  "isIntegerTy (IntegerTy bits) = True"
| "isIntegerTy ty = False"

fun getIntegerBitWidth :: "LType \<Rightarrow> nat" where
  "getIntegerBitWidth (IntegerTy bits) = bits"
| "getIntegerBitWidth ty = 0"

definition isFloatingPointTy :: "LType \<Rightarrow> bool" where
  "isFloatingPointTy ty = (ty = FloatTy \<or> ty = DoubleTy)"

definition isVoidTy :: "LType \<Rightarrow> bool" where
  "isVoidTy ty = (ty = VoidTy)"

text \<open>
  \<^verbatim>\<open>Constant::getNullValue\<close> and \<^verbatim>\<open>Constant::getAllOnesValue\<close>: for an integer type the
  integer constant, for any other type the zero or all-ones constant of that type.
\<close>

fun getNullValue :: "LType \<Rightarrow> Value" where
  "getNullValue (IntegerTy bits) = ConstantInt bits 0"
| "getNullValue ty = ConstantZero ty"

fun getAllOnesValue :: "LType \<Rightarrow> Value" where
  "getAllOnesValue (IntegerTy bits) = ConstantInt bits (2 ^ bits - 1)"
| "getAllOnesValue ty = ConstantAllOnes ty"

datatype Predicate =
    ICMP_EQ | ICMP_NE | ICMP_SLT | ICMP_SLE | ICMP_SGT | ICMP_SGE
  | FCMP_OEQ | FCMP_ONE | FCMP_OLT | FCMP_OLE | FCMP_OGT | FCMP_OGE

datatype Opcode =
    Add | FAdd | Sub | FSub | Mul | FMul | SDiv | FDiv | SRem | FRem
  | And | Or | Xor | Shl | AShr | FNeg | SExt | Trunc | ICmp Predicate | FCmp Predicate

datatype Instr =
    AllocaInst nat LType string
  | StoreInst Value Value
  | LoadInst nat LType Value string
  | OpInst nat Opcode "Value list" LType string
  | CallInst nat nat "Value list" LType string
  | PHINode nat LType "(Value \<times> nat) list" string
  | BranchInst nat
  | CondBranchInst Value nat nat
  | ReturnInst "Value option"

fun isTerminator :: "Instr \<Rightarrow> bool" where
  "isTerminator (BranchInst target) = True"
| "isTerminator (CondBranchInst c t f) = True"
| "isTerminator (ReturnInst v) = True"
| "isTerminator i = False"

record BasicBlock =
  b_name :: string
  b_parent :: "nat option"
  b_instrs :: "Instr list"

text \<open>\<^verbatim>\<open>BasicBlock::getTerminator\<close>: the last instruction if it is a terminator.\<close>

definition getTerminator :: "BasicBlock \<Rightarrow> Instr option" where
  "getTerminator b =
     (if b_instrs b = [] \<or> \<not> isTerminator (last (b_instrs b)) then None
      else Some (last (b_instrs b)))"

datatype Linkage = ExternalLinkage | InternalLinkage

record LFunction =
  fn_id :: nat
  fn_name :: string
  fn_returnType :: LType
  fn_paramTypes :: "LType list"
  fn_argNames :: "string list"
  fn_linkage :: Linkage
  fn_blocks :: "nat list"

subsection \<open>TypeMapper\<close>

definition getBuiltinType :: "string \<Rightarrow> LType option" where
  "getBuiltinType =
     map_of
       [(''Int8'', IntegerTy 8), (''Int16'', IntegerTy 16), (''Int32'', IntegerTy 32),
        (''Int64'', IntegerTy 64), (''UInt8'', IntegerTy 8), (''UInt16'', IntegerTy 16),
        (''UInt32'', IntegerTy 32), (''UInt64'', IntegerTy 64),
        (''Float32'', FloatTy), (''Float64'', DoubleTy),
        (''Bool'', IntegerTy 1), (''Char'', IntegerTy 32), (''String'', PointerTy),
        (''Void'', VoidTy)]"

definition getVoidType :: LType where
  "getVoidType = VoidTy"

definition mapNamedType :: "string list \<Rightarrow> LType" where
  "mapNamedType path =
     (case path of
        [n] \<Rightarrow> (case getBuiltinType n of Some builtin \<Rightarrow> builtin | None \<Rightarrow> PointerTy)
      | _ \<Rightarrow> PointerTy)"

text \<open>
  \<^verbatim>\<open>TypeMapper::mapType\<close>. The base of a generic type is a \<^verbatim>\<open>NamedType\<close>; the function type
  that the \<^verbatim>\<open>Function\<close> case builds only serves to make a pointer.
\<close>

fun mapType :: "TypeNode \<Rightarrow> LType" where
  "mapType (NamedType path) = mapNamedType path"
| "mapType (GenericType base args) = mapNamedType base"
| "mapType (ReferenceType inner) = PointerTy"
| "mapType (MutRefType inner) = PointerTy"
| "mapType (TupleType elements) = StructTy (map mapType elements)"
| "mapType (FunctionType paramTypes returnType) = PointerTy"
| "mapType (ArrayType elementType n) =
     (case n of Some k \<Rightarrow> ArrayTy (mapType elementType) k | None \<Rightarrow> PointerTy)"
| "mapType OptionType = PointerTy"
| "mapType ResultType = PointerTy"
| "mapType InferredType = PointerTy"

subsection \<open>The emitter and its builder\<close>

text \<open>
  \<^verbatim>\<open>class IREmitter\<close> with the module and the builder it refers to: the functions and named
  struct types and global strings of the module in order, every basic block made so far (a block's number is
  its index), the block at whose end the builder inserts, the counter that numbers
  instructions, and the emitter's own \<^verbatim>\<open>namedValues_\<close> (a name to its \<^verbatim>\<open>alloca\<close> and the
  allocated type) and \<^verbatim>\<open>loopStack_\<close> (a vector: the innermost loop is the last).
\<close>

record LoopContext =
  breakBlock :: nat
  continueBlock :: nat

record IREmitter =
  e_diag :: DiagnosticEngine
  e_functions :: "LFunction list"
  e_nextFunction :: nat
  e_structs :: "(string \<times> LType list) list"
  e_globals :: "string list"
  e_blocks :: "BasicBlock list"
  e_insertBlock :: nat
  e_nextValue :: nat
  e_namedValues :: "string \<rightharpoonup> (Value \<times> LType)"
  e_loopStack :: "LoopContext list"

definition IREmitter_init :: "DiagnosticEngine \<Rightarrow> IREmitter" where
  "IREmitter_init D =
     \<lparr>e_diag = D, e_functions = [], e_nextFunction = 0, e_structs = [], e_globals = [], e_blocks = [],
      e_insertBlock = 0, e_nextValue = 0, e_namedValues = Map.empty, e_loopStack = []\<rparr>"

definition e_emitError :: "SourceLocation \<Rightarrow> string \<Rightarrow> IREmitter \<Rightarrow> IREmitter" where
  "e_emitError loc msg E = E\<lparr>e_diag := emitError loc msg (e_diag E)\<rparr>"

text \<open>
  \<^verbatim>\<open>Module::getFunction\<close> looks the name up in the symbol table of the module, which holds
  no empty name; of two functions created under one name LLVM renames the second, so the
  first is the one found.
\<close>

definition getFunction :: "string \<Rightarrow> IREmitter \<Rightarrow> LFunction option" where
  "getFunction name E =
     (if name = [] then None else find (\<lambda>f. fn_name f = name) (e_functions E))"

definition functionById :: "nat \<Rightarrow> IREmitter \<Rightarrow> LFunction option" where
  "functionById i E = find (\<lambda>f. fn_id f = i) (e_functions E)"

definition GetInsertBlock :: "IREmitter \<Rightarrow> BasicBlock" where
  "GetInsertBlock E = e_blocks E ! e_insertBlock E"

definition SetInsertPoint :: "nat \<Rightarrow> IREmitter \<Rightarrow> IREmitter" where
  "SetInsertPoint bb E = E\<lparr>e_insertBlock := bb\<rparr>"

definition hasTerminator :: "IREmitter \<Rightarrow> bool" where
  "hasTerminator E = (getTerminator (GetInsertBlock E) \<noteq> None)"

text \<open>
  \<^verbatim>\<open>BasicBlock::Create(ctx, name, parent)\<close> appends the new block to \<open>parent\<close> if there is
  one; \<^verbatim>\<open>func->insert(func->end(), bb)\<close> appends a block made without a parent.
\<close>

definition appendBlock :: "nat \<Rightarrow> nat \<Rightarrow> LFunction list \<Rightarrow> LFunction list" where
  "appendBlock func bb fs =
     map (\<lambda>f. if fn_id f = func then f\<lparr>fn_blocks := fn_blocks f @ [bb]\<rparr> else f) fs"

definition BasicBlock_Create :: "string \<Rightarrow> nat option \<Rightarrow> IREmitter \<Rightarrow> nat \<times> IREmitter" where
  "BasicBlock_Create name parent E =
     (let bb = length (e_blocks E);
          E1 = E\<lparr>e_blocks := e_blocks E @ [\<lparr>b_name = name, b_parent = parent, b_instrs = []\<rparr>]\<rparr>
      in (bb, case parent of
                Some func \<Rightarrow> E1\<lparr>e_functions := appendBlock func bb (e_functions E1)\<rparr>
              | None \<Rightarrow> E1))"

definition setParent :: "nat option \<Rightarrow> BasicBlock \<Rightarrow> BasicBlock" where
  "setParent parent b = b\<lparr>b_parent := parent\<rparr>"

definition Function_insert :: "nat option \<Rightarrow> nat \<Rightarrow> IREmitter \<Rightarrow> IREmitter" where
  "Function_insert parent bb E =
     (case parent of
        Some func \<Rightarrow>
          E\<lparr>e_blocks := (e_blocks E)[bb := setParent parent (e_blocks E ! bb)],
            e_functions := appendBlock func bb (e_functions E)\<rparr>
      | None \<Rightarrow> E)"

text \<open>The builder inserts at the end of its block.\<close>

definition appendInstr :: "Instr \<Rightarrow> BasicBlock \<Rightarrow> BasicBlock" where
  "appendInstr i b = b\<lparr>b_instrs := b_instrs b @ [i]\<rparr>"

definition Insert :: "Instr \<Rightarrow> IREmitter \<Rightarrow> IREmitter" where
  "Insert i E =
     E\<lparr>e_blocks := (e_blocks E)[e_insertBlock E := appendInstr i (GetInsertBlock E)]\<rparr>"

definition CreateBr :: "nat \<Rightarrow> IREmitter \<Rightarrow> IREmitter" where
  "CreateBr dest E = Insert (BranchInst dest) E"

definition CreateCondBr :: "Value \<Rightarrow> nat \<Rightarrow> nat \<Rightarrow> IREmitter \<Rightarrow> IREmitter" where
  "CreateCondBr c t f E = Insert (CondBranchInst c t f) E"

definition CreateRet :: "Value \<Rightarrow> IREmitter \<Rightarrow> IREmitter" where
  "CreateRet v E = Insert (ReturnInst (Some v)) E"

definition CreateRetVoid :: "IREmitter \<Rightarrow> IREmitter" where
  "CreateRetVoid E = Insert (ReturnInst None) E"

definition CreateStore :: "Value \<Rightarrow> Value \<Rightarrow> IREmitter \<Rightarrow> IREmitter" where
  "CreateStore v ptr E = Insert (StoreInst v ptr) E"

definition CreateLoad :: "LType \<Rightarrow> Value \<Rightarrow> string \<Rightarrow> IREmitter \<Rightarrow> Value \<times> IREmitter" where
  "CreateLoad ty ptr name E =
     (InstValue (e_nextValue E) ty,
      Insert (LoadInst (e_nextValue E) ty ptr name) (E\<lparr>e_nextValue := e_nextValue E + 1\<rparr>))"

text \<open>
  The arithmetic, comparison and cast functions of \<^verbatim>\<open>IRBuilder\<close> first ask the builder's
  folder, which may answer with a constant; only otherwise is an instruction inserted.
  What the folder of LLVM answers is not part of this repository: \<open>folder\<close> is a parameter
  of the emitter.
\<close>

type_synonym Folder = "Opcode \<Rightarrow> Value list \<Rightarrow> Value option"

definition CreateOp ::
  "Folder \<Rightarrow> Opcode \<Rightarrow> Value list \<Rightarrow> LType \<Rightarrow> string \<Rightarrow> IREmitter \<Rightarrow> Value \<times> IREmitter" where
  "CreateOp folder opc operands ty name E =
     (case folder opc operands of
        Some v \<Rightarrow> (v, E)
      | None \<Rightarrow>
          (InstValue (e_nextValue E) ty,
           Insert (OpInst (e_nextValue E) opc operands ty name)
             (E\<lparr>e_nextValue := e_nextValue E + 1\<rparr>)))"

definition CreateBinOp ::
  "Folder \<Rightarrow> Opcode \<Rightarrow> Value \<Rightarrow> Value \<Rightarrow> string \<Rightarrow> IREmitter \<Rightarrow> Value \<times> IREmitter" where
  "CreateBinOp folder opc lhs rhs name E = CreateOp folder opc [lhs, rhs] (getType lhs) name E"

definition CreateCmp ::
  "Folder \<Rightarrow> Opcode \<Rightarrow> Value \<Rightarrow> Value \<Rightarrow> string \<Rightarrow> IREmitter \<Rightarrow> Value \<times> IREmitter" where
  "CreateCmp folder opc lhs rhs name E = CreateOp folder opc [lhs, rhs] (IntegerTy 1) name E"

definition CreateCast ::
  "Folder \<Rightarrow> Opcode \<Rightarrow> Value \<Rightarrow> LType \<Rightarrow> string \<Rightarrow> IREmitter \<Rightarrow> Value \<times> IREmitter" where
  "CreateCast folder opc v destTy name E =
     (if getType v = destTy then (v, E) else CreateOp folder opc [v] destTy name E)"

definition CreateNeg :: "Folder \<Rightarrow> Value \<Rightarrow> string \<Rightarrow> IREmitter \<Rightarrow> Value \<times> IREmitter" where
  "CreateNeg folder v name E = CreateBinOp folder Sub (getNullValue (getType v)) v name E"

definition CreateNot :: "Folder \<Rightarrow> Value \<Rightarrow> string \<Rightarrow> IREmitter \<Rightarrow> Value \<times> IREmitter" where
  "CreateNot folder v name E = CreateBinOp folder Xor v (getAllOnesValue (getType v)) name E"

definition CreateFNeg :: "Folder \<Rightarrow> Value \<Rightarrow> string \<Rightarrow> IREmitter \<Rightarrow> Value \<times> IREmitter" where
  "CreateFNeg folder v name E = CreateOp folder FNeg [v] (getType v) name E"

definition CreateCall :: "LFunction \<Rightarrow> Value list \<Rightarrow> string \<Rightarrow> IREmitter \<Rightarrow> Value \<times> IREmitter" where
  "CreateCall callee args name E =
     (InstValue (e_nextValue E) (fn_returnType callee),
      Insert (CallInst (e_nextValue E) (fn_id callee) args (fn_returnType callee) name)
        (E\<lparr>e_nextValue := e_nextValue E + 1\<rparr>))"

definition CreatePHI :: "LType \<Rightarrow> (Value \<times> nat) list \<Rightarrow> string \<Rightarrow> IREmitter \<Rightarrow> Value \<times> IREmitter" where
  "CreatePHI ty incoming name E =
     (InstValue (e_nextValue E) ty,
      Insert (PHINode (e_nextValue E) ty incoming name) (E\<lparr>e_nextValue := e_nextValue E + 1\<rparr>))"

text \<open>
  \<^verbatim>\<open>createEntryBlockAlloca\<close> puts the \<^verbatim>\<open>alloca\<close> in front of the first instruction of the
  entry block, the first block of the function. The source reaches the function through
  the parent of the insertion block; the emitter is only ever positioned in a block of a
  function with an entry block, and where there is none the model inserts nothing.
\<close>

definition getEntryBlock :: "nat option \<Rightarrow> IREmitter \<Rightarrow> nat option" where
  "getEntryBlock parent E =
     (case parent of
        None \<Rightarrow> None
      | Some func \<Rightarrow>
          (case functionById func E of
             None \<Rightarrow> None
           | Some f \<Rightarrow> (case fn_blocks f of [] \<Rightarrow> None | entry # bs \<Rightarrow> Some entry)))"

definition prependInstr :: "Instr \<Rightarrow> BasicBlock \<Rightarrow> BasicBlock" where
  "prependInstr i b = b\<lparr>b_instrs := i # b_instrs b\<rparr>"

definition createEntryBlockAlloca ::
  "nat option \<Rightarrow> string \<Rightarrow> LType \<Rightarrow> IREmitter \<Rightarrow> Value \<times> IREmitter" where
  "createEntryBlockAlloca func name ty E =
     (InstValue (e_nextValue E) PointerTy,
      case getEntryBlock func E of
        Some entry \<Rightarrow>
          E\<lparr>e_nextValue := e_nextValue E + 1,
            e_blocks := (e_blocks E)[entry :=
                          prependInstr (AllocaInst (e_nextValue E) ty name) (e_blocks E ! entry)]\<rparr>
      | None \<Rightarrow> E\<lparr>e_nextValue := e_nextValue E + 1\<rparr>)"

definition getParent :: "IREmitter \<Rightarrow> nat option" where
  "getParent E = b_parent (GetInsertBlock E)"

definition CreateGlobalString :: "string \<Rightarrow> IREmitter \<Rightarrow> Value \<times> IREmitter" where
  "CreateGlobalString s E =
     (GlobalString (length (e_globals E)), E\<lparr>e_globals := e_globals E @ [s]\<rparr>)"

subsection \<open>Expressions and statements\<close>

text \<open>
  The parts of \<^verbatim>\<open>emitBinaryExpr\<close> after both operands are there: the widening of the
  narrower integer operand, and the \<^verbatim>\<open>switch\<close> on the operator, given as the table of the
  opcode and name each operator asks for.
\<close>

definition coerceOperands ::
  "Folder \<Rightarrow> Value \<Rightarrow> Value \<Rightarrow> IREmitter \<Rightarrow> Value \<times> Value \<times> IREmitter" where
  "coerceOperands folder lhs rhs E =
     (if isIntegerTy (getType lhs) \<and> isIntegerTy (getType rhs) \<and> getType lhs \<noteq> getType rhs
      then if getIntegerBitWidth (getType lhs) > getIntegerBitWidth (getType rhs)
           then (case CreateCast folder SExt rhs (getType lhs) ''sext'' E of
                   (rhs1, E1) \<Rightarrow> (lhs, rhs1, E1))
           else (case CreateCast folder SExt lhs (getType rhs) ''sext'' E of
                   (lhs1, E1) \<Rightarrow> (lhs1, rhs, E1))
      else (lhs, rhs, E))"

fun binaryOpcode :: "BinaryOp \<Rightarrow> bool \<Rightarrow> Opcode \<times> string" where
  "binaryOpcode AddOp isFloat = (if isFloat then FAdd else Add, ''addtmp'')"
| "binaryOpcode SubOp isFloat = (if isFloat then FSub else Sub, ''subtmp'')"
| "binaryOpcode MulOp isFloat = (if isFloat then FMul else Mul, ''multmp'')"
| "binaryOpcode DivOp isFloat = (if isFloat then FDiv else SDiv, ''divtmp'')"
| "binaryOpcode ModOp isFloat = (if isFloat then FRem else SRem, ''modtmp'')"
| "binaryOpcode EqualOp isFloat = (if isFloat then FCmp FCMP_OEQ else ICmp ICMP_EQ, ''eqtmp'')"
| "binaryOpcode NotEqualOp isFloat = (if isFloat then FCmp FCMP_ONE else ICmp ICMP_NE, ''netmp'')"
| "binaryOpcode LessOp isFloat = (if isFloat then FCmp FCMP_OLT else ICmp ICMP_SLT, ''lttmp'')"
| "binaryOpcode LessEqualOp isFloat = (if isFloat then FCmp FCMP_OLE else ICmp ICMP_SLE, ''letmp'')"
| "binaryOpcode GreaterOp isFloat = (if isFloat then FCmp FCMP_OGT else ICmp ICMP_SGT, ''gttmp'')"
| "binaryOpcode GreaterEqualOp isFloat =
     (if isFloat then FCmp FCMP_OGE else ICmp ICMP_SGE, ''getmp'')"
| "binaryOpcode AndOp isFloat = (And, ''andtmp'')"
| "binaryOpcode OrOp isFloat = (Or, ''ortmp'')"
| "binaryOpcode BitAndOp isFloat = (And, ''bandtmp'')"
| "binaryOpcode BitOrOp isFloat = (Or, ''bortmp'')"
| "binaryOpcode BitXorOp isFloat = (Xor, ''bxortmp'')"
| "binaryOpcode ShiftLeftOp isFloat = (Shl, ''shltmp'')"
| "binaryOpcode ShiftRightOp isFloat = (AShr, ''ashrtmp'')"

fun isCmp :: "Opcode \<Rightarrow> bool" where
  "isCmp (ICmp p) = True"
| "isCmp (FCmp p) = True"
| "isCmp opc = False"

definition emitBinaryOp ::
  "Folder \<Rightarrow> BinaryOp \<Rightarrow> Value \<Rightarrow> Value \<Rightarrow> IREmitter \<Rightarrow> Value option \<times> IREmitter" where
  "emitBinaryOp folder op lhs0 rhs0 E =
     (case coerceOperands folder lhs0 rhs0 E of
        (lhs, rhs, E1) \<Rightarrow>
          (case binaryOpcode op (isFloatingPointTy (getType lhs)) of
             (opc, name) \<Rightarrow>
               (case (if isCmp opc then CreateCmp folder opc lhs rhs name E1
                      else CreateBinOp folder opc lhs rhs name E1) of
                  (v, E2) \<Rightarrow> (Some v, E2))))"

definition emitUnaryOp ::
  "Folder \<Rightarrow> UnaryOp \<Rightarrow> Value \<Rightarrow> IREmitter \<Rightarrow> Value option \<times> IREmitter" where
  "emitUnaryOp folder op operand E =
     (case (case op of
              NegateOp \<Rightarrow>
                if isFloatingPointTy (getType operand) then CreateFNeg folder operand ''negtmp'' E
                else CreateNeg folder operand ''negtmp'' E
            | NotOp \<Rightarrow> CreateNot folder operand ''nottmp'' E
            | BitwiseNotOp \<Rightarrow> CreateNot folder operand ''bnotmp'' E) of
        (v, E1) \<Rightarrow> (Some v, E1))"

definition emitIdent :: "SourceLocation \<Rightarrow> string \<Rightarrow> IREmitter \<Rightarrow> Value option \<times> IREmitter" where
  "emitIdent loc name E =
     (case e_namedValues E name of
        None \<Rightarrow>
          (case getFunction name E of
             Some func \<Rightarrow> (Some (FunctionRef (fn_id func)), E)
           | None \<Rightarrow> (None, e_emitError loc (''unknown variable '' @ quoted name) E))
      | Some (alloca, allocatedType) \<Rightarrow>
          (case CreateLoad allocatedType alloca name E of (v, E1) \<Rightarrow> (Some v, E1)))"

fun calleeName :: "Expr \<Rightarrow> string" where
  "calleeName (IdentExpr loc name) = name"
| "calleeName (PathExpr loc segments) = joinPath segments"
| "calleeName callee = []"

definition emitCall :: "LFunction \<Rightarrow> Value list \<Rightarrow> IREmitter \<Rightarrow> Value option \<times> IREmitter" where
  "emitCall calleeFunc args E =
     (if isVoidTy (fn_returnType calleeFunc)
      then (None, snd (CreateCall calleeFunc args [] E))
      else (case CreateCall calleeFunc args ''calltmp'' E of (v, E1) \<Rightarrow> (Some v, E1)))"

text \<open>The store of \<^verbatim>\<open>emitAssignExpr\<close>, once the value is there.\<close>

fun assignTo :: "Expr \<Rightarrow> Value \<Rightarrow> IREmitter \<Rightarrow> Value option \<times> IREmitter" where
  "assignTo (IdentExpr loc name) val E =
     (case e_namedValues E name of
        Some (alloca, allocatedType) \<Rightarrow> (Some val, CreateStore val alloca E)
      | None \<Rightarrow> (None, E))"
| "assignTo target val E = (None, E)"

text \<open>The implicit integer cast of \<^verbatim>\<open>emitLetStmt\<close>.\<close>

definition castInitializer ::
  "Folder \<Rightarrow> LType \<Rightarrow> Value \<Rightarrow> IREmitter \<Rightarrow> Value \<times> IREmitter" where
  "castInitializer folder varType initVal E =
     (if isIntegerTy varType \<and> isIntegerTy (getType initVal) \<and> varType \<noteq> getType initVal
      then if getIntegerBitWidth varType < getIntegerBitWidth (getType initVal)
           then CreateCast folder Trunc initVal varType ''trunc'' E
           else CreateCast folder SExt initVal varType ''sext'' E
      else (initVal, E))"

definition branchIfOpen :: "nat \<Rightarrow> IREmitter \<Rightarrow> IREmitter" where
  "branchIfOpen dest E = (if \<not> hasTerminator E then CreateBr dest E else E)"

definition push_loop :: "nat \<Rightarrow> nat \<Rightarrow> IREmitter \<Rightarrow> IREmitter" where
  "push_loop exitBB contBB E =
     E\<lparr>e_loopStack := e_loopStack E @ [\<lparr>breakBlock = exitBB, continueBlock = contBB\<rparr>]\<rparr>"

definition pop_loop :: "IREmitter \<Rightarrow> IREmitter" where
  "pop_loop E = E\<lparr>e_loopStack := butlast (e_loopStack E)\<rparr>"

definition phiOrThen ::
  "Value option \<Rightarrow> nat \<Rightarrow> Value option \<Rightarrow> nat \<Rightarrow> IREmitter \<Rightarrow> Value option \<times> IREmitter" where
  "phiOrThen thenVal thenBB elseVal elseBB E =
     (case (thenVal, elseVal) of
        (Some tv, Some ev) \<Rightarrow>
          if getType tv = getType ev
          then (case CreatePHI (getType tv) [(tv, thenBB), (ev, elseBB)] ''iftmp'' E of
                  (phi, E1) \<Rightarrow> (Some phi, E1))
          else (thenVal, E)
      | _ \<Rightarrow> (thenVal, E))"

text \<open>
  \<^verbatim>\<open>emitExpr\<close> and \<^verbatim>\<open>emitStmt\<close> with the \<^verbatim>\<open>emitXxx\<close> functions they dispatch to in their
  places; a null \<^verbatim>\<open>llvm::Value*\<close> is \<open>None\<close>. \<open>emitArgs\<close> is the argument loop of
  \<^verbatim>\<open>emitCallExpr\<close>, which returns at the first argument without a value, and \<open>emitStmts\<close>
  the loop of \<^verbatim>\<open>emitBlockStmt\<close>, of \<^verbatim>\<open>emitBlockExpr\<close> and of the function body.
\<close>

fun emitExpr :: "Folder \<Rightarrow> Expr \<Rightarrow> IREmitter \<Rightarrow> Value option \<times> IREmitter"
  and emitArgs :: "Folder \<Rightarrow> Expr list \<Rightarrow> IREmitter \<Rightarrow> Value list option \<times> IREmitter"
  and emitStmt :: "Folder \<Rightarrow> Stmt \<Rightarrow> IREmitter \<Rightarrow> IREmitter"
  and emitStmts :: "Folder \<Rightarrow> Stmt list \<Rightarrow> IREmitter \<Rightarrow> IREmitter" where
  "emitExpr folder (IntLiteralExpr loc v) E = (Some (ConstantInt 64 (uint v)), E)"
| "emitExpr folder (FloatLiteralExpr loc v) E = (Some (ConstantFP DoubleTy v), E)"
| "emitExpr folder (StringLiteralExpr loc v) E =
     (case CreateGlobalString v E of (s, E1) \<Rightarrow> (Some s, E1))"
| "emitExpr folder (BoolLiteralExpr loc v) E = (Some (ConstantInt 1 (if v then 1 else 0)), E)"
| "emitExpr folder (IdentExpr loc name) E = emitIdent loc name E"
| "emitExpr folder (BinaryExpr loc op lhs rhs) E =
     (case emitExpr folder lhs E of
        (l, E1) \<Rightarrow>
          (case emitExpr folder rhs E1 of
             (r, E2) \<Rightarrow>
               (case l of
                  None \<Rightarrow> (None, E2)
                | Some lv \<Rightarrow>
                    (case r of None \<Rightarrow> (None, E2) | Some rv \<Rightarrow> emitBinaryOp folder op lv rv E2))))"
| "emitExpr folder (UnaryExpr loc op operand) E =
     (case emitExpr folder operand E of
        (None, E1) \<Rightarrow> (None, E1)
      | (Some v, E1) \<Rightarrow> emitUnaryOp folder op v E1)"
| "emitExpr folder (CallExpr loc callee arguments) E =
     (case getFunction (calleeName callee) E of
        None \<Rightarrow> (None, e_emitError loc (''unknown function '' @ quoted (calleeName callee)) E)
      | Some calleeFunc \<Rightarrow>
          (case emitArgs folder arguments E of
             (None, E1) \<Rightarrow> (None, E1)
           | (Some args, E1) \<Rightarrow> emitCall calleeFunc args E1))"
| "emitExpr folder (IfExpr loc condition thenExpr elseExpr) E =
     (case emitExpr folder condition E of
        (None, E1) \<Rightarrow> (None, E1)
      | (Some condVal, E1) \<Rightarrow>
          (case BasicBlock_Create ''then'' (getParent E1) E1 of
             (thenBB, E2) \<Rightarrow>
          (case BasicBlock_Create ''else'' None E2 of
             (elseBB, E3) \<Rightarrow>
          (case BasicBlock_Create ''ifcont'' None E3 of
             (mergeBB, E4) \<Rightarrow>
          (case emitExpr folder thenExpr
                  (SetInsertPoint thenBB (CreateCondBr condVal thenBB elseBB E4)) of
             (thenVal, E5) \<Rightarrow>
          (case (case elseExpr of
                   Some e \<Rightarrow>
                     emitExpr folder e
                       (SetInsertPoint elseBB
                          (Function_insert (getParent E1) elseBB (branchIfOpen mergeBB E5)))
                 | None \<Rightarrow>
                     (None,
                      SetInsertPoint elseBB
                        (Function_insert (getParent E1) elseBB (branchIfOpen mergeBB E5)))) of
             (elseVal, E6) \<Rightarrow>
               phiOrThen thenVal (e_insertBlock E5) elseVal (e_insertBlock E6)
                 (SetInsertPoint mergeBB
                    (Function_insert (getParent E1) mergeBB (branchIfOpen mergeBB E6)))))))))"
| "emitExpr folder (BlockExpr loc statements finalExpr) E =
     (case finalExpr of
        Some e \<Rightarrow> emitExpr folder e (emitStmts folder statements E)
      | None \<Rightarrow> (None, emitStmts folder statements E))"
| "emitExpr folder (AssignExpr loc target val) E =
     (case emitExpr folder val E of
        (None, E1) \<Rightarrow> (None, E1)
      | (Some v, E1) \<Rightarrow> assignTo target v E1)"
| "emitExpr folder e E = (None, E)"
| "emitArgs folder [] E = (Some [], E)"
| "emitArgs folder (arg # rest) E =
     (case emitExpr folder arg E of
        (None, E1) \<Rightarrow> (None, E1)
      | (Some v, E1) \<Rightarrow>
          (case emitArgs folder rest E1 of
             (None, E2) \<Rightarrow> (None, E2)
           | (Some vs, E2) \<Rightarrow> (Some (v # vs), E2)))"
| "emitStmt folder (LetStmt loc name ty initializer isMutable) E =
     (case createEntryBlockAlloca (getParent E) name
             (case ty of Some t \<Rightarrow> mapType t | None \<Rightarrow> IntegerTy 64) E of
        (alloca, E1) \<Rightarrow>
          (case (case initializer of
                   None \<Rightarrow> E1
                 | Some e \<Rightarrow>
                     (case emitExpr folder e E1 of
                        (None, E2) \<Rightarrow> E2
                      | (Some initVal, E2) \<Rightarrow>
                          (case castInitializer folder
                                  (case ty of Some t \<Rightarrow> mapType t | None \<Rightarrow> IntegerTy 64)
                                  initVal E2 of
                             (v, E3) \<Rightarrow> CreateStore v alloca E3))) of
             E4 \<Rightarrow>
               E4\<lparr>e_namedValues :=
                     (e_namedValues E4)
                       (name \<mapsto> (alloca, case ty of Some t \<Rightarrow> mapType t | None \<Rightarrow> IntegerTy 64))\<rparr>))"
| "emitStmt folder (ReturnStmt loc val) E =
     (case val of
        Some e \<Rightarrow>
          (case emitExpr folder e E of
             (Some v, E1) \<Rightarrow> CreateRet v E1
           | (None, E1) \<Rightarrow> CreateRetVoid E1)
      | None \<Rightarrow> CreateRetVoid E)"
| "emitStmt folder (IfStmt loc condition thenBranch elseBranch) E =
     (case emitExpr folder condition E of
        (None, E1) \<Rightarrow> E1
      | (Some condVal, E1) \<Rightarrow>
          (case BasicBlock_Create ''then'' (getParent E1) E1 of
             (thenBB, E2) \<Rightarrow>
          (case BasicBlock_Create ''else'' None E2 of
             (elseBB, E3) \<Rightarrow>
          (case BasicBlock_Create ''ifcont'' None E3 of
             (mergeBB, E4) \<Rightarrow>
          (case branchIfOpen mergeBB
                  (emitStmt folder thenBranch
                     (SetInsertPoint thenBB
                        (case elseBranch of
                           Some s \<Rightarrow> CreateCondBr condVal thenBB elseBB E4
                         | None \<Rightarrow> CreateCondBr condVal thenBB mergeBB E4))) of
             E5 \<Rightarrow>
               SetInsertPoint mergeBB
                 (Function_insert (getParent E1) mergeBB
                    (case elseBranch of
                       Some s \<Rightarrow>
                         branchIfOpen mergeBB
                           (emitStmt folder s
                              (SetInsertPoint elseBB (Function_insert (getParent E1) elseBB E5)))
                     | None \<Rightarrow> E5)))))))"
| "emitStmt folder (WhileStmt loc condition body) E =
     (case BasicBlock_Create ''while.cond'' (getParent E) E of
        (condBB, E1) \<Rightarrow>
     (case BasicBlock_Create ''while.body'' (getParent E) E1 of
        (bodyBB, E2) \<Rightarrow>
     (case BasicBlock_Create ''while.exit'' (getParent E) E2 of
        (exitBB, E3) \<Rightarrow>
     (case emitExpr folder condition (SetInsertPoint condBB (CreateBr condBB E3)) of
        (condVal, E4) \<Rightarrow>
          SetInsertPoint exitBB
            (branchIfOpen condBB
               (pop_loop
                  (emitStmt folder body
                     (push_loop exitBB condBB
                        (SetInsertPoint bodyBB
                           (case condVal of
                              Some c \<Rightarrow> CreateCondBr c bodyBB exitBB E4
                            | None \<Rightarrow> E4))))))))))"
| "emitStmt folder (ForStmt loc var ty iterable body) E =
     (case BasicBlock_Create ''for.cond'' (getParent E) E of
        (condBB, E1) \<Rightarrow>
     (case BasicBlock_Create ''for.body'' (getParent E) E1 of
        (bodyBB, E2) \<Rightarrow>
     (case BasicBlock_Create ''for.exit'' (getParent E) E2 of
        (exitBB, E3) \<Rightarrow>
          SetInsertPoint exitBB
            (branchIfOpen exitBB
               (pop_loop
                  (emitStmt folder body
                     (push_loop exitBB condBB
                        (SetInsertPoint bodyBB
                           (CreateBr bodyBB (SetInsertPoint condBB (CreateBr condBB E3)))))))))))"
| "emitStmt folder (LoopStmt loc body) E =
     (case BasicBlock_Create ''loop.body'' (getParent E) E of
        (bodyBB, E1) \<Rightarrow>
     (case BasicBlock_Create ''loop.exit'' (getParent E) E1 of
        (exitBB, E2) \<Rightarrow>
          SetInsertPoint exitBB
            (branchIfOpen bodyBB
               (pop_loop
                  (emitStmt folder body
                     (push_loop exitBB bodyBB (SetInsertPoint bodyBB (CreateBr bodyBB E2))))))))"
| "emitStmt folder (BlockStmt loc statements) E = emitStmts folder statements E"
| "emitStmt folder (ExprStmt loc expression) E = snd (emitExpr folder expression E)"
| "emitStmt folder (BreakStmt loc) E =
     (if e_loopStack E \<noteq> [] then CreateBr (breakBlock (last (e_loopStack E))) E else E)"
| "emitStmt folder (ContinueStmt loc) E =
     (if e_loopStack E \<noteq> [] then CreateBr (continueBlock (last (e_loopStack E))) E else E)"
| "emitStmt folder s E = E"
| "emitStmts folder [] E = E"
| "emitStmts folder (s # rest) E = emitStmts folder rest (emitStmt folder s E)"

subsection \<open>Declarations\<close>

text \<open>
  \<^verbatim>\<open>llvm::Function::Create\<close> adds a function without blocks to the module; its arguments
  are then named after the parameters.
\<close>

definition Function_Create ::
  "LType \<Rightarrow> LType list \<Rightarrow> Linkage \<Rightarrow> string \<Rightarrow> string list \<Rightarrow> IREmitter \<Rightarrow> nat \<times> IREmitter" where
  "Function_Create retType paramTypes linkage name argNames E =
     (e_nextFunction E,
      E\<lparr>e_functions :=
          e_functions E @
            [\<lparr>fn_id = e_nextFunction E, fn_name = name, fn_returnType = retType,
              fn_paramTypes = paramTypes, fn_argNames = argNames, fn_linkage = linkage,
              fn_blocks = []\<rparr>],
        e_nextFunction := e_nextFunction E + 1\<rparr>)"

definition eraseFromParent :: "nat \<Rightarrow> IREmitter \<Rightarrow> IREmitter" where
  "eraseFromParent func E = E\<lparr>e_functions := filter (\<lambda>f. fn_id f \<noteq> func) (e_functions E)\<rparr>"

definition paramType :: "FuncParam \<Rightarrow> LType" where
  "paramType param = (case p_type param of Some t \<Rightarrow> mapType t | None \<Rightarrow> PointerTy)"

definition linkageOf :: "FuncDecl \<Rightarrow> Linkage" where
  "linkageOf decl =
     (if f_name decl = ''main'' then ExternalLinkage
      else if f_visibility decl = Public then ExternalLinkage else InternalLinkage)"

text \<open>The loop of \<^verbatim>\<open>emitFuncDecl\<close> that gives every argument its \<^verbatim>\<open>alloca\<close>.\<close>

fun emitParamAllocas :: "nat \<Rightarrow> nat \<Rightarrow> FuncParam list \<Rightarrow> IREmitter \<Rightarrow> IREmitter" where
  "emitParamAllocas func idx [] E = E"
| "emitParamAllocas func idx (param # rest) E =
     emitParamAllocas func (idx + 1) rest
       (case createEntryBlockAlloca (Some func) (p_name param) (paramType param) E of
          (alloca, E1) \<Rightarrow>
            (case CreateStore (Argument func idx (paramType param)) alloca E1 of
               E2 \<Rightarrow>
                 E2\<lparr>e_namedValues :=
                       (e_namedValues E2)(p_name param \<mapsto> (alloca, paramType param))\<rparr>))"

definition returnTypeOf :: "FuncDecl \<Rightarrow> LType" where
  "returnTypeOf decl = (case f_returnType decl of Some t \<Rightarrow> mapType t | None \<Rightarrow> getVoidType)"

text \<open>
  \<^verbatim>\<open>emitFuncDecl\<close> in its steps. \<open>emitFuncBody\<close> goes from the creation of the function to
  the end of the loop over the body's statements; \<open>implicitReturn\<close> is the \<^verbatim>\<open>if\<close> that
  follows the loop; \<open>verifyAndRestore\<close> is the call of \<^verbatim>\<open>llvm::verifyFunction\<close>, which
  answers \<^verbatim>\<open>true\<close> for a broken function, and the restoring of \<^verbatim>\<open>namedValues_\<close>. The
  verifier of LLVM is a parameter: \<open>verifyFunction func fs bs\<close> is its answer for the
  function numbered \<open>func\<close> in a module with the functions \<open>fs\<close> and the blocks \<open>bs\<close>.
\<close>

type_synonym Verifier = "nat \<Rightarrow> LFunction list \<Rightarrow> BasicBlock list \<Rightarrow> bool"

definition emitFuncBody :: "Folder \<Rightarrow> FuncDecl \<Rightarrow> nat \<Rightarrow> Stmt list \<Rightarrow> IREmitter \<Rightarrow> IREmitter" where
  "emitFuncBody folder decl func statements E =
     (case BasicBlock_Create ''entry'' (Some func) E of
        (entry, E1) \<Rightarrow>
          emitStmts folder statements
            (emitParamAllocas func 0 (f_params decl)
               ((SetInsertPoint entry E1)\<lparr>e_namedValues := Map.empty\<rparr>)))"

definition implicitReturn :: "LType \<Rightarrow> IREmitter \<Rightarrow> IREmitter" where
  "implicitReturn retType E =
     (if \<not> hasTerminator E
      then if isVoidTy retType then CreateRetVoid E else CreateRet (getNullValue retType) E
      else E)"

definition verifyAndRestore ::
  "Verifier \<Rightarrow> FuncDecl \<Rightarrow> nat \<Rightarrow> (string \<rightharpoonup> (Value \<times> LType)) \<Rightarrow> IREmitter \<Rightarrow> IREmitter" where
  "verifyAndRestore verifyFunction decl func savedNamedValues E =
     (if verifyFunction func (e_functions E) (e_blocks E)
      then eraseFromParent func
             (e_emitError (f_location decl)
                (''generated invalid IR for function '' @ quoted (f_name decl)) E)
      else E)\<lparr>e_namedValues := savedNamedValues\<rparr>"

definition emitFuncDecl :: "Folder \<Rightarrow> Verifier \<Rightarrow> FuncDecl \<Rightarrow> IREmitter \<Rightarrow> IREmitter" where
  "emitFuncDecl folder verifyFunction decl E =
     (case Function_Create (returnTypeOf decl) (map paramType (f_params decl)) (linkageOf decl)
             (f_name decl) (map p_name (f_params decl)) E of
        (func, E1) \<Rightarrow>
          (case f_body decl of
             None \<Rightarrow> E1
           | Some statements \<Rightarrow>
               verifyAndRestore verifyFunction decl func (e_namedValues E1)
                 (implicitReturn (returnTypeOf decl)
                    (emitFuncBody folder decl func statements E1))))"

fun fieldTypes :: "FieldDecl list \<Rightarrow> LType list" where
  "fieldTypes [] = []"
| "fieldTypes (field # rest) =
     (case fd_type field of Some t \<Rightarrow> mapType t # fieldTypes rest | None \<Rightarrow> fieldTypes rest)"

definition emitStructDecl :: "string \<Rightarrow> FieldDecl list \<Rightarrow> IREmitter \<Rightarrow> IREmitter" where
  "emitStructDecl name fds E = E\<lparr>e_structs := e_structs E @ [(name, fieldTypes fds)]\<rparr>"

fun emitDecl :: "Folder \<Rightarrow> Verifier \<Rightarrow> Decl \<Rightarrow> IREmitter \<Rightarrow> IREmitter" where
  "emitDecl folder verifyFunction (Func decl) E = emitFuncDecl folder verifyFunction decl E"
| "emitDecl folder verifyFunction (StructDecl loc vis name gps fds) E = emitStructDecl name fds E"
| "emitDecl folder verifyFunction decl E = E"

text \<open>The loop of \<^verbatim>\<open>CodeGen::generate\<close> over the declarations, from a new emitter.\<close>

fun emitDecls :: "Folder \<Rightarrow> Verifier \<Rightarrow> Decl list \<Rightarrow> IREmitter \<Rightarrow> IREmitter" where
  "emitDecls folder verifyFunction [] E = E"
| "emitDecls folder verifyFunction (decl # rest) E =
     emitDecls folder verifyFunction rest (emitDecl folder verifyFunction decl E)"

definition emitModule :: "Folder \<Rightarrow> Verifier \<Rightarrow> Module \<Rightarrow> DiagnosticEngine \<Rightarrow> IREmitter" where
  "emitModule folder verifyFunction module D =
     emitDecls folder verifyFunction (declarations module) (IREmitter_init D)"

subsection \<open>What emission keeps\<close>

text \<open>
  \<open>same E E'\<close>: the loop stack, the insertion block and the number of blocks are those of
  \<open>E\<close>; every function of the builder that inserts an instruction or folds is of this kind.
  \<open>keeps E E'\<close>: the loop stack is that of \<open>E\<close>, no block has gone, and the builder is still
  positioned in a block if it was.
\<close>

definition same :: "IREmitter \<Rightarrow> IREmitter \<Rightarrow> bool" where
  "same E E' =
     (e_loopStack E' = e_loopStack E \<and> e_insertBlock E' = e_insertBlock E \<and>
      length (e_blocks E') = length (e_blocks E))"

definition positioned :: "IREmitter \<Rightarrow> bool" where
  "positioned E = (e_insertBlock E < length (e_blocks E))"

definition keeps :: "IREmitter \<Rightarrow> IREmitter \<Rightarrow> bool" where
  "keeps E E' =
     (e_loopStack E' = e_loopStack E \<and> length (e_blocks E) \<le> length (e_blocks E') \<and>
      (positioned E \<longrightarrow> positioned E'))"

lemma same_refl: "same E E"
  by (simp add: same_def)

lemma same_trans: "same E E1 \<Longrightarrow> same E1 E2 \<Longrightarrow> same E E2"
  by (simp add: same_def)

lemma keeps_refl: "keeps E E"
  by (simp add: keeps_def)

lemma keeps_trans: "keeps E E1 \<Longrightarrow> keeps E1 E2 \<Longrightarrow> keeps E E2"
  by (auto simp add: keeps_def)

lemma same_keeps: "same E E' \<Longrightarrow> keeps E E'"
  by (simp add: same_def keeps_def positioned_def)

lemma keeps_same: "keeps E E1 \<Longrightarrow> same E1 E2 \<Longrightarrow> keeps E E2"
  by (blast intro: keeps_trans same_keeps)

lemma same_Insert: "same E (Insert i E)"
  by (simp add: same_def Insert_def)

lemma same_nextValue: "same E (E\<lparr>e_nextValue := n\<rparr>)"
  by (simp add: same_def)

lemma same_Insert_nextValue: "same E (Insert i (E\<lparr>e_nextValue := n\<rparr>))"
  by (simp add: same_def Insert_def)

lemma same_CreateBr: "same E (CreateBr dest E)"
  by (simp add: CreateBr_def same_Insert)

lemma same_CreateCondBr: "same E (CreateCondBr c t f E)"
  by (simp add: CreateCondBr_def same_Insert)

lemma same_CreateRet: "same E (CreateRet v E)"
  by (simp add: CreateRet_def same_Insert)

lemma same_CreateRetVoid: "same E (CreateRetVoid E)"
  by (simp add: CreateRetVoid_def same_Insert)

lemma same_CreateStore: "same E (CreateStore v p E)"
  by (simp add: CreateStore_def same_Insert)

lemma same_CreateLoad: "same E (snd (CreateLoad ty p name E))"
  by (simp add: CreateLoad_def same_Insert_nextValue)

lemma same_CreateOp: "same E (snd (CreateOp folder opc operands ty name E))"
  by (simp add: CreateOp_def same_Insert_nextValue same_refl split: option.splits)

lemma same_CreateBinOp: "same E (snd (CreateBinOp folder opc lhs rhs name E))"
  by (simp add: CreateBinOp_def same_CreateOp)

lemma same_CreateCmp: "same E (snd (CreateCmp folder opc lhs rhs name E))"
  by (simp add: CreateCmp_def same_CreateOp)

lemma same_CreateCast: "same E (snd (CreateCast folder opc v destTy name E))"
  by (simp add: CreateCast_def same_CreateOp same_refl)

lemma same_CreateNeg: "same E (snd (CreateNeg folder v name E))"
  by (simp add: CreateNeg_def same_CreateBinOp)

lemma same_CreateNot: "same E (snd (CreateNot folder v name E))"
  by (simp add: CreateNot_def same_CreateBinOp)

lemma same_CreateFNeg: "same E (snd (CreateFNeg folder v name E))"
  by (simp add: CreateFNeg_def same_CreateOp)

lemma same_CreateCall: "same E (snd (CreateCall callee args name E))"
  by (simp add: CreateCall_def same_Insert_nextValue)

lemma same_CreatePHI: "same E (snd (CreatePHI ty incoming name E))"
  by (simp add: CreatePHI_def same_Insert_nextValue)

lemma same_CreateGlobalString: "same E (snd (CreateGlobalString s E))"
  by (simp add: CreateGlobalString_def same_def)

lemma same_createEntryBlockAlloca: "same E (snd (createEntryBlockAlloca func name ty E))"
  by (simp add: createEntryBlockAlloca_def same_def split: option.splits)

lemma same_e_emitError: "same E (e_emitError loc msg E)"
  by (simp add: e_emitError_def same_def)

lemma same_namedValues: "same E (E\<lparr>e_namedValues := m\<rparr>)"
  by (simp add: same_def)

lemma same_Function_insert: "same E (Function_insert parent bb E)"
  by (simp add: Function_insert_def same_def split: option.splits)

lemma same_branchIfOpen: "same E (branchIfOpen dest E)"
  by (simp add: branchIfOpen_def same_CreateBr same_refl)

lemma same_coerceOperands: "same E (snd (snd (coerceOperands folder lhs rhs E)))"
proof -
  have "same E (snd (CreateCast folder SExt rhs (getType lhs) ''sext'' E))"
    and "same E (snd (CreateCast folder SExt lhs (getType rhs) ''sext'' E))"
    by (rule same_CreateCast)+
  then show ?thesis
    by (simp add: coerceOperands_def same_refl split_beta)
qed

lemma same_emitBinaryOp: "same E (snd (emitBinaryOp folder op lhs rhs E))"
proof -
  have "same (snd (snd (coerceOperands folder lhs rhs E))) (snd (emitBinaryOp folder op lhs rhs E))"
    by (simp add: emitBinaryOp_def split_beta same_CreateCmp same_CreateBinOp)
  with same_coerceOperands show ?thesis by (rule same_trans)
qed

lemma same_emitUnaryOp: "same E (snd (emitUnaryOp folder op operand E))"
proof -
  have "same E (snd (CreateFNeg folder operand ''negtmp'' E))"
    and "same E (snd (CreateNeg folder operand ''negtmp'' E))"
    and "same E (snd (CreateNot folder operand ''nottmp'' E))"
    and "same E (snd (CreateNot folder operand ''bnotmp'' E))"
    by (rule same_CreateFNeg, rule same_CreateNeg, rule same_CreateNot, rule same_CreateNot)
  then show ?thesis
    unfolding emitUnaryOp_def by (cases op) (simp_all add: split_beta)
qed

lemma same_emitIdent: "same E (snd (emitIdent loc name E))"
proof -
  have "\<And>ty p. same E (snd (CreateLoad ty p name E))" by (rule same_CreateLoad)
  then show ?thesis
    unfolding emitIdent_def
    by (auto simp add: split_beta same_refl same_e_emitError split: option.splits)
qed

lemma same_emitCall: "same E (snd (emitCall calleeFunc args E))"
proof -
  have "\<And>name. same E (snd (CreateCall calleeFunc args name E))" by (rule same_CreateCall)
  then show ?thesis
    unfolding emitCall_def by (simp add: split_beta)
qed

lemma same_assignTo: "same E (snd (assignTo target v E))"
  by (cases target) (auto simp add: same_refl same_CreateStore split: option.splits)

lemma same_castInitializer: "same E (snd (castInitializer folder varType initVal E))"
  by (simp add: castInitializer_def same_CreateCast same_refl)

lemma same_phiOrThen: "same E (snd (phiOrThen thenVal thenBB elseVal elseBB E))"
proof -
  have "\<And>ty inc. same E (snd (CreatePHI ty inc ''iftmp'' E))" by (rule same_CreatePHI)
  then show ?thesis
    unfolding phiOrThen_def by (auto simp add: split_beta same_refl split: option.splits)
qed

lemma keeps_SetInsertPoint:
  "keeps E E1 \<Longrightarrow> bb < length (e_blocks E1) \<Longrightarrow> keeps E (SetInsertPoint bb E1)"
  by (simp add: keeps_def SetInsertPoint_def positioned_def)

lemma keeps_length: "keeps E E1 \<Longrightarrow> bb < length (e_blocks E) \<Longrightarrow> bb < length (e_blocks E1)"
  by (simp add: keeps_def)

lemma keeps_pop_push: "keeps (push_loop x c E1) E2 \<Longrightarrow> keeps E1 (pop_loop E2)"
  by (simp add: keeps_def push_loop_def pop_loop_def positioned_def)

lemma created:
  assumes "BasicBlock_Create name parent E = (bb, E1)"
  shows "keeps E E1" and "bb = length (e_blocks E)" and "bb < length (e_blocks E1)"
    and "length (e_blocks E1) = length (e_blocks E) + 1"
  using assms
  by (auto simp add: BasicBlock_Create_def Let_def keeps_def positioned_def split: option.splits)

text \<open>The end of the three loop statements, and of the two branches of an \<^verbatim>\<open>if\<close>.\<close>

lemma keeps_loop_end:
  assumes "keeps E X" and "exitBB < length (e_blocks X)"
    and "keeps (push_loop exitBB c X) B"
  shows "keeps E (SetInsertPoint exitBB (branchIfOpen d (pop_loop B)))"
proof -
  have "keeps X (pop_loop B)" using assms(3) by (rule keeps_pop_push)
  then have k: "keeps X (branchIfOpen d (pop_loop B))" by (rule keeps_same) (rule same_branchIfOpen)
  have "keeps E (branchIfOpen d (pop_loop B))" using assms(1) k by (rule keeps_trans)
  moreover have "exitBB < length (e_blocks (branchIfOpen d (pop_loop B)))"
    using k assms(2) by (rule keeps_length)
  ultimately show ?thesis by (rule keeps_SetInsertPoint)
qed

lemma keeps_branch_end:
  assumes "keeps E X" and "bb < length (e_blocks X)"
  shows "keeps E (SetInsertPoint bb (Function_insert parent bb (branchIfOpen d X)))"
proof -
  have "same X (Function_insert parent bb (branchIfOpen d X))"
    using same_branchIfOpen same_Function_insert by (rule same_trans)
  then have k: "keeps X (Function_insert parent bb (branchIfOpen d X))" by (rule same_keeps)
  have "keeps E (Function_insert parent bb (branchIfOpen d X))" using assms(1) k by (rule keeps_trans)
  moreover have "bb < length (e_blocks (Function_insert parent bb (branchIfOpen d X)))"
    using k assms(2) by (rule keeps_length)
  ultimately show ?thesis by (rule keeps_SetInsertPoint)
qed

lemma emit_keeps:
  "keeps E (snd (emitExpr folder e E))"
  "keeps E (snd (emitArgs folder es E))"
  "keeps E (emitStmt folder s E)"
  "keeps E (emitStmts folder ss E)"
proof (induction folder e E and folder es E and folder s E and folder ss E
       rule: emitExpr_emitArgs_emitStmt_emitStmts.induct)
  case (3 folder loc v E)
  show ?case using same_keeps [OF same_CreateGlobalString] by (simp add: split_beta)
next
  case (5 folder loc name E)
  show ?case using same_keeps [OF same_emitIdent] by simp
next
  case (6 folder loc op lhs rhs E)
  obtain l E1 where a: "emitExpr folder lhs E = (l, E1)" by (cases "emitExpr folder lhs E")
  obtain r E2 where b: "emitExpr folder rhs E1 = (r, E2)" by (cases "emitExpr folder rhs E1")
  have "keeps E E1" using "6.IH"(1) a by simp
  moreover have "keeps E1 E2" using "6.IH"(2) [OF a [symmetric]] b by simp
  ultimately have k: "keeps E E2" by (rule keeps_trans)
  then have "keeps E (snd (emitBinaryOp folder op lv rv E2))" for lv rv
    by (rule keeps_same) (rule same_emitBinaryOp)
  with k show ?case by (simp add: a b split: option.splits)
next
  case (7 folder loc op operand E)
  obtain v E1 where a: "emitExpr folder operand E = (v, E1)" by (cases "emitExpr folder operand E")
  have k: "keeps E E1" using "7.IH" a by simp
  then have "keeps E (snd (emitUnaryOp folder op x E1))" for x
    by (rule keeps_same) (rule same_emitUnaryOp)
  with k show ?case by (simp add: a split: option.splits)
next
  case (8 folder loc callee arguments E)
  show ?case
  proof (cases "getFunction (calleeName callee) E")
    case None
    then show ?thesis using same_keeps [OF same_e_emitError] by simp
  next
    case (Some calleeFunc)
    obtain args E1 where a: "emitArgs folder arguments E = (args, E1)"
      by (cases "emitArgs folder arguments E")
    have k: "keeps E E1" using "8.IH" [OF Some] a by simp
    then have "keeps E (snd (emitCall calleeFunc x E1))" for x
      by (rule keeps_same) (rule same_emitCall)
    with k show ?thesis by (simp add: Some a split: option.splits)
  qed
next
  case (9 folder loc condition thenExpr elseExpr E)
  obtain c E1 where a: "emitExpr folder condition E = (c, E1)"
    by (cases "emitExpr folder condition E")
  have k1: "keeps E E1" using "9.IH"(1) a by simp
  show ?case
  proof (cases c)
    case None
    then show ?thesis using k1 by (simp add: a)
  next
    case (Some condVal)
    obtain thenBB E2 where c2: "BasicBlock_Create ''then'' (getParent E1) E1 = (thenBB, E2)"
      by (cases "BasicBlock_Create ''then'' (getParent E1) E1")
    obtain elseBB E3 where c3: "BasicBlock_Create ''else'' None E2 = (elseBB, E3)"
      by (cases "BasicBlock_Create ''else'' None E2")
    obtain mergeBB E4 where c4: "BasicBlock_Create ''ifcont'' None E3 = (mergeBB, E4)"
      by (cases "BasicBlock_Create ''ifcont'' None E3")
    define Ea where "Ea = SetInsertPoint thenBB (CreateCondBr condVal thenBB elseBB E4)"
    obtain thenVal E5 where c5: "emitExpr folder thenExpr Ea = (thenVal, E5)"
      by (cases "emitExpr folder thenExpr Ea")
    define Eb where
      "Eb = SetInsertPoint elseBB (Function_insert (getParent E1) elseBB (branchIfOpen mergeBB E5))"
    define E6 where "E6 = (case elseExpr of Some e \<Rightarrow> snd (emitExpr folder e Eb) | None \<Rightarrow> Eb)"
    have k4: "keeps E1 E4"
      using created(1) [OF c2] created(1) [OF c3] created(1) [OF c4] by (blast intro: keeps_trans)
    have b4: "thenBB < length (e_blocks E4)" "elseBB < length (e_blocks E4)"
      "mergeBB < length (e_blocks E4)"
      using created [OF c2] created [OF c3] created [OF c4] by simp_all
    have "keeps E4 (CreateCondBr condVal thenBB elseBB E4)"
      by (rule same_keeps) (rule same_CreateCondBr)
    moreover have "thenBB < length (e_blocks (CreateCondBr condVal thenBB elseBB E4))"
      using same_CreateCondBr [of E4 condVal thenBB elseBB] b4 by (simp add: same_def)
    ultimately have ka: "keeps E4 Ea" unfolding Ea_def by (rule keeps_SetInsertPoint)
    have "keeps Ea E5"
      using "9.IH"(2) [OF a [symmetric] Some c2 [symmetric] c3 [symmetric] c4 [symmetric]] c5
      by (simp add: Ea_def)
    with ka have k5: "keeps E4 E5" by (rule keeps_trans)
    have kb: "keeps E4 Eb"
      unfolding Eb_def using k5 keeps_length [OF k5 b4(2)] by (rule keeps_branch_end)
    have k6: "keeps E4 E6"
    proof (cases elseExpr)
      case None
      then show ?thesis using kb by (simp add: E6_def)
    next
      case (Some e)
      have "keeps Eb (snd (emitExpr folder e Eb))"
        using "9.IH"(3) [OF a [symmetric] \<open>c = Some condVal\<close> c2 [symmetric] c3 [symmetric]
            c4 [symmetric] _ Some, of thenVal E5] c5
        by (simp add: Ea_def Eb_def)
      with kb show ?thesis by (simp add: E6_def Some) (rule keeps_trans)
    qed
    have "keeps E4 (SetInsertPoint mergeBB (Function_insert (getParent E1) mergeBB (branchIfOpen mergeBB E6)))"
      using k6 keeps_length [OF k6 b4(3)] by (rule keeps_branch_end)
    then have "keeps E4 (snd (phiOrThen tv tb ev eb
        (SetInsertPoint mergeBB (Function_insert (getParent E1) mergeBB (branchIfOpen mergeBB E6)))))"
      for tv tb ev eb
      by (rule keeps_same) (rule same_phiOrThen)
    then have "keeps E (snd (phiOrThen tv tb ev eb
        (SetInsertPoint mergeBB (Function_insert (getParent E1) mergeBB (branchIfOpen mergeBB E6)))))"
      for tv tb ev eb
      using k1 k4 by (blast intro: keeps_trans)
    note fin = this
    show ?thesis
    proof (cases elseExpr)
      case None
      show ?thesis
        using fin
        by (simp add: a \<open>c = Some condVal\<close> c2 c3 c4 c5 Ea_def [symmetric] Eb_def [symmetric]
                 E6_def None)
    next
      case (Some e)
      show ?thesis
        using fin
        by (simp add: a \<open>c = Some condVal\<close> c2 c3 c4 c5 Ea_def [symmetric] Eb_def [symmetric]
                 E6_def Some split_beta)
    qed
  qed
next
  case (10 folder loc statements finalExpr E)
  show ?case
  proof (cases finalExpr)
    case None
    then show ?thesis using "10.IH"(1) by simp
  next
    case (Some e)
    show ?thesis using "10.IH"(2) [OF Some] "10.IH"(3) [OF Some] by (simp add: Some) (rule keeps_trans)
  qed
next
  case (11 folder loc target val E)
  obtain v E1 where a: "emitExpr folder val E = (v, E1)" by (cases "emitExpr folder val E")
  have k: "keeps E E1" using "11.IH" a by simp
  then have "keeps E (snd (assignTo target x E1))" for x
    by (rule keeps_same) (rule same_assignTo)
  with k show ?case by (simp add: a split: option.splits)
next
  case (14 folder arg rest E)
  obtain v E1 where a: "emitExpr folder arg E = (v, E1)" by (cases "emitExpr folder arg E")
  have k: "keeps E E1" using "14.IH"(1) a by simp
  show ?case
  proof (cases v)
    case None
    then show ?thesis using k by (simp add: a)
  next
    case (Some x)
    have "keeps E1 (snd (emitArgs folder rest E1))" using "14.IH"(2) [OF a [symmetric] Some] .
    with k have "keeps E (snd (emitArgs folder rest E1))" by (rule keeps_trans)
    then show ?thesis by (simp add: a Some split_beta split: option.splits)
  qed
next
  case (15 folder loc name ty initializer isMutable E)
  define varType where "varType = (case ty of Some t \<Rightarrow> mapType t | None \<Rightarrow> IntegerTy 64)"
  obtain alloca E1 where a: "createEntryBlockAlloca (getParent E) name varType E = (alloca, E1)"
    by (cases "createEntryBlockAlloca (getParent E) name varType E")
  have k1: "keeps E E1"
    using same_keeps [OF same_createEntryBlockAlloca, of E "getParent E" name varType] a by simp
  define E4 where
    "E4 = (case initializer of
             None \<Rightarrow> E1
           | Some e \<Rightarrow>
               (case emitExpr folder e E1 of
                  (None, E2) \<Rightarrow> E2
                | (Some initVal, E2) \<Rightarrow>
                    (case castInitializer folder varType initVal E2 of
                       (v, E3) \<Rightarrow> CreateStore v alloca E3)))"
  have k4: "keeps E1 E4"
  proof (cases initializer)
    case None
    then show ?thesis by (simp add: E4_def keeps_refl)
  next
    case (Some e)
    obtain iv E2 where b: "emitExpr folder e E1 = (iv, E2)" by (cases "emitExpr folder e E1")
    have k2: "keeps E1 E2"
      using "15.IH"(1) [OF a [symmetric, unfolded varType_def] Some] b by simp
    have "same E2 (CreateStore (fst (castInitializer folder varType x E2)) alloca
                     (snd (castInitializer folder varType x E2)))" for x
      using same_castInitializer same_CreateStore by (rule same_trans)
    then have "keeps E1 (CreateStore (fst (castInitializer folder varType x E2)) alloca
                     (snd (castInitializer folder varType x E2)))" for x
      using k2 by (rule keeps_same [rotated])
    with k2 show ?thesis by (simp add: E4_def Some b split_beta split: option.splits)
  qed
  have "keeps E E4" using k1 k4 by (rule keeps_trans)
  then have "keeps E (E4\<lparr>e_namedValues := m\<rparr>)" for m
    by (rule keeps_same) (rule same_namedValues)
  then show ?case
    using a [unfolded varType_def] unfolding E4_def varType_def by simp
next
  case (16 folder loc val E)
  show ?case
  proof (cases val)
    case None
    then show ?thesis using same_keeps [OF same_CreateRetVoid] by simp
  next
    case (Some e)
    obtain v E1 where a: "emitExpr folder e E = (v, E1)" by (cases "emitExpr folder e E")
    have k: "keeps E E1" using "16.IH" [OF Some] a by simp
    have "keeps E (CreateRet x E1)" for x using k by (rule keeps_same) (rule same_CreateRet)
    moreover have "keeps E (CreateRetVoid E1)" using k by (rule keeps_same) (rule same_CreateRetVoid)
    ultimately show ?thesis by (simp add: Some a split: option.splits)
  qed
next
  case (17 folder loc condition thenBranch elseBranch E)
  obtain c E1 where a: "emitExpr folder condition E = (c, E1)"
    by (cases "emitExpr folder condition E")
  have k1: "keeps E E1" using "17.IH"(1) a by simp
  show ?case
  proof (cases c)
    case None
    then show ?thesis using k1 by (simp add: a)
  next
    case (Some condVal)
    obtain thenBB E2 where c2: "BasicBlock_Create ''then'' (getParent E1) E1 = (thenBB, E2)"
      by (cases "BasicBlock_Create ''then'' (getParent E1) E1")
    obtain elseBB E3 where c3: "BasicBlock_Create ''else'' None E2 = (elseBB, E3)"
      by (cases "BasicBlock_Create ''else'' None E2")
    obtain mergeBB E4 where c4: "BasicBlock_Create ''ifcont'' None E3 = (mergeBB, E4)"
      by (cases "BasicBlock_Create ''ifcont'' None E3")
    define Ea where
      "Ea = SetInsertPoint thenBB
              (case elseBranch of
                 None \<Rightarrow> CreateCondBr condVal thenBB mergeBB E4
               | Some s \<Rightarrow> CreateCondBr condVal thenBB elseBB E4)"
    define Et where "Et = emitStmt folder thenBranch Ea"
    have k4: "keeps E1 E4"
      using created(1) [OF c2] created(1) [OF c3] created(1) [OF c4] by (blast intro: keeps_trans)
    have b4: "thenBB < length (e_blocks E4)" "elseBB < length (e_blocks E4)"
      "mergeBB < length (e_blocks E4)"
      using created [OF c2] created [OF c3] created [OF c4] by simp_all
    have s: "same E4 (case elseBranch of
                 None \<Rightarrow> CreateCondBr condVal thenBB mergeBB E4
               | Some s \<Rightarrow> CreateCondBr condVal thenBB elseBB E4)"
      by (simp add: same_CreateCondBr split: option.splits)
    have ka: "keeps E4 Ea"
      unfolding Ea_def using same_keeps [OF s] s b4(1)
      by (intro keeps_SetInsertPoint) (simp_all add: same_def)
    have "keeps Ea Et"
    proof (cases elseBranch)
      case None
      show ?thesis
        using "17.IH"(2) [OF a [symmetric] Some c2 [symmetric] c3 [symmetric] c4 [symmetric] None]
        by (simp add: Ea_def Et_def)
    next
      case (Some s)
      show ?thesis
        using "17.IH"(3) [OF a [symmetric] \<open>c = Some condVal\<close> c2 [symmetric] c3 [symmetric]
            c4 [symmetric] Some]
        by (simp add: Ea_def Et_def)
    qed
    with ka have kt: "keeps E4 Et" by (rule keeps_trans)
    have k5: "keeps E4 (branchIfOpen mergeBB Et)"
      using kt by (rule keeps_same) (rule same_branchIfOpen)
    have "keeps E4 (emitStmt folder (IfStmt loc condition thenBranch elseBranch) E)"
    proof (cases elseBranch)
      case None
      have "keeps E4 (SetInsertPoint mergeBB (Function_insert (getParent E1) mergeBB (branchIfOpen mergeBB Et)))"
        using kt keeps_length [OF kt b4(3)] by (rule keeps_branch_end)
      moreover have "keeps E4 (SetInsertPoint mergeBB (Function_insert (getParent E1) mergeBB (branchIfOpen mergeBB Et)))
        \<Longrightarrow> ?thesis"
        by (simp add: a \<open>c = Some condVal\<close> c2 c3 c4 None Ea_def Et_def)
      ultimately show ?thesis by blast
    next
      case (Some s)
      define Ec where
        "Ec = SetInsertPoint elseBB (Function_insert (getParent E1) elseBB (branchIfOpen mergeBB Et))"
      have kc: "keeps E4 Ec"
        unfolding Ec_def using kt keeps_length [OF kt b4(2)] by (rule keeps_branch_end)
      have "keeps Ec (emitStmt folder s Ec)"
        using "17.IH"(4) [OF a [symmetric] \<open>c = Some condVal\<close> c2 [symmetric] c3 [symmetric]
            c4 [symmetric] Some]
        by (simp add: Ea_def Et_def Ec_def Some)
      with kc have ke: "keeps E4 (emitStmt folder s Ec)" by (rule keeps_trans)
      have "keeps E4 (SetInsertPoint mergeBB (Function_insert (getParent E1) mergeBB
                        (branchIfOpen mergeBB (emitStmt folder s Ec))))"
        using ke keeps_length [OF ke b4(3)] by (rule keeps_branch_end)
      then show ?thesis
        by (simp add: a \<open>c = Some condVal\<close> c2 c3 c4 Some Ea_def Et_def Ec_def)
    qed
    with k1 k4 show ?thesis by (blast intro: keeps_trans)
  qed
next
  case (18 folder loc condition body E)
  obtain condBB E1 where c1: "BasicBlock_Create ''while.cond'' (getParent E) E = (condBB, E1)"
    by (cases "BasicBlock_Create ''while.cond'' (getParent E) E")
  obtain bodyBB E2 where c2: "BasicBlock_Create ''while.body'' (getParent E) E1 = (bodyBB, E2)"
    by (cases "BasicBlock_Create ''while.body'' (getParent E) E1")
  obtain exitBB E3 where c3: "BasicBlock_Create ''while.exit'' (getParent E) E2 = (exitBB, E3)"
    by (cases "BasicBlock_Create ''while.exit'' (getParent E) E2")
  define Ea where "Ea = SetInsertPoint condBB (CreateBr condBB E3)"
  obtain condVal E4 where c4: "emitExpr folder condition Ea = (condVal, E4)"
    by (cases "emitExpr folder condition Ea")
  define X where
    "X = SetInsertPoint bodyBB
           (case condVal of Some c \<Rightarrow> CreateCondBr c bodyBB exitBB E4 | None \<Rightarrow> E4)"
  have k3: "keeps E E3"
    using created(1) [OF c1] created(1) [OF c2] created(1) [OF c3] by (blast intro: keeps_trans)
  have b3: "condBB < length (e_blocks E3)" "bodyBB < length (e_blocks E3)"
    "exitBB < length (e_blocks E3)"
    using created [OF c1] created [OF c2] created [OF c3] by simp_all
  have kbr: "keeps E3 (CreateBr condBB E3)" by (rule same_keeps) (rule same_CreateBr)
  have ka: "keeps E3 Ea"
    unfolding Ea_def using kbr keeps_length [OF kbr b3(1)] by (rule keeps_SetInsertPoint)
  have "keeps Ea E4"
    using "18.IH"(1) [OF c1 [symmetric] c2 [symmetric] c3 [symmetric]] c4 by (simp add: Ea_def)
  with ka have k4: "keeps E3 E4" by (rule keeps_trans)
  have s: "same E4 (case condVal of Some c \<Rightarrow> CreateCondBr c bodyBB exitBB E4 | None \<Rightarrow> E4)"
    by (simp add: same_CreateCondBr same_refl split: option.splits)
  have k4': "keeps E3 (case condVal of Some c \<Rightarrow> CreateCondBr c bodyBB exitBB E4 | None \<Rightarrow> E4)"
    using k4 s by (rule keeps_same)
  have kx: "keeps E3 X"
    unfolding X_def using k4' keeps_length [OF k4' b3(2)] by (rule keeps_SetInsertPoint)
  have kb: "keeps (push_loop exitBB condBB X) (emitStmt folder body (push_loop exitBB condBB X))"
    using "18.IH"(2) [OF c1 [symmetric] c2 [symmetric] c3 [symmetric], of condVal E4] c4
    by (simp add: Ea_def X_def)
  have "keeps E3 (SetInsertPoint exitBB (branchIfOpen condBB
          (pop_loop (emitStmt folder body (push_loop exitBB condBB X)))))"
    using kx keeps_length [OF kx b3(3)] kb by (rule keeps_loop_end)
  with k3 have "keeps E (SetInsertPoint exitBB (branchIfOpen condBB
          (pop_loop (emitStmt folder body (push_loop exitBB condBB X)))))"
    by (rule keeps_trans)
  then show ?case by (simp add: c1 c2 c3 Ea_def [symmetric] c4 X_def)
next
  case (19 folder loc var ty iterable body E)
  obtain condBB E1 where c1: "BasicBlock_Create ''for.cond'' (getParent E) E = (condBB, E1)"
    by (cases "BasicBlock_Create ''for.cond'' (getParent E) E")
  obtain bodyBB E2 where c2: "BasicBlock_Create ''for.body'' (getParent E) E1 = (bodyBB, E2)"
    by (cases "BasicBlock_Create ''for.body'' (getParent E) E1")
  obtain exitBB E3 where c3: "BasicBlock_Create ''for.exit'' (getParent E) E2 = (exitBB, E3)"
    by (cases "BasicBlock_Create ''for.exit'' (getParent E) E2")
  define X where
    "X = SetInsertPoint bodyBB (CreateBr bodyBB (SetInsertPoint condBB (CreateBr condBB E3)))"
  have k3: "keeps E E3"
    using created(1) [OF c1] created(1) [OF c2] created(1) [OF c3] by (blast intro: keeps_trans)
  have b3: "condBB < length (e_blocks E3)" "bodyBB < length (e_blocks E3)"
    "exitBB < length (e_blocks E3)"
    using created [OF c1] created [OF c2] created [OF c3] by simp_all
  have kx: "keeps E3 X" and bx: "exitBB < length (e_blocks X)"
    using b3 by (simp_all add: X_def keeps_def SetInsertPoint_def CreateBr_def Insert_def
                    positioned_def)
  have kb: "keeps (push_loop exitBB condBB X) (emitStmt folder body (push_loop exitBB condBB X))"
    using "19.IH" [OF c1 [symmetric] c2 [symmetric] c3 [symmetric]] by (simp add: X_def)
  have "keeps E3 (SetInsertPoint exitBB (branchIfOpen exitBB
          (pop_loop (emitStmt folder body (push_loop exitBB condBB X)))))"
    using kx bx kb by (rule keeps_loop_end)
  with k3 have "keeps E (SetInsertPoint exitBB (branchIfOpen exitBB
          (pop_loop (emitStmt folder body (push_loop exitBB condBB X)))))"
    by (rule keeps_trans)
  then show ?case by (simp add: c1 c2 c3 X_def)
next
  case (20 folder loc body E)
  obtain bodyBB E1 where c1: "BasicBlock_Create ''loop.body'' (getParent E) E = (bodyBB, E1)"
    by (cases "BasicBlock_Create ''loop.body'' (getParent E) E")
  obtain exitBB E2 where c2: "BasicBlock_Create ''loop.exit'' (getParent E) E1 = (exitBB, E2)"
    by (cases "BasicBlock_Create ''loop.exit'' (getParent E) E1")
  define X where "X = SetInsertPoint bodyBB (CreateBr bodyBB E2)"
  have k2: "keeps E E2"
    using created(1) [OF c1] created(1) [OF c2] by (blast intro: keeps_trans)
  have b2: "bodyBB < length (e_blocks E2)" "exitBB < length (e_blocks E2)"
    using created [OF c1] created [OF c2] by simp_all
  have kx: "keeps E2 X" and bx: "exitBB < length (e_blocks X)"
    using b2 by (simp_all add: X_def keeps_def SetInsertPoint_def CreateBr_def Insert_def
                    positioned_def)
  have kb: "keeps (push_loop exitBB bodyBB X) (emitStmt folder body (push_loop exitBB bodyBB X))"
    using "20.IH" [OF c1 [symmetric] c2 [symmetric]] by (simp add: X_def)
  have "keeps E2 (SetInsertPoint exitBB (branchIfOpen bodyBB
          (pop_loop (emitStmt folder body (push_loop exitBB bodyBB X)))))"
    using kx bx kb by (rule keeps_loop_end)
  with k2 have "keeps E (SetInsertPoint exitBB (branchIfOpen bodyBB
          (pop_loop (emitStmt folder body (push_loop exitBB bodyBB X)))))"
    by (rule keeps_trans)
  then show ?case by (simp add: c1 c2 X_def)
next
  case (23 folder loc E)
  show ?case using same_keeps [OF same_CreateBr] by (simp add: keeps_refl)
next
  case (24 folder loc E)
  show ?case using same_keeps [OF same_CreateBr] by (simp add: keeps_refl)
next
  case (27 folder s rest E)
  show ?case using "27.IH" by (simp) (rule keeps_trans)
qed (simp_all add: keeps_refl)

section \<open>Properties claimed by the specification\<close>

text \<open>
  C1. The specification says that the lexer never throws: every malformed lexeme gives
  an \<^verbatim>\<open>Invalid\<close> token and a diagnostic, in particular a \<^verbatim>\<open>0x\<close>, \<^verbatim>\<open>0b\<close> or \<^verbatim>\<open>0o\<close> prefix
  without digits and a decimal literal too large for 64 bits. The source does not do
  that. The tests for a missing digit are guarded by \<^verbatim>\<open>!isAtEnd()\<close>, so a prefix at the very
  end of the input passes them, and the octal branch has no test at all; the empty digit
  string then reaches \<^verbatim>\<open>std::stoll\<close>, which throws \<^verbatim>\<open>std::invalid_argument\<close>. A decimal
  literal above \<^verbatim>\<open>LLONG_MAX\<close> makes \<^verbatim>\<open>std::stoll\<close> throw \<^verbatim>\<open>std::out_of_range\<close>. Nothing
  catches either, so the first call of \<^verbatim>\<open>nextToken\<close> on each of these five inputs ends with
  an exception, whatever the file name, the state of the diagnostic engine and the
  behaviour of \<^verbatim>\<open>std::stod\<close>.
\<close>

theorem nextToken_throws_on_numeric_literals:
  "nextToken stod_range_error (Lexer_init ''0x'' fname) D = Inl InvalidArgument \<and>
   nextToken stod_range_error (Lexer_init ''0b'' fname) D = Inl InvalidArgument \<and>
   nextToken stod_range_error (Lexer_init ''0o'' fname) D = Inl InvalidArgument \<and>
   nextToken stod_range_error (Lexer_init ''0o9'' fname) D = Inl InvalidArgument \<and>
   nextToken stod_range_error (Lexer_init ''9223372036854775808'' fname) D = Inl OutOfRange"
  by code_simp

text \<open>
  C7. The specification says that \<^verbatim>\<open>lexAll\<close> returns, for every source, a token sequence
  that ends with the end marker. On the source \<^verbatim>\<open>let x = 0x\<close> it returns nothing: the
  fourth call of \<^verbatim>\<open>nextToken\<close> throws (the defect of C1) and \<^verbatim>\<open>lexAll\<close> lets the exception
  through.
\<close>

theorem lexAll_throws:
  "lexAll stod_range_error (Lexer_init ''let x = 0x'' fname) D = Inl InvalidArgument"
  by code_simp

text \<open>
  C8. Saving and restoring the lexer state is an identity. Restoring the snapshot just
  taken changes nothing. After any sequence of \<^verbatim>\<open>nextToken\<close> and \<^verbatim>\<open>peekToken\<close> calls
  that return, restoring a snapshot \<open>saveState L\<close> taken before them gives back the
  state \<open>L\<close>: the eight fields are the snapshot's and the two other members, the buffer
  and the file name, are never assigned. The tokens of any later calls are then those
  that the same calls give from \<open>L\<close> itself; the diagnostic engine is not restored and
  has no influence on them.
\<close>

theorem save_restore_identity:
  assumes "run_calls stod_range_error calls L D = Inr (ts, L', D')"
  shows "restoreState (saveState L) L = L \<and>
         restoreState (saveState L) L' = L \<and>
         tokens_of (run_calls stod_range_error later (restoreState (saveState L) L') D') =
         tokens_of (run_calls stod_range_error later L D)"
proof -
  have same: "restoreState (saveState L) L = L"
    by (simp add: restoreState_def saveState_def)
  from run_calls_buffer [OF assms]
  have restored: "restoreState (saveState L) L' = L"
    by (simp add: restoreState_def saveState_def)
  have "tokens_of (run_calls stod_range_error later L D') =
        tokens_of (run_calls stod_range_error later L D)"
    using tokens_of_run_calls [of stod_range_error later L D' D]
    by (cases "run_calls stod_range_error later L D'"; cases "run_calls stod_range_error later L D")
       (simp_all add: tokens_of_def)
  with same restored show ?thesis by simp
qed

theorem save_restore_identity_witness:
  "case run_calls (\<lambda>s. False) [NextToken, PeekToken, NextToken]
          (Lexer_init ''a + 1'' ''main.flux'') DiagnosticEngine_init of
     Inl e \<Rightarrow> False
   | Inr (ts, L', D') \<Rightarrow>
       restoreState (saveState (Lexer_init ''a + 1'' ''main.flux'')) L' =
         Lexer_init ''a + 1'' ''main.flux'' \<and>
       L' \<noteq> Lexer_init ''a + 1'' ''main.flux'' \<and>
       tokens_of (run_calls (\<lambda>s. False) [NextToken, NextToken]
                    (restoreState (saveState (Lexer_init ''a + 1'' ''main.flux'')) L') D') =
       tokens_of (run_calls (\<lambda>s. False) [NextToken, NextToken]
                    (Lexer_init ''a + 1'' ''main.flux'') DiagnosticEngine_init)"
proof -
  let ?L = "Lexer_init ''a + 1'' ''main.flux''"
  let ?r = "run_calls (\<lambda>s. False) [NextToken, PeekToken, NextToken] ?L DiagnosticEngine_init"
  have "\<not> isl ?r" by code_simp
  then obtain ts L' D' where h: "?r = Inr (ts, L', D')"
    by (cases ?r) auto
  have "l_current (fst (snd (projr ?r))) = 3" by code_simp
  with h have ne: "L' \<noteq> ?L" by (auto simp: Lexer_init_def)
  from save_restore_identity [OF h, of "[NextToken, NextToken]"] ne
  show ?thesis unfolding h sum.case prod.case by blast
qed

text \<open>
  C10. In a string literal a backslash consumes the character after it without looking
  at it, and the error ``unterminated string literal (newline in string)'' is emitted
  exactly when a newline not consumed by a backslash comes before the closing quote.
  For every state \<open>L\<close> at an opening quote, what \<^verbatim>\<open>lexString\<close> adds to the engine is decided
  by the text after the quote alone: nothing when the closing quote comes first, the
  newline error when such a newline comes first, and the plain ``unterminated string
  literal'' when the input ends first. The last part is the example of the claim: in
  \<^verbatim>\<open>"a\\<close>, newline, \<^verbatim>\<open>b"\<close> the newline follows a backslash, no error is emitted, the token is
  a string literal whose text contains the newline, and the lexer is on line 2 after
  it.
\<close>

theorem lexString_newline_error:
  "newMessages D (snd (snd (lexString L D))) =
     (case scanStringBody (drop (l_current L + 1) (l_source L)) of
        Closed \<Rightarrow> []
      | UnescapedNewline \<Rightarrow> [''unterminated string literal (newline in string)'']
      | EndOfInput \<Rightarrow> [''unterminated string literal''])
   \<and> (case nextToken stod_range_error
              (Lexer_init ([CHR 0x22, CHR ''a'', CHR 0x5C, CHR 0x0A, CHR ''b'', CHR 0x22]) fname)
              DiagnosticEngine_init of
         Inl e \<Rightarrow> False
       | Inr (t, L', D') \<Rightarrow>
           kind t = StringLiteral \<and> tokenText t = [CHR ''a'', CHR 0x5C, CHR 0x0A, CHR ''b''] \<and>
           l_line L' = 2 \<and> diagnostics D' = [])"
proof -
  obtain r L2 where loop: "lexString_loop (advance L) = (r, L2)"
    by (cases "lexString_loop (advance L)")
  from lexString_loop_scans_body [of "advance L"] loop
  have body: "scanStringBody (drop (l_current L + 1) (l_source L)) = loop_end (r, L2)" by simp
  have general: "newMessages D (snd (snd (lexString L D))) =
     (case scanStringBody (drop (l_current L + 1) (l_source L)) of
        Closed \<Rightarrow> []
      | UnescapedNewline \<Rightarrow> [''unterminated string literal (newline in string)'']
      | EndOfInput \<Rightarrow> [''unterminated string literal''])"
  proof (cases r)
    case None
    with loop show ?thesis unfolding body by (simp add: lexString_def Let_def loop_end_def)
  next
    case (Some msg)
    from loop Some have "msg = ''unterminated string literal (newline in string)'' \<or>
                         msg = ''unterminated string literal''"
      using lexString_loop_messages [of "advance L" msg] by simp
    with Some loop show ?thesis unfolding body by (auto simp: lexString_def Let_def loop_end_def)
  qed
  have example: "(case nextToken stod_range_error
              (Lexer_init ([CHR 0x22, CHR ''a'', CHR 0x5C, CHR 0x0A, CHR ''b'', CHR 0x22]) fname)
              DiagnosticEngine_init of
         Inl e \<Rightarrow> False
       | Inr (t, L', D') \<Rightarrow>
           kind t = StringLiteral \<and> tokenText t = [CHR ''a'', CHR 0x5C, CHR 0x0A, CHR ''b''] \<and>
           l_line L' = 2 \<and> diagnostics D' = [])"
    by code_simp
  from general example show ?thesis by blast
qed

text \<open>
  C2. The specification says that after a resolution without errors every identifier
  expression of the module names a symbol of its scope or of an enclosing one, identifiers
  in the arm bodies of a match statement included. The source does not resolve them: the
  \<^verbatim>\<open>Match\<close> branch of \<^verbatim>\<open>resolveStmt\<close> resolves the scrutinee and stops at the comment ``Match
  arms need pattern scope resolution'', while the \<^verbatim>\<open>Match\<close> branch of \<^verbatim>\<open>resolveExpr\<close> does
  walk the arms. For the function \<^verbatim>\<open>func f() { match 1 { _ => y } }\<close> the resolver
  emits nothing, although no scope has a symbol \<open>y\<close> (the only symbol is \<open>f\<close>); the same
  match as an expression statement gets the error.
\<close>

theorem resolve_skips_match_statement_arms:
  "resolve \<lparr>m_name = ''m'', m_imports = [], declarations =
       [Func \<lparr>f_location = loc, f_visibility = Private, f_name = ''f'', f_genericParams = [],
              f_params = [], f_returnType = None,
              f_body = Some [MatchStmt loc (IntLiteralExpr loc 1)
                               [MatchArm WildcardPattern None (IdentExpr loc ''y'')]]\<rparr>]\<rparr>
     (NameResolver_init DiagnosticEngine_init (Scope ''global'' [] []))
   = \<lparr>r_diag = DiagnosticEngine_init,
      r_scopes = [Scope ''global'' [(''f'', declSymbol ''f'' SymFunction Private loc)]
                    [Scope ''f'' [] []]]\<rparr>
   \<and>
   map message (diagnostics (r_diag (resolve \<lparr>m_name = ''m'', m_imports = [], declarations =
       [Func \<lparr>f_location = loc, f_visibility = Private, f_name = ''f'', f_genericParams = [],
              f_params = [], f_returnType = None,
              f_body = Some [ExprStmt loc (MatchExpr loc (IntLiteralExpr loc 1)
                               [MatchArm WildcardPattern None (IdentExpr loc ''y'')])]\<rparr>]\<rparr>
     (NameResolver_init DiagnosticEngine_init (Scope ''global'' [] [])))))
   = [''use of undeclared identifier '' @ [CHR 0x27] @ ''y'' @ [CHR 0x27]]"
  by (simp add: resolve_def NameResolver_init_def resolveFunc_def registerFunc_def registerNamed_def
        r_insert_or_error_def enterScope_def exitScope_def r_emitError_def emitError_def emit_def
        DiagnosticEngine_init_def quoted_def)

text \<open>
  Claim C6. When the resolver processes a \<^verbatim>\<open>let\<close> or \<^verbatim>\<open>const\<close> statement it resolves the
  initializer before it inserts the declared name into the current scope: the name goes
  into the current scope of the state that resolving the initializer has left, and the
  messages of the initializer come first. So for \<^verbatim>\<open>let x = x + 1;\<close> (and the same \<^verbatim>\<open>const\<close>),
  resolved in the chain \<open>cur # parents\<close>, the \<^verbatim>\<open>x\<close> of the initializer is looked up in the scopes
  as they are before the statement. The scopes that enclose the statement are the current
  scope and its ancestors: if none of them declares \<^verbatim>\<open>x\<close> the identifier is reported as
  undeclared, and if one does it is not reported and \<^verbatim>\<open>lookup\<close> answers with the entry of the
  innermost scope that declares \<^verbatim>\<open>x\<close>. Afterwards \<^verbatim>\<open>x\<close> is added to the current scope as a
  variable, unless the current scope declares \<^verbatim>\<open>x\<close> already: then the scopes stay as they
  are and the redefinition is reported.
\<close>

theorem let_resolves_initializer_first:
  "messages (r_diag (resolveStmt
      (LetStmt loc x ty (Some (BinaryExpr l1 AddOp (IdentExpr l2 x) (IntLiteralExpr l3 n))) isMutable)
      \<lparr>r_diag = D, r_scopes = cur # parents\<rparr>))
   = messages D
     @ (if \<exists>S \<in> set (cur # parents). declaredIn S x then []
        else [''use of undeclared identifier '' @ quoted x])
     @ (if declaredIn cur x then [''redefinition of variable '' @ quoted x] else [])
   \<and>
   r_scopes (resolveStmt
      (LetStmt loc x ty (Some (BinaryExpr l1 AddOp (IdentExpr l2 x) (IntLiteralExpr l3 n))) isMutable)
      \<lparr>r_diag = D, r_scopes = cur # parents\<rparr>)
   = (if declaredIn cur x then cur # parents
      else Scope (scope_name cur) (symbols cur @ [(x, variableSymbol x loc isMutable)])
             (children cur) # parents)
   \<and>
   messages (r_diag (resolveStmt
      (ConstStmt loc x ty (Some (BinaryExpr l1 AddOp (IdentExpr l2 x) (IntLiteralExpr l3 n))))
      \<lparr>r_diag = D, r_scopes = cur # parents\<rparr>))
   = messages D
     @ (if \<exists>S \<in> set (cur # parents). declaredIn S x then []
        else [''use of undeclared identifier '' @ quoted x])
     @ (if declaredIn cur x then [''redefinition of constant '' @ quoted x] else [])
   \<and>
   r_scopes (resolveStmt
      (ConstStmt loc x ty (Some (BinaryExpr l1 AddOp (IdentExpr l2 x) (IntLiteralExpr l3 n))))
      \<lparr>r_diag = D, r_scopes = cur # parents\<rparr>)
   = (if declaredIn cur x then cur # parents
      else Scope (scope_name cur) (symbols cur @ [(x, variableSymbol x loc False)])
             (children cur) # parents)
   \<and>
   ((\<exists>S \<in> set (cur # parents). declaredIn S x) \<longrightarrow>
    (\<exists>inner S outer symb.
        cur # parents = inner @ S # outer \<and> (\<forall>S' \<in> set inner. \<not> declaredIn S' x) \<and>
        map_of (symbols S) x = Some symb \<and> lookup (cur # parents) x = Some symb))
   \<and>
   (r_scopes (resolveExprOpt initializer R) = cur' # parents' \<longrightarrow>
    r_scopes (resolveStmt (LetStmt loc x ty initializer isMutable) R)
      = (if declaredIn cur' x then cur' # parents'
         else Scope (scope_name cur') (symbols cur' @ [(x, variableSymbol x loc isMutable)])
                (children cur') # parents') \<and>
    messages (r_diag (resolveStmt (LetStmt loc x ty initializer isMutable) R))
      = messages (r_diag (resolveExprOpt initializer R))
        @ (if declaredIn cur' x then [''redefinition of variable '' @ quoted x] else []) \<and>
    r_scopes (resolveStmt (ConstStmt loc x ty initializer) R)
      = (if declaredIn cur' x then cur' # parents'
         else Scope (scope_name cur') (symbols cur' @ [(x, variableSymbol x loc False)])
                (children cur') # parents') \<and>
    messages (r_diag (resolveStmt (ConstStmt loc x ty initializer) R))
      = messages (r_diag (resolveExprOpt initializer R))
        @ (if declaredIn cur' x then [''redefinition of constant '' @ quoted x] else []))"
proof -
  define R0 where "R0 = \<lparr>r_diag = D, r_scopes = cur # parents\<rparr>"
  define e where "e = Some (BinaryExpr l1 AddOp (IdentExpr l2 x) (IntLiteralExpr l3 n))"
  define R1 where "R1 = resolveExprOpt e R0"
  have s1: "r_scopes R1 = cur # parents"
    by (simp add: R1_def e_def R0_def r_emitError_def)
  have m1: "messages (r_diag R1) = messages D
     @ (if \<exists>S \<in> set (cur # parents). declaredIn S x then []
        else [''use of undeclared identifier '' @ quoted x])"
    using lookup_None_iff [of "cur # parents" x]
    by (simp add: R1_def e_def R0_def r_emitError_def messages_emitError)
  have a: "messages (r_diag (resolveStmt (LetStmt loc x ty e isMutable) R0))
      = messages D
        @ (if \<exists>S \<in> set (cur # parents). declaredIn S x then []
           else [''use of undeclared identifier '' @ quoted x])
        @ (if declaredIn cur x then [''redefinition of variable '' @ quoted x] else [])"
    using r_insert_or_error_contents(2) [OF s1] m1 by (simp add: R1_def)
  have b: "r_scopes (resolveStmt (LetStmt loc x ty e isMutable) R0)
      = (if declaredIn cur x then cur # parents
         else Scope (scope_name cur) (symbols cur @ [(x, variableSymbol x loc isMutable)])
                (children cur) # parents)"
    using r_insert_or_error_contents(1) [OF s1] by (simp add: R1_def)
  have c: "messages (r_diag (resolveStmt (ConstStmt loc x ty e) R0))
      = messages D
        @ (if \<exists>S \<in> set (cur # parents). declaredIn S x then []
           else [''use of undeclared identifier '' @ quoted x])
        @ (if declaredIn cur x then [''redefinition of constant '' @ quoted x] else [])"
    using r_insert_or_error_contents(2) [OF s1] m1 by (simp add: R1_def)
  have d: "r_scopes (resolveStmt (ConstStmt loc x ty e) R0)
      = (if declaredIn cur x then cur # parents
         else Scope (scope_name cur) (symbols cur @ [(x, variableSymbol x loc False)])
                (children cur) # parents)"
    using r_insert_or_error_contents(1) [OF s1] by (simp add: R1_def)
  have f: "(\<exists>S \<in> set (cur # parents). declaredIn S x) \<longrightarrow>
    (\<exists>inner S outer symb.
        cur # parents = inner @ S # outer \<and> (\<forall>S' \<in> set inner. \<not> declaredIn S' x) \<and>
        map_of (symbols S) x = Some symb \<and> lookup (cur # parents) x = Some symb)"
  proof
    assume "\<exists>S \<in> set (cur # parents). declaredIn S x"
    then have "lookup (cur # parents) x \<noteq> None" using lookup_None_iff [of "cur # parents" x] by blast
    then obtain symb where l: "lookup (cur # parents) x = Some symb" by blast
    from lookup_innermost [OF l] l
    show "\<exists>inner S outer symb.
        cur # parents = inner @ S # outer \<and> (\<forall>S' \<in> set inner. \<not> declaredIn S' x) \<and>
        map_of (symbols S) x = Some symb \<and> lookup (cur # parents) x = Some symb"
      by blast
  qed
  have g: "r_scopes (resolveExprOpt initializer R) = cur' # parents' \<longrightarrow>
    r_scopes (resolveStmt (LetStmt loc x ty initializer isMutable) R)
      = (if declaredIn cur' x then cur' # parents'
         else Scope (scope_name cur') (symbols cur' @ [(x, variableSymbol x loc isMutable)])
                (children cur') # parents') \<and>
    messages (r_diag (resolveStmt (LetStmt loc x ty initializer isMutable) R))
      = messages (r_diag (resolveExprOpt initializer R))
        @ (if declaredIn cur' x then [''redefinition of variable '' @ quoted x] else []) \<and>
    r_scopes (resolveStmt (ConstStmt loc x ty initializer) R)
      = (if declaredIn cur' x then cur' # parents'
         else Scope (scope_name cur') (symbols cur' @ [(x, variableSymbol x loc False)])
                (children cur') # parents') \<and>
    messages (r_diag (resolveStmt (ConstStmt loc x ty initializer) R))
      = messages (r_diag (resolveExprOpt initializer R))
        @ (if declaredIn cur' x then [''redefinition of constant '' @ quoted x] else [])"
  proof
    assume s: "r_scopes (resolveExprOpt initializer R) = cur' # parents'"
    show "r_scopes (resolveStmt (LetStmt loc x ty initializer isMutable) R)
      = (if declaredIn cur' x then cur' # parents'
         else Scope (scope_name cur') (symbols cur' @ [(x, variableSymbol x loc isMutable)])
                (children cur') # parents') \<and>
    messages (r_diag (resolveStmt (LetStmt loc x ty initializer isMutable) R))
      = messages (r_diag (resolveExprOpt initializer R))
        @ (if declaredIn cur' x then [''redefinition of variable '' @ quoted x] else []) \<and>
    r_scopes (resolveStmt (ConstStmt loc x ty initializer) R)
      = (if declaredIn cur' x then cur' # parents'
         else Scope (scope_name cur') (symbols cur' @ [(x, variableSymbol x loc False)])
                (children cur') # parents') \<and>
    messages (r_diag (resolveStmt (ConstStmt loc x ty initializer) R))
      = messages (r_diag (resolveExprOpt initializer R))
        @ (if declaredIn cur' x then [''redefinition of constant '' @ quoted x] else [])"
      using r_insert_or_error_contents [OF s] by simp
  qed
  show ?thesis
    using a b c d f g unfolding R0_def e_def by blast
qed

text \<open>
  The statement \<^verbatim>\<open>let x: Int32 = x + 1;\<close> in a block of a function \<^verbatim>\<open>f\<close> whose parameter is \<^verbatim>\<open>x\<close>: the
  initializer finds the parameter, and the block gets its own \<^verbatim>\<open>x\<close>.
\<close>

theorem let_resolves_initializer_first_witness:
  "(\<exists>S \<in> set [Scope ''block'' [] [],
                Scope ''f'' [(''x'', variableSymbol ''x'' SourceLocation_default False)] [],
                Scope ''global'' [] []]. declaredIn S ''x'')
   \<and> lookup [Scope ''block'' [] [],
              Scope ''f'' [(''x'', variableSymbol ''x'' SourceLocation_default False)] [],
              Scope ''global'' [] []] ''x''
       = Some (variableSymbol ''x'' SourceLocation_default False)
   \<and> messages (r_diag (resolveStmt
        (LetStmt SourceLocation_default ''x'' (Some (NamedType [''Int32'']))
           (Some (BinaryExpr SourceLocation_default AddOp
                    (IdentExpr SourceLocation_default ''x'')
                    (IntLiteralExpr SourceLocation_default 1))) False)
        \<lparr>r_diag = DiagnosticEngine_init,
          r_scopes = [Scope ''block'' [] [],
                      Scope ''f'' [(''x'', variableSymbol ''x'' SourceLocation_default False)] [],
                      Scope ''global'' [] []]\<rparr>)) = []
   \<and> r_scopes (resolveStmt
        (LetStmt SourceLocation_default ''x'' (Some (NamedType [''Int32'']))
           (Some (BinaryExpr SourceLocation_default AddOp
                    (IdentExpr SourceLocation_default ''x'')
                    (IntLiteralExpr SourceLocation_default 1))) False)
        \<lparr>r_diag = DiagnosticEngine_init,
          r_scopes = [Scope ''block'' [] [],
                      Scope ''f'' [(''x'', variableSymbol ''x'' SourceLocation_default False)] [],
                      Scope ''global'' [] []]\<rparr>)
       = [Scope ''block'' [(''x'', variableSymbol ''x'' SourceLocation_default False)] [],
          Scope ''f'' [(''x'', variableSymbol ''x'' SourceLocation_default False)] [],
          Scope ''global'' [] []]"
proof -
  have d: "\<exists>S \<in> set [Scope ''block'' [] [],
                Scope ''f'' [(''x'', variableSymbol ''x'' SourceLocation_default False)] [],
                Scope ''global'' [] []]. declaredIn S ''x''"
    by (simp add: declaredIn_def)
  have n: "\<not> declaredIn (Scope ''block'' [] []) ''x''"
    by (simp add: declaredIn_def)
  have l: "lookup [Scope ''block'' [] [],
              Scope ''f'' [(''x'', variableSymbol ''x'' SourceLocation_default False)] [],
              Scope ''global'' [] []] ''x''
       = Some (variableSymbol ''x'' SourceLocation_default False)"
    by simp
  show ?thesis
    using let_resolves_initializer_first
      [of SourceLocation_default "''x''" "Some (NamedType [''Int32''])" SourceLocation_default SourceLocation_default
          SourceLocation_default 1 False DiagnosticEngine_init "Scope ''block'' [] []"
          "[Scope ''f'' [(''x'', variableSymbol ''x'' SourceLocation_default False)] [],
            Scope ''global'' [] []]"]
      d n l
    by (simp add: messages_def DiagnosticEngine_init_def)
qed

text \<open>
  Claim C4. \<^verbatim>\<open>TypeChecker::typesCompatible(expected, actual)\<close> holds exactly when the two
  strings are equal, or \<open>actual\<close> is \<^verbatim>\<open>Int64\<close> and \<open>expected\<close> is one of the eight integer
  primitive names, or \<open>actual\<close> is \<^verbatim>\<open>Float64\<close> and \<open>expected\<close> is \<^verbatim>\<open>Float32\<close>; for every other
  pair of strings it is false.
\<close>

theorem typesCompatible_characterisation:
  "typesCompatible expected actual =
     (expected = actual \<or>
      (actual = ''Int64'' \<and>
       expected \<in> {''Int8'', ''Int16'', ''Int32'', ''Int64'',
                    ''UInt8'', ''UInt16'', ''UInt32'', ''UInt64''}) \<or>
      (actual = ''Float64'' \<and> expected = ''Float32''))"
  unfolding typesCompatible_def by auto




end
